(* ===== verification/StatusCodes.thy ===== *)
theory StatusCodes
  imports Prelude
begin

text \<open>
  Parsing of HTTP status code rules (\<open>src/web/default/src/lib/http-status-code-rules.ts\<close>): a comma
  separated list of codes and ranges, such as \<open>401, 500-599\<close>, is turned into a normal form of
  separated, increasing ranges. The input of type \<open>unknown\<close> is the text of the value, \<open>None\<close> for
  \<open>null\<close> and \<open>undefined\<close>.
\<close>

section \<open>Model\<close>

record StatusCodeRange =
  r_start :: nat
  r_end :: nat

record ParsedHttpStatusCodeRules =
  p_ok :: bool
  p_ranges :: "StatusCodeRange list"
  p_tokens :: "string list"
  p_normalized :: string
  p_invalidTokens :: "string list"

definition isValidCode :: "nat \<Rightarrow> bool" where
  "isValidCode code \<longleftrightarrow> 100 \<le> code \<and> code \<le> 599"

definition parseToken :: "string \<Rightarrow> StatusCodeRange option" where
  "parseToken token =
     (let cleaned = filter (\<lambda>c. \<not> is_ws c) (trim token) in
      if cleaned = [] then None
      else if js_includes cleaned ''-'' then
        (case split_on CHR ''-'' cleaned of
           a # b # _ \<Rightarrow>
             if \<not> isNumber a \<or> \<not> isNumber b then None
             else (let start = read_nat a; end' = read_nat b in
                   if \<not> isValidCode start \<or> \<not> isValidCode end' \<or> start > end' then None
                   else Some \<lparr>r_start = start, r_end = end'\<rparr>)
         | _ \<Rightarrow> None)
      else if \<not> isNumber cleaned then None
      else (let code = read_nat cleaned in
            if \<not> isValidCode code then None else Some \<lparr>r_start = code, r_end = code\<rparr>))"

definition range_le :: "StatusCodeRange \<Rightarrow> StatusCodeRange \<Rightarrow> bool" where
  "range_le a b \<longleftrightarrow>
     (if r_start a \<noteq> r_start b then r_start a \<le> r_start b else r_end a \<le> r_end b)"

text \<open>One step of the \<open>reduce\<close>: push a copy, or extend the last range in place.\<close>

definition merge_step :: "StatusCodeRange list \<Rightarrow> StatusCodeRange \<Rightarrow> StatusCodeRange list" where
  "merge_step merged current =
     (if merged = [] then [current]
      else (let lst = last merged in
            if r_start current > r_end lst + 1 then merged @ [current]
            else butlast merged @ [lst\<lparr>r_end := max (r_end lst) (r_end current)\<rparr>]))"

definition mergeRanges :: "StatusCodeRange list \<Rightarrow> StatusCodeRange list" where
  "mergeRanges ranges =
     (if ranges = [] then [] else foldl merge_step [] (sort_by range_le ranges))"

text \<open>\<open>raw.replace(/[\<dots>]/g, ',')\<close> for the full-width comma U+FF0C, three bytes in UTF-8.\<close>

fun replace_wide_comma :: "string \<Rightarrow> string" where
  "replace_wide_comma (a # b # c # xs) =
     (if a = CHR 0xEF \<and> b = CHR 0xBC \<and> c = CHR 0x8C then CHR '','' # replace_wide_comma xs
      else a # replace_wide_comma (b # c # xs))"
| "replace_wide_comma xs = xs"

definition segments :: "string \<Rightarrow> string list" where
  "segments raw =
     filter (\<lambda>s. s \<noteq> []) (map trim (split_on CHR '','' (replace_wide_comma raw)))"

text \<open>The loop over the segments, with its two accumulators.\<close>

fun collect :: "string list \<Rightarrow> StatusCodeRange list \<Rightarrow> string list
    \<Rightarrow> StatusCodeRange list \<times> string list" where
  "collect [] ranges invalid = (ranges, invalid)"
| "collect (s # ss) ranges invalid =
     (case parseToken s of
        None \<Rightarrow> collect ss ranges (invalid @ [s])
      | Some r \<Rightarrow> collect ss (ranges @ [r]) invalid)"

definition range_token :: "StatusCodeRange \<Rightarrow> string" where
  "range_token r =
     (if r_start r = r_end r then show_nat (r_start r)
      else show_nat (r_start r) @ ''-'' @ show_nat (r_end r))"

definition parseHttpStatusCodeRules :: "string option \<Rightarrow> ParsedHttpStatusCodeRules" where
  "parseHttpStatusCodeRules input =
     (let raw = trim (nullish input []) in
      if raw = [] then
        \<lparr>p_ok = True, p_ranges = [], p_tokens = [], p_normalized = [], p_invalidTokens = []\<rparr>
      else
        (case collect (segments raw) [] [] of
           (ranges, invalid) \<Rightarrow>
             if invalid \<noteq> [] then
               \<lparr>p_ok = False, p_ranges = [], p_tokens = [], p_normalized = raw,
                p_invalidTokens = invalid\<rparr>
             else
               (let merged = mergeRanges ranges; tokens = map range_token merged in
                \<lparr>p_ok = True, p_ranges = merged, p_tokens = tokens,
                 p_normalized = join '','' tokens, p_invalidTokens = []\<rparr>)))"

section \<open>Abstract view: the set of codes a list of ranges covers\<close>

definition covers :: "StatusCodeRange list \<Rightarrow> nat set" where
  "covers rs = (\<Union>r \<in> set rs. {r_start r..r_end r})"

definition wf_range :: "StatusCodeRange \<Rightarrow> bool" where
  "wf_range r \<longleftrightarrow> 100 \<le> r_start r \<and> r_start r \<le> r_end r \<and> r_end r \<le> 599"

text \<open>Normal form: increasing, and a gap of at least one code between neighbours.\<close>

abbreviation separated :: "StatusCodeRange list \<Rightarrow> bool" where
  "separated rs \<equiv> sorted_wrt (\<lambda>a b. r_end a + 1 < r_start b) rs"

section \<open>Lemmas\<close>

lemma covers_simps [cov_simps]:
  "covers [] = {}"
  "covers (r # rs) = {r_start r..r_end r} \<union> covers rs"
  "covers (rs @ qs) = covers rs \<union> covers qs"
  by (auto simp: covers_def)

interpretation range_cmp: comparator range_le
  by unfold_locales (auto simp: range_le_def split: if_splits)

lemma covers_mset: "mset rs = mset qs \<Longrightarrow> covers rs = covers qs"
  unfolding covers_def by (metis mset_eq_setD)

lemma parseToken_wf: "parseToken s = Some r \<Longrightarrow> wf_range r"
  by (auto simp: parseToken_def wf_range_def isValidCode_def Let_def split: if_splits list.splits)

lemma collect_eq:
  "collect ss ranges invalid =
     (ranges @ List.map_filter parseToken ss, invalid @ filter (\<lambda>s. parseToken s = None) ss)"
  by (induction ss ranges invalid rule: collect.induct)
     (auto simp: List.map_filter_simps split: option.splits)

lemma merge_step_snoc:
  "merge_step (ms @ [l]) c =
     (if r_end l + 1 < r_start c then ms @ [l, c]
      else ms @ [l\<lparr>r_end := max (r_end l) (r_end c)\<rparr>])"
  by (simp add: merge_step_def)

lemma merge_step_separated:
  assumes "separated ms" and "ms \<noteq> [] \<Longrightarrow> r_start (last ms) \<le> r_start c"
  shows "separated (merge_step ms c)"
proof (cases ms rule: rev_cases)
  case Nil
  then show ?thesis by (simp add: merge_step_def)
next
  case (snoc qs l)
  with assms show ?thesis
    by (auto simp: merge_step_snoc sorted_wrt_append)
qed

lemma merge_step_start: "ms \<noteq> [] \<Longrightarrow> r_start (last ms) \<le> r_start c \<Longrightarrow>
    r_start (last (merge_step ms c)) \<le> r_start c"
  by (cases ms rule: rev_cases) (auto simp: merge_step_snoc)

lemma merge_step_wf: "list_all wf_range ms \<Longrightarrow> wf_range c \<Longrightarrow> list_all wf_range (merge_step ms c)"
  by (cases ms rule: rev_cases) (auto simp: merge_step_snoc merge_step_def wf_range_def)

lemma merge_step_ne [simp]: "merge_step ms c \<noteq> []"
  by (simp add: merge_step_def Let_def)

lemma merge_step_covers:
  assumes "ms \<noteq> [] \<Longrightarrow> r_start (last ms) \<le> r_start c"
    and "list_all wf_range ms" and "wf_range c"
  shows "covers (merge_step ms c) = covers ms \<union> {r_start c..r_end c}"
proof (cases ms rule: rev_cases)
  case Nil
  then show ?thesis by (simp add: merge_step_def cov_simps)
next
  case (snoc qs l)
  with assms have "r_start l \<le> r_start c" "r_start l \<le> r_end l" "r_start c \<le> r_end c"
    by (auto simp: wf_range_def)
  then show ?thesis
    by (auto simp: snoc merge_step_snoc cov_simps)
qed

text \<open>The invariant of the \<open>reduce\<close> over the sorted ranges.\<close>

lemma foldl_merge_step:
  assumes "sorted_wrt range_le cs" "list_all wf_range cs" "list_all wf_range ms" "separated ms"
    and "ms \<noteq> [] \<Longrightarrow> \<forall>c \<in> set cs. r_start (last ms) \<le> r_start c"
  shows "separated (foldl merge_step ms cs) \<and> list_all wf_range (foldl merge_step ms cs)
    \<and> covers (foldl merge_step ms cs) = covers ms \<union> covers cs"
  using assms
proof (induction cs arbitrary: ms)
  case Nil
  then show ?case by (simp add: cov_simps)
next
  case (Cons c cs)
  let ?ms = "merge_step ms c"
  have st: "ms \<noteq> [] \<Longrightarrow> r_start (last ms) \<le> r_start c"
    using Cons.prems(5) by simp
  have le: "r_start (last ?ms) \<le> r_start c"
    using merge_step_start [of ms c] st by (cases "ms = []") (simp_all add: merge_step_def)
  have "\<forall>d \<in> set cs. r_start c \<le> r_start d"
    using Cons.prems(1) by (auto simp: range_le_def split: if_splits)
  with le have "\<forall>d \<in> set cs. r_start (last ?ms) \<le> r_start d"
    by force
  moreover have "separated ?ms"
    using merge_step_separated [OF Cons.prems(4) st] .
  moreover have "list_all wf_range ?ms"
    using Cons.prems by (auto intro: merge_step_wf)
  moreover have "covers ?ms = covers ms \<union> {r_start c..r_end c}"
    using merge_step_covers [OF st] Cons.prems by simp
  ultimately show ?case
    using Cons.IH [of ?ms] Cons.prems by (auto simp: cov_simps)
qed

lemma mergeRanges_spec:
  assumes "list_all wf_range rs"
  shows "separated (mergeRanges rs)" and "list_all wf_range (mergeRanges rs)"
    and "covers (mergeRanges rs) = covers rs"
proof -
  let ?cs = "sort_by range_le rs"
  have wf: "list_all wf_range ?cs"
    using assms by (simp add: list_all_iff)
  have cov: "covers ?cs = covers rs"
    by (rule covers_mset) simp
  note F = foldl_merge_step [OF range_cmp.sorted_sort_by wf, of "[]", simplified cov cov_simps]
  then show "separated (mergeRanges rs)" "list_all wf_range (mergeRanges rs)"
    "covers (mergeRanges rs) = covers rs"
    by (auto simp: mergeRanges_def cov_simps)
qed

text \<open>A separated list is already merged.\<close>

lemma separated_sorted: "separated rs \<Longrightarrow> list_all wf_range rs \<Longrightarrow> sorted_wrt range_le rs"
  by (induction rs) (fastforce simp: range_le_def wf_range_def list_all_iff)+

lemma foldl_merge_separated:
  "separated (ms @ cs) \<Longrightarrow> foldl merge_step ms cs = ms @ cs"
proof (induction cs arbitrary: ms)
  case (Cons c cs)
  have "merge_step ms c = ms @ [c]"
    using Cons.prems by (cases ms rule: rev_cases) (auto simp: merge_step_def sorted_wrt_append)
  with Cons show ?case by simp
qed simp

lemma mergeRanges_id: "separated rs \<Longrightarrow> list_all wf_range rs \<Longrightarrow> mergeRanges rs = rs"
  by (simp add: mergeRanges_def sort_by_sorted separated_sorted foldl_merge_separated)

text \<open>The printed form of a range parses back to it.\<close>

lemma range_token_chars: "c \<in> set (range_token r) \<Longrightarrow> is_digit c \<or> c = CHR ''-''"
  by (auto simp: range_token_def split: if_splits dest: show_nat_chars)

lemma token_char_props:
  assumes "is_digit c \<or> c = CHR ''-''"
  shows "\<not> is_ws c" and "c \<noteq> CHR '',''" and "c \<noteq> CHR 0xEF"
  using assms by (auto simp: is_digit_def is_ws_def)

lemma range_token_ne [simp]: "range_token r \<noteq> []" "[] \<noteq> range_token r"
  by (auto simp: range_token_def)

lemma dash_not_in_nat: "CHR ''-'' \<notin> set (show_nat n)"
  by (auto dest!: show_nat_chars simp: is_digit_def)

lemma parseToken_range_token: "wf_range r \<Longrightarrow> parseToken (range_token r) = Some r"
proof -
  assume wf: "wf_range r"
  have nows: "\<And>c. c \<in> set (range_token r) \<Longrightarrow> \<not> is_ws c"
    using range_token_chars token_char_props(1) by blast
  have clean: "filter (\<lambda>c. \<not> is_ws c) (trim (range_token r)) = range_token r"
    by (simp add: trim_no_ws nows)
  show ?thesis
  proof (cases "r_start r = r_end r")
    case True
    with wf show ?thesis
      unfolding parseToken_def clean Let_def
      by (simp add: range_token_def js_includes_single dash_not_in_nat wf_range_def isValidCode_def)
  next
    case False
    with wf show ?thesis
      unfolding parseToken_def clean Let_def
      by (simp add: range_token_def js_includes_single split_on_append dash_not_in_nat
          split_on_free wf_range_def isValidCode_def)
  qed
qed

lemma replace_wide_comma_id: "CHR 0xEF \<notin> set s \<Longrightarrow> replace_wide_comma s = s"
  by (induction s rule: replace_wide_comma.induct) auto

lemma segments_tokens:
  assumes "rs \<noteq> []"
  shows "segments (join '','' (map range_token rs)) = map range_token rs"
proof -
  let ?ts = "map range_token rs"
  have ch: "\<And>t c. t \<in> set ?ts \<Longrightarrow> c \<in> set t \<Longrightarrow> \<not> is_ws c \<and> c \<noteq> CHR '','' \<and> c \<noteq> CHR 0xEF"
    using range_token_chars token_char_props by fastforce
  have "CHR 0xEF \<notin> set (join '','' ?ts)"
    using ch by (fastforce dest!: join_set)
  moreover have "split_on CHR '','' (join '','' ?ts) = ?ts"
    using assms ch by (intro split_on_join) auto
  moreover have "map trim ?ts = ?ts"
    using ch by (intro map_idI) (auto intro: trim_no_ws)
  ultimately show ?thesis
    by (simp add: segments_def replace_wide_comma_id filter_id_conv)
qed

lemma trim_join_tokens: "trim (join '','' (map range_token rs)) = join '','' (map range_token rs)"
  by (rule trim_no_ws) (auto dest!: join_set range_token_chars simp: is_digit_def is_ws_def)

lemma map_filter_tokens:
  "list_all wf_range rs \<Longrightarrow> List.map_filter parseToken (map range_token rs) = rs"
  by (induction rs) (auto simp: List.map_filter_simps parseToken_range_token)

lemma no_invalid_tokens:
  "list_all wf_range rs \<Longrightarrow> filter (\<lambda>s. parseToken s = None) (map range_token rs) = []"
  by (induction rs) (auto simp: parseToken_range_token)

lemma map_filter_wf: "list_all wf_range (List.map_filter parseToken ss)"
  by (induction ss) (auto simp: List.map_filter_simps dest: parseToken_wf split: option.splits)

text \<open>The two outcomes of the parser on a non-empty text.\<close>

lemma parse_unfold:
  "parseHttpStatusCodeRules input =
     (let raw = trim (nullish input []); ss = segments raw;
          merged = mergeRanges (List.map_filter parseToken ss);
          bad = filter (\<lambda>s. parseToken s = None) ss in
      if raw = [] then
        \<lparr>p_ok = True, p_ranges = [], p_tokens = [], p_normalized = [], p_invalidTokens = []\<rparr>
      else if bad \<noteq> [] then
        \<lparr>p_ok = False, p_ranges = [], p_tokens = [], p_normalized = raw, p_invalidTokens = bad\<rparr>
      else
        \<lparr>p_ok = True, p_ranges = merged, p_tokens = map range_token merged,
         p_normalized = join '','' (map range_token merged), p_invalidTokens = []\<rparr>)"
  by (simp add: parseHttpStatusCodeRules_def collect_eq Let_def)

section \<open>Properties\<close>

text \<open>Whatever the input, the parsed ranges are in normal form: every range lies within
  100..599, and the list is strictly increasing with a gap between neighbours, so that no two
  ranges overlap or touch.\<close>

theorem parsed_ranges_normal_form:
  "separated (p_ranges (parseHttpStatusCodeRules input)) \<and>
   list_all wf_range (p_ranges (parseHttpStatusCodeRules input))"
  using mergeRanges_spec [OF map_filter_wf]
  by (auto simp: parse_unfold Let_def)

text \<open>C39: an accepted input covers exactly the codes of its tokens: merging neither adds nor loses
  a status code.\<close>

theorem parsed_ranges_cover:
  assumes "p_ok (parseHttpStatusCodeRules (Some s))"
  shows "covers (p_ranges (parseHttpStatusCodeRules (Some s))) =
     (\<Union>t \<in> set (segments (trim s)). \<Union>r \<in> set_option (parseToken t). {r_start r..r_end r})"
proof (cases "trim s = []")
  case True
  then show ?thesis
    by (simp add: parse_unfold nullish_def segments_def covers_def)
next
  case False
  let ?rs = "List.map_filter parseToken (segments (trim s))"
  have "p_ranges (parseHttpStatusCodeRules (Some s)) = mergeRanges ?rs"
    using assms False by (auto simp: parse_unfold nullish_def Let_def split: if_splits)
  moreover have "covers ?rs =
      (\<Union>t \<in> set (segments (trim s)). \<Union>r \<in> set_option (parseToken t). {r_start r..r_end r})"
    by (induction "segments (trim s)") (auto simp: covers_def List.map_filter_def)
  ultimately show ?thesis
    using mergeRanges_spec(3) [OF map_filter_wf] by simp
qed

theorem parsed_ranges_cover_witness:
  "p_ok (parseHttpStatusCodeRules (Some ''500-503, 502-510,401'')) \<and>
   502 \<in> covers (p_ranges (parseHttpStatusCodeRules (Some ''500-503, 502-510,401'')))"
proof -
  have ok: "p_ok (parseHttpStatusCodeRules (Some ''500-503, 502-510,401''))"
    by code_simp
  have m: "502 \<in> (\<Union>t \<in> set (segments (trim ''500-503, 502-510,401'')).
      \<Union>r \<in> set_option (parseToken t). {r_start r..r_end r})"
    by code_simp
  show ?thesis
    using ok m parsed_ranges_cover [OF ok] by simp
qed

text \<open>C40: the normalized text is a fixed point: parsing it again succeeds and gives the same ranges,
  tokens and text.\<close>

theorem normalized_roundtrip:
  assumes "p_ok (parseHttpStatusCodeRules input)"
  shows "parseHttpStatusCodeRules (Some (p_normalized (parseHttpStatusCodeRules input))) =
     parseHttpStatusCodeRules input"
proof -
  let ?r = "parseHttpStatusCodeRules input"
  let ?rs = "p_ranges ?r"
  have wf: "list_all wf_range ?rs" and sep: "separated ?rs"
    using mergeRanges_spec [OF map_filter_wf] by (auto simp: parse_unfold Let_def)
  have tok: "?r = \<lparr>p_ok = True, p_ranges = ?rs, p_tokens = map range_token ?rs,
      p_normalized = join '','' (map range_token ?rs), p_invalidTokens = []\<rparr>"
    using assms by (auto simp: parse_unfold Let_def split: if_splits)
  have nrm: "p_normalized ?r = join '','' (map range_token ?rs)"
    by (subst tok) simp
  show ?thesis
  proof (cases "?rs = []")
    case True
    have "p_normalized ?r = []"
      using nrm True by simp
    moreover have "?r = \<lparr>p_ok = True, p_ranges = [], p_tokens = [], p_normalized = [],
        p_invalidTokens = []\<rparr>"
      using tok True by simp
    ultimately show ?thesis
      by (simp add: parse_unfold [of "Some []"] nullish_def)
  next
    case False
    have ne: "join '','' (map range_token ?rs) \<noteq> []"
      using False by (intro join_eq_Nil) auto
    show ?thesis
      unfolding nrm
      by (subst parse_unfold, subst tok)
         (simp add: nullish_def trim_join_tokens segments_tokens [OF False] ne Let_def
           map_filter_tokens [OF wf] no_invalid_tokens [OF wf] mergeRanges_id [OF sep wf])
  qed
qed

theorem normalized_roundtrip_witness:
  "p_ok (parseHttpStatusCodeRules (Some ''500-503, 502-510,401'')) \<and>
   p_normalized (parseHttpStatusCodeRules (Some ''401,500-510'')) = ''401,500-510'' \<and>
   parseHttpStatusCodeRules (Some ''401,500-510'') =
     parseHttpStatusCodeRules (Some ''500-503, 502-510,401'')"
proof -
  have ok: "p_ok (parseHttpStatusCodeRules (Some ''500-503, 502-510,401''))"
    by code_simp
  have n: "p_normalized (parseHttpStatusCodeRules (Some ''500-503, 502-510,401'')) = ''401,500-510''"
    by code_simp
  show ?thesis
    using ok normalized_roundtrip [OF ok] unfolding n using n by simp
qed

text \<open>A rejected input reports exactly the tokens that do not parse, in order, keeps the trimmed
  text and yields no range; rejection happens exactly when some token does not parse.\<close>

theorem invalid_tokens_reported:
  "let r = parseHttpStatusCodeRules (Some s);
       bad = filter (\<lambda>t. parseToken t = None) (segments (trim s)) in
   p_invalidTokens r = bad \<and> (p_ok r \<longleftrightarrow> bad = []) \<and>
   (\<not> p_ok r \<longrightarrow> p_ranges r = [] \<and> p_tokens r = [] \<and> p_normalized r = trim s)"
  by (cases "trim s = []") (auto simp: parse_unfold nullish_def Let_def segments_def)

theorem invalid_tokens_reported_witness:
  "\<not> p_ok (parseHttpStatusCodeRules (Some ''401,abc, 99'')) \<and>
   p_invalidTokens (parseHttpStatusCodeRules (Some ''401,abc, 99'')) = [''abc'', ''99'']"
proof -
  have "filter (\<lambda>t. parseToken t = None) (segments (trim ''401,abc, 99'')) = [''abc'', ''99'']"
    by code_simp
  then show ?thesis
    using invalid_tokens_reported [of "''401,abc, 99''"] by (simp add: Let_def)
qed

text \<open>What follows a second dash is ignored.\<close>

lemma second_dash_ignored:
  "parseToken ''100-101-rest'' = parseToken ''100-101''" "parseToken ''100-101'' \<noteq> None"
  by (simp_all add: parseToken_def Let_def js_includes_single is_ws_def trim_def trimEnd_def isNumber_def is_digit_def
      isValidCode_def read_nat_def digit_val_def)

end
