(* ===== verification/Json.thy ===== *)
theory Json
  imports Prelude Complex_Main
begin

text \<open>
  JSON values, \<open>JSON.parse\<close> and \<open>JSON.stringify\<close>, the part of the standard library that the stored
  settings and the network messages go through.

  A number is an exact rational. This agrees with JavaScript on the integers below \<open>2^53\<close> and on
  decimal literals of at most 15 digits, which doubles read and print back unchanged; exponent
  notation in printing (from \<open>10^21\<close>, below \<open>10^-6\<close>) is not modelled. An escape \<open>\uXXXX\<close> stands
  for the UTF-8 encoding of its code unit.
\<close>

section \<open>Values\<close>

datatype jsv =
    JNull
  | JBool bool
  | JNum rat
  | JStr string
  | JArr "jsv list"
  | JObj "(string \<times> jsv) list"

primrec truthy :: "jsv \<Rightarrow> bool" where
  "truthy JNull = False"
| "truthy (JBool b) = b"
| "truthy (JNum n) = (n \<noteq> 0)"
| "truthy (JStr s) = (s \<noteq> [])"
| "truthy (JArr vs) = True"
| "truthy (JObj kvs) = True"

text \<open>Property read \<open>v[k]\<close> on an object; \<open>None\<close> is \<open>undefined\<close>.\<close>

fun field :: "jsv \<Rightarrow> string \<Rightarrow> jsv option" where
  "field (JObj kvs) k = map_of kvs k"
| "field v k = None"

text \<open>\<open>Object.entries\<close>: integer-like keys first, in increasing order, then the others in insertion
  order.\<close>

definition is_index_key :: "string \<Rightarrow> bool" where
  "is_index_key k \<longleftrightarrow> isNumber k \<and> show_nat (read_nat k) = k \<and> int (read_nat k) < 4294967295"

definition entries :: "(string \<times> jsv) list \<Rightarrow> (string \<times> jsv) list" where
  "entries kvs =
     sort_by (\<lambda>a b. read_nat (fst a) \<le> read_nat (fst b)) (filter (\<lambda>e. is_index_key (fst e)) kvs)
     @ filter (\<lambda>e. \<not> is_index_key (fst e)) kvs"

text \<open>The guard \<open>!v || typeof v !== 'object' || Array.isArray(v)\<close> of the sources, negated: the
  entries of a plain object.\<close>

fun plain_object :: "jsv \<Rightarrow> (string \<times> jsv) list option" where
  "plain_object (JObj kvs) = Some kvs"
| "plain_object v = None"

section \<open>Printing\<close>

definition hex_digit :: "nat \<Rightarrow> char" where
  "hex_digit d = (if d < 10 then char_of (48 + d) else char_of (87 + d))"

definition escape_char :: "char \<Rightarrow> string" where
  "escape_char c =
     (if c = CHR 0x22 then [CHR 0x5C, CHR 0x22]
      else if c = CHR 0x5C then [CHR 0x5C, CHR 0x5C]
      else if c = CHR 0x08 then [CHR 0x5C, CHR ''b'']
      else if c = CHR 0x0C then [CHR 0x5C, CHR ''f'']
      else if c = CHR 0x0A then [CHR 0x5C, CHR ''n'']
      else if c = CHR 0x0D then [CHR 0x5C, CHR ''r'']
      else if c = CHR 0x09 then [CHR 0x5C, CHR ''t'']
      else if (of_char c :: nat) < 32 then
        [CHR 0x5C, CHR ''u'', CHR ''0'', CHR ''0'', hex_digit (of_char c div 16),
         hex_digit (of_char c mod 16)]
      else [c])"

definition quote :: "string \<Rightarrow> string" where
  "quote s = [CHR 0x22] @ concat (map escape_char s) @ [CHR 0x22]"

text \<open>Digits after the decimal point, at most \<open>k\<close> of them.\<close>

fun frac_digits :: "nat \<Rightarrow> rat \<Rightarrow> string" where
  "frac_digits 0 x = []"
| "frac_digits (Suc k) x =
     (if x = 0 then []
      else digit_char (nat \<lfloor>10 * x\<rfloor>) # frac_digits k (10 * x - of_int \<lfloor>10 * x\<rfloor>))"

definition show_num :: "rat \<Rightarrow> string" where
  "show_num r =
     (if r = of_int \<lfloor>r\<rfloor> then show_int \<lfloor>r\<rfloor>
      else (let a = \<bar>r\<bar> in
            (if r < 0 then ''-'' else []) @ show_nat (nat \<lfloor>a\<rfloor>) @ ''.'' @
            frac_digits 17 (a - of_int \<lfloor>a\<rfloor>)))"

fun stringify :: "jsv \<Rightarrow> string" where
  "stringify JNull = ''null''"
| "stringify (JBool b) = (if b then ''true'' else ''false'')"
| "stringify (JNum n) = show_num n"
| "stringify (JStr s) = quote s"
| "stringify (JArr vs) = ''['' @ join '','' (map stringify vs) @ '']''"
| "stringify (JObj kvs) =
     ''{'' @ join '','' (map (\<lambda>kv. quote (fst kv) @ '':'' @ stringify (snd kv)) kvs) @ ''}''"

text \<open>\<open>String(v)\<close>, as in template literals.\<close>

fun js_to_string :: "jsv \<Rightarrow> string" where
  "js_to_string JNull = ''null''"
| "js_to_string (JBool b) = (if b then ''true'' else ''false'')"
| "js_to_string (JNum n) = show_num n"
| "js_to_string (JStr s) = s"
| "js_to_string (JArr vs) =
     join '','' (map (\<lambda>v. if v = JNull then [] else js_to_string v) vs)"
| "js_to_string (JObj kvs) = ''[object Object]''"

section \<open>Parsing\<close>

definition is_json_ws :: "char \<Rightarrow> bool" where
  "is_json_ws c \<longleftrightarrow> c \<in> set [CHR '' '', CHR 0x09, CHR 0x0A, CHR 0x0D]"

definition skip_ws :: "string \<Rightarrow> string" where
  "skip_ws s = dropWhile is_json_ws s"

definition hex_val :: "char \<Rightarrow> nat option" where
  "hex_val c =
     (let n = (of_char c :: nat) in
      if 48 \<le> n \<and> n \<le> 57 then Some (n - 48)
      else if 97 \<le> n \<and> n \<le> 102 then Some (n - 87)
      else if 65 \<le> n \<and> n \<le> 70 then Some (n - 55)
      else None)"

definition utf8 :: "nat \<Rightarrow> string" where
  "utf8 n =
     (if n < 128 then [char_of n]
      else if n < 2048 then [char_of (192 + n div 64), char_of (128 + n mod 64)]
      else [char_of (224 + n div 4096), char_of (128 + n div 64 mod 64), char_of (128 + n mod 64)])"

text \<open>The text of \<open>\uXXXX\<close> from its four digits, and the rest of the input.\<close>

definition p_hex4 :: "string \<Rightarrow> (string \<times> string) option" where
  "p_hex4 s =
     (case s of
        a # b # c # d # r \<Rightarrow>
          (case (hex_val a, hex_val b, hex_val c, hex_val d) of
             (Some a', Some b', Some c', Some d') \<Rightarrow>
               Some (utf8 (((a' * 16 + b') * 16 + c') * 16 + d'), r)
           | _ \<Rightarrow> None)
      | _ \<Rightarrow> None)"

definition unescape :: "char \<Rightarrow> char option" where
  "unescape c =
     (if c = CHR 0x22 \<or> c = CHR 0x5C \<or> c = CHR ''/'' then Some c
      else if c = CHR ''b'' then Some (CHR 0x08)
      else if c = CHR ''f'' then Some (CHR 0x0C)
      else if c = CHR ''n'' then Some (CHR 0x0A)
      else if c = CHR ''r'' then Some (CHR 0x0D)
      else if c = CHR ''t'' then Some (CHR 0x09)
      else None)"

lemma p_hex4_length: "p_hex4 s = Some (t, r) \<Longrightarrow> length r < length s"
  by (auto simp: p_hex4_def split: list.splits option.splits)

text \<open>The rest of a string literal, after its opening quote.\<close>

function p_chars :: "string \<Rightarrow> (string \<times> string) option" where
  "p_chars s =
     (case s of
        [] \<Rightarrow> None
      | c # r \<Rightarrow>
          if c = CHR 0x22 then Some ([], r)
          else if c = CHR 0x5C then
            (case r of
               [] \<Rightarrow> None
             | e # r' \<Rightarrow>
                 if e = CHR ''u'' then
                   (case p_hex4 r' of
                      None \<Rightarrow> None
                    | Some (t, r'') \<Rightarrow> map_option (\<lambda>(cs, q). (t @ cs, q)) (p_chars r''))
                 else
                   (case unescape e of
                      None \<Rightarrow> None
                    | Some u \<Rightarrow> map_option (\<lambda>(cs, q). (u # cs, q)) (p_chars r')))
          else if (of_char c :: nat) < 32 then None
          else map_option (\<lambda>(cs, q). (c # cs, q)) (p_chars r))"
  by pat_completeness auto
termination
  by (relation "measure length") (auto dest: p_hex4_length)

declare p_chars.simps [simp del]

text \<open>A number: sign, integer part without leading zeros, fraction, exponent.\<close>

definition p_frac :: "string \<Rightarrow> (rat \<times> string) option" where
  "p_frac s =
     (case s of
        c # r \<Rightarrow>
          if c = CHR ''.'' then
            (let ds = takeWhile is_digit r in
             if ds = [] then None
             else Some (of_nat (read_nat ds) / 10 ^ length ds, dropWhile is_digit r))
          else Some (0, s)
      | [] \<Rightarrow> Some (0, s))"

definition p_exp :: "string \<Rightarrow> (rat \<times> string) option" where
  "p_exp s =
     (case s of
        c # r \<Rightarrow>
          if c = CHR ''e'' \<or> c = CHR ''E'' then
            (let neg = startsWith r ''-'';
                 r' = (if startsWith r ''-'' \<or> startsWith r ''+'' then tl r else r);
                 ds = takeWhile is_digit r' in
             if ds = [] then None
             else Some (if neg then 1 / 10 ^ read_nat ds else 10 ^ read_nat ds,
                        dropWhile is_digit r'))
          else Some (1, s)
      | [] \<Rightarrow> Some (1, s))"

definition p_num :: "string \<Rightarrow> (jsv \<times> string) option" where
  "p_num s =
     (let neg = startsWith s ''-''; s' = (if neg then tl s else s);
          ds = takeWhile is_digit s'; r = dropWhile is_digit s' in
      if ds = [] \<or> (startsWith ds ''0'' \<and> length ds > 1) then None
      else
        (case p_frac r of
           None \<Rightarrow> None
         | Some (f, r1) \<Rightarrow>
             (case p_exp r1 of
                None \<Rightarrow> None
              | Some (e, r2) \<Rightarrow>
                  (let a = (of_nat (read_nat ds) + f) * e in
                   Some (JNum (if neg then - a else a), r2)))))"

lemma length_skip_ws: "length (skip_ws s) \<le> length s"
  by (simp add: skip_ws_def length_dropWhile_le)

lemma skip_ws_Cons_length: "skip_ws s = c # r \<Longrightarrow> length r < length s"
  using length_skip_ws [of s] by simp

text \<open>The descent. The comparisons of lengths hold whenever they are reached, since every parser
  returns a proper suffix of its input; they make the recursion visibly terminating.\<close>

function p_value :: "string \<Rightarrow> (jsv \<times> string) option"
  and p_elems :: "string \<Rightarrow> jsv list \<Rightarrow> (jsv \<times> string) option"
  and p_members :: "string \<Rightarrow> (string \<times> jsv) list \<Rightarrow> (jsv \<times> string) option" where
  "p_value s =
     (case skip_ws s of
        [] \<Rightarrow> None
      | c # r \<Rightarrow>
          if c = CHR ''{'' then
            (if startsWith (skip_ws r) ''}'' then Some (JObj [], tl (skip_ws r))
             else p_members r [])
          else if c = CHR ''['' then
            (if startsWith (skip_ws r) '']'' then Some (JArr [], tl (skip_ws r))
             else p_elems r [])
          else if c = CHR 0x22 then map_option (\<lambda>(t, q). (JStr t, q)) (p_chars r)
          else if startsWith (c # r) ''true'' then Some (JBool True, drop 4 (c # r))
          else if startsWith (c # r) ''false'' then Some (JBool False, drop 5 (c # r))
          else if startsWith (c # r) ''null'' then Some (JNull, drop 4 (c # r))
          else p_num (c # r))"
| "p_elems s acc =
     (case p_value s of
        None \<Rightarrow> None
      | Some (v, r) \<Rightarrow>
          (case skip_ws r of
             [] \<Rightarrow> None
           | c # r' \<Rightarrow>
               if c = CHR '','' then
                 (if length r' < length s then p_elems r' (acc @ [v]) else None)
               else if c = CHR '']'' then Some (JArr (acc @ [v]), r')
               else None))"
| "p_members s acc =
     (case skip_ws s of
        [] \<Rightarrow> None
      | q # r \<Rightarrow>
          if q \<noteq> CHR 0x22 then None
          else
            (case p_chars r of
               None \<Rightarrow> None
             | Some (k, r1) \<Rightarrow>
                 (case skip_ws r1 of
                    [] \<Rightarrow> None
                  | c # r2 \<Rightarrow>
                      if c \<noteq> CHR '':'' \<or> \<not> length r2 < length s then None
                      else
                        (case p_value r2 of
                           None \<Rightarrow> None
                         | Some (v, r3) \<Rightarrow>
                             (case skip_ws r3 of
                                [] \<Rightarrow> None
                              | d # r4 \<Rightarrow>
                                  if d = CHR '','' then
                                    (if length r4 < length s then p_members r4 (map_set k v acc)
                                     else None)
                                  else if d = CHR ''}'' then Some (JObj (map_set k v acc), r4)
                                  else None)))))"
  by pat_completeness auto
termination
  by (relation "measure (\<lambda>x. case x of
          Inl s \<Rightarrow> 2 * length s
        | Inr (Inl (s, acc)) \<Rightarrow> 2 * length s + 1
        | Inr (Inr (s, acc)) \<Rightarrow> 2 * length s + 1)")
     (auto dest!: skip_ws_Cons_length)

declare p_value.simps [simp del] p_elems.simps [simp del] p_members.simps [simp del]

definition JSON_parse :: "string \<Rightarrow> jsv option" where
  "JSON_parse s =
     (case p_value s of
        None \<Rightarrow> None
      | Some (v, r) \<Rightarrow> if skip_ws r = [] then Some v else None)"

lemma set_entries [simp]: "set (entries kvs) = set kvs"
  by (auto simp: entries_def)

lemma plain_object_Some [simp]: "plain_object v = Some kvs \<longleftrightarrow> v = JObj kvs"
  by (cases v) auto

section \<open>Well-formed values\<close>

text \<open>Values on which printing and reading are exact: integers, and objects without duplicate keys
  (which every JavaScript object is).\<close>

fun json_wf :: "jsv \<Rightarrow> bool" where
  "json_wf JNull = True"
| "json_wf (JBool b) = True"
| "json_wf (JNum n) = (n = of_int \<lfloor>n\<rfloor>)"
| "json_wf (JStr s) = True"
| "json_wf (JArr vs) = list_all json_wf vs"
| "json_wf (JObj kvs) = (distinct (map fst kvs) \<and> list_all (\<lambda>kv. json_wf (snd kv)) kvs)"

text \<open>What may follow a value in printed text.\<close>

definition delim :: "string \<Rightarrow> bool" where
  "delim r \<longleftrightarrow> r = [] \<or> hd r \<in> set (CHR 0x0A # '',]}'')"

section \<open>Reading back what was printed\<close>

lemma hex_val_hex_digit: "d < 16 \<Longrightarrow> hex_val (hex_digit d) = Some d"
  by (auto simp: hex_val_def hex_digit_def)

lemma p_hex4_control:
  assumes "(of_char c :: nat) < 32"
  shows "p_hex4 (CHR ''0'' # CHR ''0'' # hex_digit (of_char c div 16) #
      hex_digit (of_char c mod 16) # r) = Some ([c], r)"
proof -
  have z: "hex_val CHR ''0'' = Some 0"
    by (simp add: hex_val_def)
  have "(of_char c :: nat) div 16 < 16" "(of_char c :: nat) mod 16 < 16"
    using assms by auto
  then show ?thesis
    using assms by (simp add: p_hex4_def z hex_val_hex_digit utf8_def)
qed

lemma p_chars_escape:
  assumes "p_chars r = Some (cs, q)"
  shows "p_chars (escape_char c @ r) = Some (c # cs, q)"
proof -
  consider (special) "c \<in> set [CHR 0x22, CHR 0x5C, CHR 0x08, CHR 0x0C, CHR 0x0A, CHR 0x0D, CHR 0x09]"
    | (ctrl) "c \<notin> set [CHR 0x22, CHR 0x5C, CHR 0x08, CHR 0x0C, CHR 0x0A, CHR 0x0D, CHR 0x09]"
        "(of_char c :: nat) < 32"
    | (plain) "c \<notin> set [CHR 0x22, CHR 0x5C, CHR 0x08, CHR 0x0C, CHR 0x0A, CHR 0x0D, CHR 0x09]"
        "\<not> (of_char c :: nat) < 32"
    by blast
  then show ?thesis
  proof cases
    case special
    then show ?thesis
      using assms
      by (auto simp: escape_char_def unescape_def p_chars.simps [of "CHR 0x5C # _"])
  next
    case ctrl
    then show ?thesis
      using assms p_hex4_control [of c r]
      by (simp add: escape_char_def p_chars.simps [of "CHR 0x5C # _"])
  next
    case plain
    then show ?thesis
      using assms by (simp add: escape_char_def p_chars.simps [of "c # _"])
  qed
qed

lemma p_chars_quote: "p_chars (concat (map escape_char s) @ CHR 0x22 # r) = Some (s, r)"
proof (induction s)
  case Nil
  show ?case by (simp add: p_chars.simps [of "CHR 0x22 # _"])
next
  case (Cons c s)
  then show ?case using p_chars_escape by simp
qed

lemma show_nat_leading_zero: "startsWith (show_nat n) ''0'' \<Longrightarrow> length (show_nat n) = 1"
proof (induction n rule: show_nat.induct)
  case (1 n)
  show ?case
  proof (cases "n < 10")
    case True
    then show ?thesis by (subst show_nat.simps) simp
  next
    case False
    then have eq: "show_nat n = show_nat (n div 10) @ [digit_char (n mod 10)]"
      by (subst show_nat.simps) simp
    with "1.prems" have z: "startsWith (show_nat (n div 10)) ''0''"
      using show_nat_ne(1) [of "n div 10"] by (cases "show_nat (n div 10)") (auto simp: startsWith_def)
    with False "1.IH" have one: "length (show_nat (n div 10)) = 1" by simp
    with z have "show_nat (n div 10) = ''0''"
      by (cases "show_nat (n div 10)") (auto simp: startsWith_def)
    then have "n div 10 = 0"
      using read_show_nat [of "n div 10"] by (simp add: read_nat_def digit_val_def)
    with False show ?thesis by simp
  qed
qed

lemma takeWhile_digits: "delim r \<Longrightarrow> takeWhile is_digit (show_nat n @ r) = show_nat n"
  using show_nat_digits [of n]
  by (cases r) (auto simp: list_all_iff delim_def takeWhile_append is_digit_def split: if_splits)

lemma dropWhile_digits: "delim r \<Longrightarrow> dropWhile is_digit (show_nat n @ r) = r"
  using show_nat_digits [of n]
  by (cases r) (auto simp: list_all_iff delim_def dropWhile_append is_digit_def split: if_splits)

lemma p_frac_delim: "delim r \<Longrightarrow> p_frac r = Some (0, r)"
  by (auto simp: p_frac_def delim_def split: list.splits)

lemma p_exp_delim: "delim r \<Longrightarrow> p_exp r = Some (1, r)"
  by (auto simp: p_exp_def delim_def split: list.splits)

lemma show_nat_Cons: "\<exists>c t. show_nat n = c # t \<and> is_digit c"
  using show_nat_digits [of n] show_nat_ne(1) [of n] by (cases "show_nat n") auto

lemma dash_show_nat: "\<not> startsWith (show_nat n @ r) ''-''"
  using show_nat_Cons [of n] by (auto simp: startsWith_def is_digit_def)

lemma p_num_show_int:
  assumes "delim r"
  shows "p_num (show_int i @ r) = Some (JNum (of_int i), r)"
proof -
  have lead: "\<And>n. \<not> (startsWith (show_nat n) ''0'' \<and> length (show_nat n) > 1)"
    using show_nat_leading_zero by fastforce
  show ?thesis
  proof (cases "i < 0")
    case True
    then show ?thesis
      using assms lead [of "nat (- i)"]
      by (auto simp: p_num_def show_int_def startsWith_def [of "CHR ''-'' # _" "''-''"]
          takeWhile_digits dropWhile_digits p_frac_delim p_exp_delim Let_def)
  next
    case False
    then show ?thesis
      using assms lead [of "nat i"]
      by (auto simp: p_num_def show_int_def dash_show_nat
          takeWhile_digits dropWhile_digits p_frac_delim p_exp_delim Let_def)
  qed
qed

lemma show_int_hd: "\<exists>c t. show_int i = c # t \<and> (is_digit c \<or> c = CHR ''-'')"
  using show_nat_Cons [of "nat i"] by (auto simp: show_int_def)

lemma p_value_num:
  assumes "delim r"
  shows "p_value (show_int i @ r) = Some (JNum (of_int i), r)"
proof -
  obtain c t where ct: "show_int i = c # t" "is_digit c \<or> c = CHR ''-''"
    using show_int_hd by blast
  then have "skip_ws (show_int i @ r) = show_int i @ r"
    and "c \<noteq> CHR ''{''" "c \<noteq> CHR ''[''" "c \<noteq> CHR 0x22"
    and "\<not> startsWith (show_int i @ r) ''true''" "\<not> startsWith (show_int i @ r) ''false''"
      "\<not> startsWith (show_int i @ r) ''null''"
    by (auto simp: skip_ws_def is_json_ws_def is_digit_def startsWith_def)
  then show ?thesis
    using p_num_show_int [OF assms, of i] ct by (simp add: p_value.simps)
qed

text \<open>The text of a value starts with a character that is neither white space nor a bracket that
  closes.\<close>

lemma stringify_hd:
  assumes "json_wf v"
  shows "\<exists>c t. stringify v = c # t \<and> \<not> is_json_ws c \<and> c \<noteq> CHR '']'' \<and> c \<noteq> CHR ''}''"
proof (cases v)
  case (JNum n)
  then have "stringify v = show_int \<lfloor>n\<rfloor>"
    using assms by (simp add: show_num_def)
  then show ?thesis
    using show_int_hd [of "\<lfloor>n\<rfloor>"] by (auto simp: is_json_ws_def is_digit_def)
qed (auto simp: is_json_ws_def quote_def)

lemma skip_ws_id: "\<not> is_json_ws c \<Longrightarrow> skip_ws (c # t) = c # t"
  by (simp add: skip_ws_def)

text \<open>Reading one value is right in every context that may follow it.\<close>

abbreviation reads_back :: "jsv \<Rightarrow> bool" where
  "reads_back v \<equiv> (\<forall>r. delim r \<longrightarrow> p_value (stringify v @ r) = Some (v, r))"

lemma delim_Cons [simp]: "c \<in> set '',]}'' \<Longrightarrow> delim (c # r)"
  by (simp add: delim_def)

lemma p_elems_join:
  assumes "vs \<noteq> []" and "\<And>v. v \<in> set vs \<Longrightarrow> reads_back v"
  shows "p_elems (join '','' (map stringify vs) @ CHR '']'' # r) acc = Some (JArr (acc @ vs), r)"
  using assms
proof (induction vs arbitrary: acc)
  case (Cons v vs)
  show ?case
  proof (cases "vs = []")
    case True
    with Cons.prems(2) [of v] show ?thesis
      by (simp add: p_elems.simps skip_ws_def is_json_ws_def)
  next
    case False
    let ?rest = "join '','' (map stringify vs) @ CHR '']'' # r"
    have "p_value (stringify v @ CHR '','' # ?rest) = Some (v, CHR '','' # ?rest)"
      using Cons.prems(2) [of v] by simp
    with False Cons show ?thesis
      by (subst p_elems.simps) (simp add: join_Cons skip_ws_def is_json_ws_def)
  qed
qed simp

abbreviation member_text :: "string \<times> jsv \<Rightarrow> string" where
  "member_text kv \<equiv> quote (fst kv) @ '':'' @ stringify (snd kv)"

lemma map_set_fresh: "k \<notin> set (map fst m) \<Longrightarrow> map_set k v m = m @ [(k, v)]"
  by (induction k v m rule: map_set.induct) auto

lemma p_members_one:
  assumes "reads_back v" and "c \<in> set '',]}''"
  shows "p_members (member_text (k, v) @ c # r) acc =
     (if c = CHR '','' then p_members r (map_set k v acc)
      else if c = CHR ''}'' then Some (JObj (map_set k v acc), r) else None)"
proof -
  have "p_chars (concat (map escape_char k) @ CHR 0x22 # CHR '':'' # stringify v @ c # r)
      = Some (k, CHR '':'' # stringify v @ c # r)"
    by (rule p_chars_quote)
  moreover have "p_value (stringify v @ c # r) = Some (v, c # r)"
    using assms by simp
  moreover have "skip_ws (c # r) = c # r"
    using assms(2) by (auto simp: skip_ws_def is_json_ws_def)
  ultimately show ?thesis
    by (subst p_members.simps) (simp add: quote_def skip_ws_def is_json_ws_def)
qed

lemma p_members_join:
  assumes "kvs \<noteq> []" and "\<And>kv. kv \<in> set kvs \<Longrightarrow> reads_back (snd kv)"
    and "distinct (map fst (acc @ kvs))"
  shows "p_members (join '','' (map member_text kvs) @ CHR ''}'' # r) acc
    = Some (JObj (acc @ kvs), r)"
  using assms
proof (induction kvs arbitrary: acc)
  case (Cons kv kvs)
  obtain k v where kv: "kv = (k, v)"
    by (cases kv)
  have fresh: "map_set k v acc = acc @ [(k, v)]"
    using Cons.prems(3) kv by (intro map_set_fresh) auto
  have rb: "reads_back v"
    using Cons.prems(2) kv by fastforce
  show ?case
  proof (cases "kvs = []")
    case True
    then show ?thesis
      using p_members_one [OF rb, of "CHR ''}''" k r acc] fresh kv by simp
  next
    case False
    then show ?thesis
      using p_members_one [OF rb, of "CHR '',''" k _ acc] fresh kv Cons by (simp add: join_Cons)
  qed
qed simp

lemma stringify_reads_back: "json_wf v \<Longrightarrow> reads_back v"
proof (induction v rule: stringify.induct)
  case 1
  then show ?case by (auto simp: p_value.simps skip_ws_def is_json_ws_def startsWith_def)
next
  case (2 b)
  then show ?case by (auto simp: p_value.simps skip_ws_def is_json_ws_def startsWith_def)
next
  case (3 n)
  then show ?case using p_value_num [of _ "\<lfloor>n\<rfloor>"] by (auto simp: show_num_def)
next
  case (4 s)
  then show ?case
    using p_chars_quote by (auto simp: p_value.simps quote_def skip_ws_def is_json_ws_def)
next
  case (5 vs)
  show ?case
  proof (cases "vs = []")
    case True
    then show ?thesis
      by (auto simp: p_value.simps skip_ws_def is_json_ws_def startsWith_def)
  next
    case False
    then obtain v vs' where vs: "vs = v # vs'" by (cases vs) auto
    have rb: "\<And>v. v \<in> set vs \<Longrightarrow> reads_back v"
      using 5 by (auto simp: list_all_iff)
    obtain c t where c: "stringify v = c # t" "\<not> is_json_ws c" "c \<noteq> CHR '']''"
      using stringify_hd [of v] 5(2) vs by auto
    obtain t' where t': "join '','' (map stringify vs) = c # t'"
      using c(1) vs by (cases vs') auto
    show ?thesis
    proof (intro allI impI)
      fix r
      show "p_value (stringify (JArr vs) @ r) = Some (JArr vs, r)"
        using p_elems_join [OF False rb, of r "[]"] c t'
        by (simp add: p_value.simps skip_ws_def is_json_ws_def startsWith_def)
    qed
  qed
next
  case (6 kvs)
  show ?case
  proof (cases "kvs = []")
    case True
    then show ?thesis
      by (auto simp: p_value.simps skip_ws_def is_json_ws_def startsWith_def)
  next
    case False
    have rb: "\<And>kv. kv \<in> set kvs \<Longrightarrow> reads_back (snd kv)"
      using 6 by (auto simp: list_all_iff)
    obtain t' where t': "join '','' (map member_text kvs) = CHR 0x22 # t'"
      using False by (cases kvs; cases "tl kvs") (auto simp: quote_def)
    show ?thesis
    proof (intro allI impI)
      fix r
      show "p_value (stringify (JObj kvs) @ r) = Some (JObj kvs, r)"
        using p_members_join [OF False rb, of "[]" r] 6(2) t'
        by (simp add: p_value.simps skip_ws_def is_json_ws_def startsWith_def)
    qed
  qed
qed

lemma parse_stringify: "json_wf v \<Longrightarrow> JSON_parse (stringify v) = Some v"
  using stringify_reads_back [of v]
  by (force simp: JSON_parse_def delim_def skip_ws_def)

text \<open>The contract the stored settings rely on, as an interface: a text codec for well-formed
  values.\<close>

locale json_codec =
  fixes enc :: "'v \<Rightarrow> string" and dec :: "string \<Rightarrow> 'v option" and wf :: "'v \<Rightarrow> bool"
  assumes dec_enc: "wf v \<Longrightarrow> dec (enc v) = Some v"
begin

lemma enc_inj: "wf v \<Longrightarrow> wf w \<Longrightarrow> enc v = enc w \<Longrightarrow> v = w"
  by (metis dec_enc option.inject)

end

interpretation json: json_codec stringify JSON_parse json_wf
  by unfold_locales (rule parse_stringify)

end
