(* ===== verification/StatusRisk.thy ===== *)
theory StatusRisk
  imports StatusCodes Json "HOL-Library.Char_ord" "HOL-Library.List_Lexorder"
begin

text \<open>
  Checks on the status code mapping of a channel
  (\<open>src/web/default/src/features/channels/lib/status-code-risk-guard.ts\<close>): entries that are not
  status codes, and redirects away from the gateway timeout codes 504 and 524. The default
  \<open>Array.prototype.sort\<close> on strings is the lexicographic \<open>sort\<close> on characters.
\<close>

section \<open>Model\<close>

definition NON_REDIRECTABLE_STATUS_CODES :: "nat list" where
  "NON_REDIRECTABLE_STATUS_CODES = [504, 524]"

text \<open>The test \<open>/^[1-5]\d{2}$/\<close>.\<close>

definition is_code_text :: "string \<Rightarrow> bool" where
  "is_code_text s \<longleftrightarrow> length s = 3 \<and> hd s \<in> set ''12345'' \<and> list_all is_digit (tl s)"

definition parseStatusCodeKey :: "string \<Rightarrow> nat option" where
  "parseStatusCodeKey rawKey =
     (let normalized = trim rawKey in
      if \<not> is_code_text normalized then None else Some (read_nat normalized))"

fun parseStatusCodeMappingTarget :: "jsv \<Rightarrow> nat option" where
  "parseStatusCodeMappingTarget (JNum n) =
     (if n = of_int \<lfloor>n\<rfloor> then (if 100 \<le> n \<and> n \<le> 599 then Some (nat \<lfloor>n\<rfloor>) else None) else None)"
| "parseStatusCodeMappingTarget (JStr s) =
     (let normalized = trim s in
      if \<not> is_code_text normalized then None
      else (let code = read_nat normalized in
            if 100 \<le> code \<and> code \<le> 599 then Some code else None))"
| "parseStatusCodeMappingTarget v = None"

text \<open>The common prologue: the entries of the mapping text, if it is a JSON object.\<close>

definition mapping_entries :: "string \<Rightarrow> (string \<times> jsv) list" where
  "mapping_entries s =
     (if trim s = [] then []
      else (case JSON_parse s of
              None \<Rightarrow> []
            | Some v \<Rightarrow> (case plain_object v of None \<Rightarrow> [] | Some kvs \<Rightarrow> entries kvs)))"

text \<open>The arrow U+2192 in UTF-8.\<close>

definition arrow :: string where
  "arrow = [CHR 0xE2, CHR 0x86, CHR 0x92]"

definition collectInvalidStatusCodeEntries :: "string \<Rightarrow> string list" where
  "collectInvalidStatusCodeEntries s =
     List.map_filter (\<lambda>(rawKey, rawValue).
       if parseStatusCodeKey rawKey = None \<or> parseStatusCodeMappingTarget rawValue = None
       then Some (rawKey @ '' '' @ arrow @ '' '' @ js_to_string rawValue) else None)
     (mapping_entries s)"

definition redirect_text :: "nat \<Rightarrow> nat \<Rightarrow> string" where
  "redirect_text a b = show_nat a @ '' -> '' @ show_nat b"

definition risky_mapping :: "string \<times> jsv \<Rightarrow> string option" where
  "risky_mapping e =
     (case (parseStatusCodeKey (fst e), parseStatusCodeMappingTarget (snd e)) of
        (Some fromCode, Some toCode) \<Rightarrow>
          if fromCode \<notin> set NON_REDIRECTABLE_STATUS_CODES then None
          else if fromCode = toCode then None
          else Some (redirect_text fromCode toCode)
      | _ \<Rightarrow> None)"

definition collectDisallowedStatusCodeRedirects :: "string \<Rightarrow> string list" where
  "collectDisallowedStatusCodeRedirects s =
     sort (js_set (List.map_filter risky_mapping (mapping_entries s)))"

definition collectNewDisallowedStatusCodeRedirects :: "string \<Rightarrow> string \<Rightarrow> string list" where
  "collectNewDisallowedStatusCodeRedirects originalStr currentStr =
     (let currentRisky = collectDisallowedStatusCodeRedirects currentStr in
      if currentRisky = [] then []
      else (let originalRiskySet = js_set (collectDisallowedStatusCodeRedirects originalStr) in
            filter (\<lambda>m. m \<notin> set originalRiskySet) currentRisky))"

section \<open>Lemmas\<close>

lemma risky_mapping_Some:
  "risky_mapping (k, v) = Some m \<longleftrightarrow>
     (\<exists>a b. parseStatusCodeKey k = Some a \<and> parseStatusCodeMappingTarget v = Some b
        \<and> (a = 504 \<or> a = 524) \<and> a \<noteq> b \<and> m = redirect_text a b)"
  by (auto simp: risky_mapping_def NON_REDIRECTABLE_STATUS_CODES_def split: option.splits)

lemma is_code_text_bounds: "is_code_text s \<Longrightarrow> 100 \<le> read_nat s \<and> read_nat s \<le> 599"
proof -
  assume "is_code_text s"
  then obtain a b c where s: "s = [a, b, c]" and d: "a \<in> set ''12345''" "is_digit b" "is_digit c"
    unfolding is_code_text_def
    by (cases s; cases "tl s"; cases "tl (tl s)") auto
  have "digit_val b \<le> 9" "digit_val c \<le> 9"
    using d by (auto simp: is_digit_def digit_val_def)
  moreover have "1 \<le> digit_val a \<and> digit_val a \<le> 5"
    using d(1) by (auto simp: digit_val_def)
  ultimately show ?thesis
    by (simp add: s read_nat_def)
qed

lemma mapping_codes_in_range:
  "parseStatusCodeKey k = Some a \<Longrightarrow> 100 \<le> a \<and> a \<le> 599"
  "parseStatusCodeMappingTarget v = Some b \<Longrightarrow> 100 \<le> b \<and> b \<le> 599"
proof -
  show "parseStatusCodeKey k = Some a \<Longrightarrow> 100 \<le> a \<and> a \<le> 599"
    using is_code_text_bounds [of "trim k"]
    by (auto simp: parseStatusCodeKey_def Let_def split: if_splits)
  show "parseStatusCodeMappingTarget v = Some b \<Longrightarrow> 100 \<le> b \<and> b \<le> 599"
  proof (cases v rule: parseStatusCodeMappingTarget.cases)
    case (1 n)
    assume "parseStatusCodeMappingTarget v = Some b"
    with 1 have b: "b = nat \<lfloor>n\<rfloor>" "100 \<le> n" "n \<le> 599"
      by (auto split: if_splits)
    then have "100 \<le> \<lfloor>n\<rfloor>" "\<lfloor>n\<rfloor> \<le> 599" "int b = \<lfloor>n\<rfloor>"
      by (simp_all add: le_floor_iff floor_le_iff)
    then show ?thesis by linarith
  next
    case (2 s)
    assume "parseStatusCodeMappingTarget v = Some b"
    with 2 show ?thesis by (auto simp: Let_def split: if_splits)
  qed auto
qed

section \<open>Properties\<close>

text \<open>The reported redirects are exactly those of the mapping that send 504 or 524 to a
  different valid status code; the report is sorted and without duplicates.\<close>

theorem disallowed_redirects_exact:
  "(m \<in> set (collectDisallowedStatusCodeRedirects s) \<longleftrightarrow>
     (\<exists>k v a b. (k, v) \<in> set (mapping_entries s) \<and> parseStatusCodeKey k = Some a
        \<and> parseStatusCodeMappingTarget v = Some b \<and> (a = 504 \<or> a = 524) \<and> a \<noteq> b
        \<and> m = redirect_text a b))
   \<and> sorted (collectDisallowedStatusCodeRedirects s)
   \<and> distinct (collectDisallowedStatusCodeRedirects s)"
proof -
  have "m \<in> set (collectDisallowedStatusCodeRedirects s) \<longleftrightarrow>
      (\<exists>k v. (k, v) \<in> set (mapping_entries s) \<and> risky_mapping (k, v) = Some m)"
    by (auto simp: collectDisallowedStatusCodeRedirects_def set_map_filter)
  then show ?thesis
    unfolding risky_mapping_Some by (auto simp: collectDisallowedStatusCodeRedirects_def)
qed

text \<open>Confirming a change asks only about redirects that the original mapping did not have; an
  unchanged mapping never asks.\<close>

theorem new_disallowed_redirects:
  "set (collectNewDisallowedStatusCodeRedirects original current) =
     set (collectDisallowedStatusCodeRedirects current)
     - set (collectDisallowedStatusCodeRedirects original)
   \<and> collectNewDisallowedStatusCodeRedirects original original = []"
  by (auto simp: collectNewDisallowedStatusCodeRedirects_def Let_def filter_empty_conv)

text \<open>A mapping with no invalid entry maps status codes to status codes, within 100..599, and an
  invalid entry is one whose key or target is not such a code.\<close>

theorem no_invalid_entries:
  assumes "collectInvalidStatusCodeEntries s = []" and "(k, v) \<in> set (mapping_entries s)"
  shows "\<exists>a b. parseStatusCodeKey k = Some a \<and> parseStatusCodeMappingTarget v = Some b
    \<and> 100 \<le> a \<and> a \<le> 599 \<and> 100 \<le> b \<and> b \<le> 599"
proof -
  have "parseStatusCodeKey k \<noteq> None \<and> parseStatusCodeMappingTarget v \<noteq> None"
    using assms(1) assms(2)
    unfolding collectInvalidStatusCodeEntries_def map_filter_Nil_iff
    by (auto split: if_splits)
  then obtain a b where "parseStatusCodeKey k = Some a" "parseStatusCodeMappingTarget v = Some b"
    by auto
  with mapping_codes_in_range show ?thesis by blast
qed

theorem no_invalid_entries_witness:
  "let s = stringify (JObj [(''404'', JNum 500)]) in
   collectInvalidStatusCodeEntries s = [] \<and> (''404'', JNum 500) \<in> set (mapping_entries s) \<and>
   (\<exists>a b. parseStatusCodeKey ''404'' = Some a \<and> parseStatusCodeMappingTarget (JNum 500) = Some b)"
proof -
  let ?s = "stringify (JObj [(''404'', JNum 500)])"
  have e: "mapping_entries ?s = [(''404'', JNum 500)]"
    using parse_stringify [of "JObj [(''404'', JNum 500)]"]
    by (simp add: mapping_entries_def trim_def trimEnd_def is_ws_def entries_def sort_by_def)
  have k: "parseStatusCodeKey ''404'' = Some 404"
    by code_simp
  have 1: "collectInvalidStatusCodeEntries ?s = []"
    unfolding collectInvalidStatusCodeEntries_def e by (simp add: k List.map_filter_simps)
  have 2: "(''404'', JNum 500) \<in> set (mapping_entries ?s)"
    unfolding e by simp
  show ?thesis
    using 1 2 no_invalid_entries [OF 1 2] by (auto simp: Let_def)
qed

end
