(* ===== verification/ModelMapping.thy ===== *)
theory ModelMapping
  imports Json
begin

text \<open>
  The model list and the model mapping of a channel
  (\<open>src/web/default/src/features/channels/lib/model-mapping-validation.ts\<close>). A mapping is the text of
  a JSON object from exposed model names to upstream names. \<open>Set\<close> results are lists in insertion
  order.
\<close>

section \<open>Model\<close>

definition parseModelsString :: "string \<Rightarrow> string list" where
  "parseModelsString modelsStr =
     (if modelsStr = [] then []
      else filter (\<lambda>m. m \<noteq> []) (map trim (split_on CHR '','' modelsStr)))"

definition formatModelsArray :: "string list \<Rightarrow> string" where
  "formatModelsArray models = join '','' (js_set models)"

definition normalizeModelName :: "string \<Rightarrow> string" where
  "normalizeModelName model = trim model"

definition extractMappingSourceModels :: "string \<Rightarrow> string list" where
  "extractMappingSourceModels modelMapping =
     (let trimmed = trim modelMapping in
      if trimmed = [] then []
      else (case JSON_parse trimmed of
              None \<Rightarrow> []
            | Some parsed \<Rightarrow>
                (case plain_object parsed of
                   None \<Rightarrow> []
                 | Some kvs \<Rightarrow>
                     js_set (filter (\<lambda>k. k \<noteq> []) (map (\<lambda>e. trim (fst e)) (entries kvs))))))"

text \<open>The values that are non-empty strings after trimming.\<close>

definition string_value :: "string \<times> jsv \<Rightarrow> string option" where
  "string_value e =
     (case snd e of JStr s \<Rightarrow> (if trim s = [] then None else Some (trim s)) | _ \<Rightarrow> None)"

definition extractRedirectModels :: "string \<Rightarrow> string list" where
  "extractRedirectModels modelMapping =
     (let trimmed = trim modelMapping in
      if trimmed = [] then []
      else (case JSON_parse trimmed of
              None \<Rightarrow> []
            | Some parsed \<Rightarrow>
                (case plain_object parsed of
                   None \<Rightarrow> []
                 | Some kvs \<Rightarrow> js_set (List.map_filter string_value (entries kvs)))))"

text \<open>The loop over the two lists, which are of equal length where it is reached.\<close>

fun differs :: "string list \<Rightarrow> string list \<Rightarrow> bool" where
  "differs (x # xs) (y # ys) = (if x \<noteq> y then True else differs xs ys)"
| "differs _ _ = False"

definition hasModelConfigChanged ::
    "string list \<Rightarrow> string \<Rightarrow> string list \<Rightarrow> string \<Rightarrow> bool" where
  "hasModelConfigChanged currentModels currentModelMapping initialModels initialModelMapping =
     (if initialModels = [] \<and> initialModelMapping = [] then True
      else if length currentModels \<noteq> length initialModels then True
      else if differs currentModels initialModels then True
      else trim currentModelMapping \<noteq> trim initialModelMapping)"

definition findMissingModelsInMapping :: "string \<Rightarrow> string list \<Rightarrow> string list" where
  "findMissingModelsInMapping modelMapping currentModels =
     (if modelMapping = [] \<or> trim modelMapping = [] then []
      else (case JSON_parse modelMapping of
              None \<Rightarrow> []
            | Some parsed \<Rightarrow>
                (case plain_object parsed of
                   None \<Rightarrow> []
                 | Some kvs \<Rightarrow>
                     (let modelSet = js_set (map normalizeModelName currentModels) in
                      js_set (filter (\<lambda>k. k \<noteq> [] \<and> k \<notin> set modelSet)
                        (map (\<lambda>e. normalizeModelName (fst e)) (entries kvs)))))))"

record mapping_check =
  mc_valid :: bool
  mc_error :: "string option"

definition validateModelMappingJson :: "string \<Rightarrow> mapping_check" where
  "validateModelMappingJson modelMapping =
     (if modelMapping = [] \<or> trim modelMapping = [] then \<lparr>mc_valid = True, mc_error = None\<rparr>
      else (case JSON_parse modelMapping of
              None \<Rightarrow>
                \<lparr>mc_valid = False, mc_error = Some ''Model mapping must be valid JSON format''\<rparr>
            | Some parsed \<Rightarrow>
                (case plain_object parsed of
                   None \<Rightarrow>
                     \<lparr>mc_valid = False,
                      mc_error = Some ''Model mapping must be a valid JSON object''\<rparr>
                 | Some kvs \<Rightarrow>
                     if list_ex (\<lambda>e. case snd e of JStr _ \<Rightarrow> False | _ \<Rightarrow> True) (entries kvs) then
                       \<lparr>mc_valid = False, mc_error = Some ''Model mapping values must be strings''\<rparr>
                     else \<lparr>mc_valid = True, mc_error = None\<rparr>)))"

definition findExposedTargetModels :: "string \<Rightarrow> string list \<Rightarrow> string list" where
  "findExposedTargetModels modelMapping currentModels =
     (let redirectModels = extractRedirectModels modelMapping in
      if redirectModels = [] then []
      else (let modelSet = js_set (map normalizeModelName currentModels) in
            filter (\<lambda>m. normalizeModelName m \<in> set modelSet) redirectModels))"

record model_categories =
  normalizedCurrentModels :: "string list"
  normalizedRedirectModels :: "string list"
  classificationSet :: "string list"
  redirectOnlySet :: "string list"

definition categorizeModelsWithRedirect :: "string list \<Rightarrow> string list \<Rightarrow> model_categories" where
  "categorizeModelsWithRedirect currentModels redirectModels =
     (let current = js_set (filter (\<lambda>m. m \<noteq> []) (map normalizeModelName currentModels));
          redirect = js_set (filter (\<lambda>m. m \<noteq> []) (map normalizeModelName redirectModels)) in
      \<lparr>normalizedCurrentModels = current,
       normalizedRedirectModels = redirect,
       classificationSet = js_set (current @ redirect),
       redirectOnlySet = js_set (filter (\<lambda>m. m \<notin> set current) redirect)\<rparr>)"

section \<open>Lemmas\<close>

lemmas mapping_defs = findMissingModelsInMapping_def extractRedirectModels_def
  findExposedTargetModels_def validateModelMappingJson_def normalizeModelName_def

lemma differs_iff: "length xs = length ys \<Longrightarrow> differs xs ys \<longleftrightarrow> xs \<noteq> ys"
  by (induction xs ys rule: differs.induct) auto

lemma string_value_trim: "string_value e = Some m \<Longrightarrow> trim m = m \<and> m \<noteq> []"
  by (auto simp: string_value_def split: jsv.splits if_splits)

lemma redirect_models_trimmed:
  "m \<in> set (extractRedirectModels mapping) \<Longrightarrow> trim m = m \<and> m \<noteq> []"
  using string_value_trim
  by (auto simp: extractRedirectModels_def Let_def set_map_filter split: option.splits if_splits)

lemma exposed_Nil:
  "(\<And>m. m \<in> set (extractRedirectModels mapping) \<Longrightarrow>
      normalizeModelName m \<notin> set (map normalizeModelName models)) \<Longrightarrow>
   findExposedTargetModels mapping models = []"
  by (auto simp: findExposedTargetModels_def Let_def filter_empty_conv)

text \<open>The keys a mapping text remaps, as a set.\<close>

definition mapping_keys :: "string \<Rightarrow> string set" where
  "mapping_keys mapping =
     {trim k | k v kvs. trim mapping \<noteq> [] \<and> JSON_parse mapping = Some (JObj kvs)
        \<and> (k, v) \<in> set kvs \<and> trim k \<noteq> []}"

lemma missing_models_set:
  "set (findMissingModelsInMapping mapping models) = mapping_keys mapping - trim ` set models"
proof (cases "trim mapping = [] \<or> (\<forall>kvs. JSON_parse mapping \<noteq> Some (JObj kvs))")
  case True
  then have "findMissingModelsInMapping mapping models = []"
    by (cases "JSON_parse mapping"; cases "the (JSON_parse mapping)")
       (auto simp: findMissingModelsInMapping_def)
  with True show ?thesis
    by (auto simp: mapping_keys_def)
next
  case False
  then obtain kvs where "trim mapping \<noteq> []" "JSON_parse mapping = Some (JObj kvs)"
    by blast
  then show ?thesis
    by (force simp: findMissingModelsInMapping_def mapping_keys_def normalizeModelName_def Let_def)
qed

section \<open>Properties\<close>

text \<open>A list of clean model names (trimmed, non-empty, without commas) survives formatting and
  parsing, up to the removal of duplicates.\<close>

theorem models_roundtrip:
  assumes "\<forall>m \<in> set models. m \<noteq> [] \<and> trim m = m \<and> CHR '','' \<notin> set m"
  shows "parseModelsString (formatModelsArray models) = js_set models"
proof (cases "models = []")
  case True
  then show ?thesis
    by (simp add: parseModelsString_def formatModelsArray_def js_set_def)
next
  case False
  let ?ms = "js_set models"
  have ne: "?ms \<noteq> []"
    using False by simp
  have "join '','' ?ms \<noteq> []"
    using ne assms by (intro join_eq_Nil) auto
  moreover have "split_on CHR '','' (join '','' ?ms) = ?ms"
    using ne assms by (intro split_on_join) auto
  moreover have "map trim ?ms = ?ms"
    using assms by (intro map_idI) auto
  moreover have "filter (\<lambda>m. m \<noteq> []) ?ms = ?ms"
    using assms by (intro filter_True) auto
  ultimately show ?thesis
    by (simp add: parseModelsString_def formatModelsArray_def)
qed

theorem models_roundtrip_witness:
  "parseModelsString (formatModelsArray [''gpt-4o'', ''o3'', ''gpt-4o'']) = [''gpt-4o'', ''o3'']"
proof -
  have "\<forall>m \<in> set [''gpt-4o'', ''o3'', ''gpt-4o'']. m \<noteq> [] \<and> trim m = m \<and> CHR '','' \<notin> set m"
    by code_simp
  moreover have "js_set [''gpt-4o'', ''o3'', ''gpt-4o''] = [''gpt-4o'', ''o3'']"
    by code_simp
  ultimately show ?thesis
    using models_roundtrip [of "[''gpt-4o'', ''o3'', ''gpt-4o'']"] by simp
qed

text \<open>The missing models are exactly the remapped names that the model list lacks, so adding
  them to the list leaves nothing missing.\<close>

theorem missing_models_complete:
  "set (findMissingModelsInMapping mapping models) = mapping_keys mapping - trim ` set models
   \<and> findMissingModelsInMapping mapping (models @ findMissingModelsInMapping mapping models) = []"
proof -
  let ?miss = "findMissingModelsInMapping mapping models"
  have tr: "\<And>m. m \<in> set ?miss \<Longrightarrow> trim m = m"
    unfolding missing_models_set by (auto simp: mapping_keys_def)
  have "trim ` set ?miss = set ?miss"
    using tr by (force simp: image_iff)
  then have "set (findMissingModelsInMapping mapping (models @ ?miss)) = {}"
    unfolding missing_models_set by (auto simp: missing_models_set)
  then have "findMissingModelsInMapping mapping (models @ ?miss) = []"
    by (simp only: set_empty)
  then show ?thesis
    using missing_models_set [of mapping models] by simp
qed

text \<open>Dropping the exposed targets from the model list leaves no redirect target exposed.\<close>

theorem exposed_targets_removed:
  "findExposedTargetModels mapping
     (filter (\<lambda>m. normalizeModelName m \<notin> set (findExposedTargetModels mapping models)) models) = []"
proof -
  let ?ex = "findExposedTargetModels mapping models"
  let ?rest = "filter (\<lambda>m. normalizeModelName m \<notin> set ?ex) models"
  have "normalizeModelName m \<notin> set (map normalizeModelName ?rest)"
    if m: "m \<in> set (extractRedirectModels mapping)" for m
  proof
    assume "normalizeModelName m \<in> set (map normalizeModelName ?rest)"
    then obtain n where n: "n \<in> set models" "normalizeModelName n \<notin> set ?ex"
      "normalizeModelName n = m"
      using redirect_models_trimmed [OF m] by (auto simp: normalizeModelName_def)
    then have "normalizeModelName m \<in> set (map normalizeModelName models)"
      using redirect_models_trimmed [OF m] by (auto simp: normalizeModelName_def)
    then have "m \<in> set ?ex"
      using m by (auto simp: findExposedTargetModels_def Let_def)
    with n show False by simp
  qed
  then show ?thesis
    by (intro exposed_Nil) simp
qed

text \<open>The display categories: the classification is the union of the two normalised sets, and
  the redirect-only models are the redirect targets outside the current models.\<close>

theorem categories_partition:
  "let c = categorizeModelsWithRedirect current redirect in
   set (classificationSet c) = set (normalizedCurrentModels c) \<union> set (redirectOnlySet c)
   \<and> set (normalizedCurrentModels c) \<inter> set (redirectOnlySet c) = {}
   \<and> set (redirectOnlySet c) \<subseteq> set (normalizedRedirectModels c)
   \<and> set (normalizedCurrentModels c) = trim ` set current - {[]}
   \<and> set (normalizedRedirectModels c) = trim ` set redirect - {[]}
   \<and> distinct (classificationSet c)"
  by (auto simp: categorizeModelsWithRedirect_def normalizeModelName_def Let_def)

text \<open>An edited channel is reported unchanged exactly when its model list is the same and its
  mapping is the same up to surrounding white space; a new channel always counts as changed.\<close>

theorem config_changed_iff:
  "\<not> hasModelConfigChanged cur curMap ini iniMap \<longleftrightarrow>
     \<not> (ini = [] \<and> iniMap = []) \<and> cur = ini \<and> trim curMap = trim iniMap"
  by (auto simp: hasModelConfigChanged_def differs_iff)

text \<open>A mapping text is accepted exactly when it is blank or the text of a JSON object all of
  whose values are strings; a rejection always carries an error message.\<close>

theorem validate_mapping_iff:
  "(mc_valid (validateModelMappingJson mapping) \<longleftrightarrow>
      trim mapping = [] \<or>
      (\<exists>kvs. JSON_parse mapping = Some (JObj kvs) \<and> (\<forall>e \<in> set kvs. \<exists>t. snd e = JStr t)))
   \<and> (mc_valid (validateModelMappingJson mapping) \<longleftrightarrow>
      mc_error (validateModelMappingJson mapping) = None)"
proof (cases "trim mapping = []")
  case True
  then show ?thesis by (simp add: validateModelMappingJson_def)
next
  case False
  have ex: "list_ex (\<lambda>e. case snd e of JStr _ \<Rightarrow> False | _ \<Rightarrow> True) (entries kvs) \<longleftrightarrow>
      \<not> (\<forall>e \<in> set kvs. \<exists>t. snd e = JStr t)" for kvs
    by (auto simp: list_ex_iff split: jsv.splits)
  show ?thesis
  proof (cases "JSON_parse mapping")
    case None
    with False show ?thesis by (auto simp: validateModelMappingJson_def)
  next
    case (Some v)
    with False show ?thesis
      by (cases v) (auto simp: validateModelMappingJson_def ex)
  qed
qed

theorem validate_mapping_iff_witness:
  "mc_valid (validateModelMappingJson (stringify (JObj [(''a'', JStr ''b'')])))"
proof -
  have "JSON_parse (stringify (JObj [(''a'', JStr ''b'')])) = Some (JObj [(''a'', JStr ''b'')])"
    by (rule parse_stringify) simp
  moreover have "\<forall>e \<in> set [(''a'', JStr ''b'')]. \<exists>t. snd e = JStr t"
    by simp
  ultimately show ?thesis
    using validate_mapping_iff [of "stringify (JObj [(''a'', JStr ''b'')])"] by blast
qed

end
