(* ===== verification/Messages.thy ===== *)
theory Messages
  imports Json
begin

text \<open>
  The chat messages of the playground: the types of \<open>features/playground/types.ts\<close>, the constants of
  \<open>constants.ts\<close> and the pure helpers under \<open>features/playground/lib/message/\<close> (creation and access,
  timing, separation of \<open><think>\<close> reasoning from visible text, display state).

  Numbers of a message (times and durations in milliseconds) are rationals. \<open>Date.now()\<close> and
  \<open>nanoid()\<close> are arguments: a function takes one time per call of \<open>Date.now()\<close> in its body, and the
  identifiers that \<open>nanoid()\<close> returns. An absent property is \<open>None\<close>; \<open>errorCode\<close> holds the
  value the response had (\<open>JNull\<close> for \<open>null\<close>), which the code never checks to be a string.
\<close>

section \<open>Types and constants\<close>

datatype MessageRole = User | Assistant | System

datatype MessageStatus = Loading | Streaming | Complete | Error

datatype PlaygroundMessageLayoutMode = Alternating | LeftLayout

record MessageVersion =
  v_id :: string
  v_content :: string

record Reasoning =
  rs_content :: string
  rs_duration :: rat
  rs_startedAt :: "rat option"
  rs_completedAt :: "rat option"
  rs_durationMs :: "rat option"

record Message =
  m_key :: string
  m_from :: MessageRole
  m_versions :: "MessageVersion list"
  m_createdAt :: "rat option"
  m_startedAt :: "rat option"
  m_completedAt :: "rat option"
  m_durationMs :: "rat option"
  m_sources :: "(string \<times> string) list option"
  m_reasoning :: "Reasoning option"
  m_isReasoningStreaming :: "bool option"
  m_isReasoningComplete :: "bool option"
  m_isContentComplete :: "bool option"
  m_status :: "MessageStatus option"
  m_errorCode :: "jsv option"

datatype ContentPartType = TextType | ImageUrlType

record ContentPart =
  cp_type :: ContentPartType
  cp_text :: "string option"
  cp_image_url :: "string option"

datatype MessageContent = Text string | Parts "ContentPart list"

record ChatCompletionMessage =
  cm_role :: MessageRole
  cm_content :: MessageContent

definition API_REQUEST_ERROR :: string where
  "API_REQUEST_ERROR = ''Request error occurred''"
definition NETWORK_ERROR :: string where
  "NETWORK_ERROR = ''Network connection failed or server not responding''"
definition PARSE_ERROR :: string where
  "PARSE_ERROR = ''Error parsing response data''"
definition STREAM_START_ERROR :: string where
  "STREAM_START_ERROR = ''Error establishing connection''"
definition CONNECTION_CLOSED :: string where
  "CONNECTION_CLOSED = ''Connection closed''"
definition INTERRUPTED :: string where
  "INTERRUPTED = ''Generation was interrupted''"

definition ERROR_MESSAGES :: "string list" where
  "ERROR_MESSAGES =
     [API_REQUEST_ERROR, NETWORK_ERROR, PARSE_ERROR, STREAM_START_ERROR, CONNECTION_CLOSED, INTERRUPTED]"

section \<open>Creation and access (message-utils.ts)\<close>

definition createMessageVersion :: "string \<Rightarrow> string \<Rightarrow> MessageVersion" where
  "createMessageVersion nid content = \<lparr>v_id = nid, v_content = content\<rparr>"

definition getCurrentVersion :: "Message \<Rightarrow> MessageVersion" where
  "getCurrentVersion message =
     (case m_versions message of
        [] \<Rightarrow> \<lparr>v_id = ''default'', v_content = []\<rparr>
      | v # _ \<Rightarrow> v)"

definition getMessageContent :: "Message \<Rightarrow> string" where
  "getMessageContent message = v_content (getCurrentVersion message)"

definition hasMessageContent :: "Message \<Rightarrow> bool" where
  "hasMessageContent message \<longleftrightarrow> trim (getMessageContent message) \<noteq> []"

definition updateCurrentVersionContent :: "Message \<Rightarrow> string \<Rightarrow> Message" where
  "updateCurrentVersionContent message content =
     message\<lparr>m_versions := [(getCurrentVersion message)\<lparr>v_content := content\<rparr>]\<rparr>"

text \<open>\<open>createUserMessage\<close> calls \<open>nanoid()\<close> for the key and for the version.\<close>

definition createUserMessage :: "string \<Rightarrow> string \<Rightarrow> string \<Rightarrow> rat \<Rightarrow> Message" where
  "createUserMessage key vid content createdAt =
     \<lparr>m_key = key, m_from = User, m_versions = [createMessageVersion vid content],
      m_createdAt = Some createdAt, m_startedAt = None, m_completedAt = None, m_durationMs = None,
      m_sources = None, m_reasoning = None, m_isReasoningStreaming = None,
      m_isReasoningComplete = None, m_isContentComplete = None, m_status = None,
      m_errorCode = None\<rparr>"

definition createLoadingAssistantMessage :: "string \<Rightarrow> string \<Rightarrow> rat \<Rightarrow> Message" where
  "createLoadingAssistantMessage key vid startedAt =
     \<lparr>m_key = key, m_from = Assistant, m_versions = [createMessageVersion vid []],
      m_createdAt = Some startedAt, m_startedAt = Some startedAt, m_completedAt = None,
      m_durationMs = None, m_sources = None, m_reasoning = None,
      m_isReasoningStreaming = Some False, m_isReasoningComplete = Some False,
      m_isContentComplete = Some False, m_status = Some Loading, m_errorCode = None\<rparr>"

definition buildMessageContent :: "string \<Rightarrow> string list \<Rightarrow> MessageContent" where
  "buildMessageContent txt imageUrls =
     (let validImages = filter (\<lambda>url. trim url \<noteq> []) imageUrls in
      if validImages = [] then Text txt
      else Parts (\<lparr>cp_type = TextType, cp_text = Some (str_or txt []), cp_image_url = None\<rparr>
        # map (\<lambda>url. \<lparr>cp_type = ImageUrlType, cp_text = None, cp_image_url = Some (trim url)\<rparr>)
            validImages))"

definition getTextContent :: "MessageContent \<Rightarrow> string" where
  "getTextContent content =
     (case content of
        Text s \<Rightarrow> s
      | Parts ps \<Rightarrow>
          (case find (\<lambda>p. cp_type p = TextType) ps of
             None \<Rightarrow> []
           | Some p \<Rightarrow> opt_str_or (cp_text p) []))"

definition formatMessageForAPI :: "Message \<Rightarrow> ChatCompletionMessage" where
  "formatMessageForAPI message =
     \<lparr>cm_role = m_from message, cm_content = Text (v_content (getCurrentVersion message))\<rparr>"

definition isValidMessage :: "Message \<Rightarrow> bool" where
  "isValidMessage message =
     (if m_versions message = [] then False
      else if m_from message = Assistant \<and> \<not> hasMessageContent message then False
      else True)"

section \<open>Timing (message-timing-utils.ts)\<close>

definition completeAssistantTiming :: "Message \<Rightarrow> rat \<Rightarrow> Message" where
  "completeAssistantTiming message completedAt =
     (if m_from message \<noteq> Assistant then message
      else
        (let startedAt = nullish (m_startedAt message) (nullish (m_createdAt message) completedAt) in
         message\<lparr>m_startedAt := Some startedAt, m_completedAt := Some completedAt,
                 m_durationMs := Some (max 0 (completedAt - startedAt))\<rparr>))"

definition startReasoningTiming :: "Message \<Rightarrow> rat \<Rightarrow> Reasoning" where
  "startReasoningTiming message startedAt =
     (case m_reasoning message of
        None \<Rightarrow>
          \<lparr>rs_content = [], rs_duration = 0, rs_startedAt = Some startedAt, rs_completedAt = None,
           rs_durationMs = None\<rparr>
      | Some r \<Rightarrow>
          \<lparr>rs_content = rs_content r, rs_duration = rs_duration r,
           rs_startedAt = Some (nullish (rs_startedAt r) startedAt),
           rs_completedAt = rs_completedAt r, rs_durationMs = rs_durationMs r\<rparr>)"

definition completeReasoningTiming :: "Message \<Rightarrow> rat \<Rightarrow> Message" where
  "completeReasoningTiming message completedAt =
     (case m_reasoning message of
        None \<Rightarrow> message
      | Some r \<Rightarrow>
          if rs_durationMs r \<noteq> None then message
          else
            (let startedAt = nullish (rs_startedAt r) (nullish (m_startedAt message) completedAt);
                 durationMs = max 0 (completedAt - startedAt) in
             message\<lparr>m_reasoning := Some (r\<lparr>rs_startedAt := Some startedAt,
                 rs_completedAt := Some completedAt, rs_durationMs := Some durationMs,
                 rs_duration := of_int \<lceil>durationMs / 1000\<rceil>\<rparr>)\<rparr>))"

section \<open>Reasoning tags (message-reasoning-utils.ts)\<close>

record ParsedThinkTags =
  pt_visibleContent :: string
  pt_reasoning :: string
  pt_hasUnclosedTag :: bool

abbreviation open_tag :: string where "open_tag \<equiv> ''<think>''"
abbreviation close_tag :: string where "close_tag \<equiv> ''</think>''"

lemma indexOf_bound: "indexOf s p from = Some i \<Longrightarrow> p \<noteq> [] \<Longrightarrow> from \<le> i \<and> i + length p \<le> length s"
  by (cases p) (auto simp: indexOf_def dest!: find_sub_bound)

text \<open>The \<open>while (true)\<close> loop, with its position and its two lists of parts.\<close>

function think_loop ::
    "string \<Rightarrow> nat \<Rightarrow> string list \<Rightarrow> string list \<Rightarrow> string list \<times> string list \<times> bool" where
  "think_loop content currentPos visibleParts reasoningParts =
     (case indexOf content open_tag currentPos of
        None \<Rightarrow>
          ((if currentPos < length content then visibleParts @ [drop currentPos content]
            else visibleParts), reasoningParts, False)
      | Some openPos \<Rightarrow>
          (let visibleParts' =
                 (if openPos > currentPos then visibleParts @ [slice content currentPos openPos]
                  else visibleParts) in
           (case indexOf content close_tag (openPos + 7) of
              None \<Rightarrow> (visibleParts', reasoningParts @ [drop (openPos + 7) content], True)
            | Some closePos \<Rightarrow>
                think_loop content (closePos + 8) visibleParts'
                  (reasoningParts @ [slice content (openPos + 7) closePos]))))"
  by pat_completeness auto
termination
  by (relation "measure (\<lambda>(content, pos, _, _). length content - pos)")
     (auto dest!: indexOf_bound)

declare think_loop.simps [simp del]

definition parseThinkTags :: "string \<Rightarrow> ParsedThinkTags" where
  "parseThinkTags content =
     (if \<not> js_includes content open_tag then
        \<lparr>pt_visibleContent = content, pt_reasoning = [], pt_hasUnclosedTag = False\<rparr>
      else
        (case think_loop content 0 [] [] of
           (visibleParts, reasoningParts, hasUnclosedTag) \<Rightarrow>
             \<lparr>pt_visibleContent = trim (join [] visibleParts),
              pt_reasoning = trim (join [CHR 0x0A, CHR 0x0A] reasoningParts),
              pt_hasUnclosedTag = hasUnclosedTag\<rparr>))"

section \<open>Display state (message-content-utils.ts, -action-, -error-, -layout-, -editor-utils.ts)\<close>

definition is_streaming_reasoning :: "Message \<Rightarrow> bool" where
  "is_streaming_reasoning message \<longleftrightarrow> nullish (m_isReasoningStreaming message) False"

definition shouldShowMessageLoader :: "Message \<Rightarrow> bool \<Rightarrow> string \<Rightarrow> bool" where
  "shouldShowMessageLoader message isAssistant versionContent \<longleftrightarrow>
     isAssistant \<and> \<not> is_streaming_reasoning message \<and>
     (m_status message = Some Loading \<or>
      (m_status message = Some Streaming \<and> versionContent = []))"

definition shouldShowMessageContent :: "Message \<Rightarrow> string \<Rightarrow> bool" where
  "shouldShowMessageContent message versionContent \<longleftrightarrow>
     (m_from message = User \<or> \<not> is_streaming_reasoning message) \<and> length versionContent > 0"

definition getDisplayContent :: "Message \<Rightarrow> string \<Rightarrow> string" where
  "getDisplayContent message versionContent =
     (if m_from message \<noteq> Assistant then versionContent
      else if \<not> js_includes versionContent open_tag then versionContent
      else pt_visibleContent (parseThinkTags versionContent))"

text \<open>The union of the two shapes of \<open>MessageContentState\<close>: \<open>ms_reasoningContent\<close> is \<open>Some\<close> exactly
  in the shape with \<open>hasReasoning: true\<close>.\<close>

record MessageContentState =
  ms_displayContent :: string
  ms_hasSources :: bool
  ms_isAssistant :: bool
  ms_showLoader :: bool
  ms_showMessageContent :: bool
  ms_sources :: "(string \<times> string) list"
  ms_hasReasoning :: bool
  ms_reasoningContent :: "string option"

definition getMessageContentState :: "Message \<Rightarrow> string \<Rightarrow> MessageContentState" where
  "getMessageContentState message versionContent =
     (let isAssistant = (m_from message = Assistant);
          sources = nullish (m_sources message) [];
          reasoningContent =
            (if isAssistant then map_option rs_content (m_reasoning message) else None);
          base = \<lparr>ms_displayContent = getDisplayContent message versionContent,
            ms_hasSources = (length sources > 0),
            ms_isAssistant = isAssistant,
            ms_showLoader = shouldShowMessageLoader message isAssistant versionContent,
            ms_showMessageContent = shouldShowMessageContent message versionContent,
            ms_sources = sources,
            ms_hasReasoning = False,
            ms_reasoningContent = None\<rparr> in
      (case reasoningContent of
         None \<Rightarrow> base
       | Some rc \<Rightarrow>
           if rc = [] then base
           else base\<lparr>ms_hasReasoning := True, ms_reasoningContent := Some rc\<rparr>))"

record MessageActionState =
  ma_content :: string
  ma_hasContent :: bool
  ma_isAssistant :: bool
  ma_isLoading :: bool
  ma_isUser :: bool

definition getMessageActionState :: "Message \<Rightarrow> MessageActionState" where
  "getMessageActionState message =
     \<lparr>ma_content = getMessageContent message,
      ma_hasContent = hasMessageContent message,
      ma_isAssistant = (m_from message = Assistant),
      ma_isLoading = (m_status message = Some Loading \<or> m_status message = Some Streaming),
      ma_isUser = (m_from message = User)\<rparr>"

definition getMessageActionsVisibilityClass :: "bool \<Rightarrow> string" where
  "getMessageActionsVisibilityClass alwaysVisible =
     (if alwaysVisible then ''opacity-100''
      else ''opacity-0 group-hover:opacity-100 max-md:opacity-100'')"

definition MODEL_PRICE_ERROR_CODE :: string where
  "MODEL_PRICE_ERROR_CODE = ''model_price_error''"

definition FALLBACK_ERROR_CONTENT :: string where
  "FALLBACK_ERROR_CONTENT = ''An unknown error occurred''"

definition isAdminRole :: "rat option \<Rightarrow> bool" where
  "isAdminRole role = (case role of None \<Rightarrow> False | Some r \<Rightarrow> r \<ge> 10)"

definition isErrorMessage :: "Message \<Rightarrow> bool" where
  "isErrorMessage message \<longleftrightarrow> m_status message = Some Error"

datatype error_kind = GenericError | ModelPriceError

record MessageErrorState =
  me_content :: string
  me_kind :: error_kind
  me_showSettingsLink :: bool

definition getMessageErrorState :: "Message \<Rightarrow> bool \<Rightarrow> MessageErrorState option" where
  "getMessageErrorState message isAdmin =
     (if \<not> isErrorMessage message then None
      else
        (let content = str_or (getMessageContent message) FALLBACK_ERROR_CONTENT;
             isModelPriceError = (m_errorCode message = Some (JStr MODEL_PRICE_ERROR_CODE)) in
         Some \<lparr>me_content = content,
               me_kind = (if isModelPriceError then ModelPriceError else GenericError),
               me_showSettingsLink = (isModelPriceError \<and> isAdmin)\<rparr>))"

datatype MessageAlignment = LeftAligned | RightAligned

definition getMessageAlignment :: "Message \<Rightarrow> PlaygroundMessageLayoutMode \<Rightarrow> MessageAlignment" where
  "getMessageAlignment message layoutMode =
     (if layoutMode = LeftLayout then LeftAligned
      else if m_from message = User then RightAligned else LeftAligned)"

definition getMessageAlignmentClass :: "MessageAlignment \<Rightarrow> string" where
  "getMessageAlignmentClass alignment =
     (if alignment = RightAligned then ''items-end text-right'' else ''items-start text-left'')"

record MessageEditorState =
  ed_canSave :: bool
  ed_hasChanged :: bool
  ed_showSaveAndSubmit :: bool

definition getMessageEditorState :: "Message \<Rightarrow> string \<Rightarrow> string \<Rightarrow> MessageEditorState" where
  "getMessageEditorState message editText originalText =
     (let hasText = (length (trim editText) > 0); hasChanged = (editText \<noteq> originalText) in
      \<lparr>ed_canSave = (hasText \<and> hasChanged), ed_hasChanged = hasChanged,
       ed_showSaveAndSubmit = (m_from message = User)\<rparr>)"

section \<open>What the display state shows\<close>

text \<open>A text given by its closed reasoning blocks, each a visible part and a reasoning part.\<close>

fun render_think :: "(string \<times> string) list \<Rightarrow> string" where
  "render_think [] = []"
| "render_think ((v, r) # bs) = v @ open_tag @ r @ close_tag @ render_think bs"

definition plain_blocks :: "(string \<times> string) list \<Rightarrow> bool" where
  "plain_blocks bs \<longleftrightarrow>
     list_all (\<lambda>(v, r). \<not> js_includes v open_tag \<and> \<not> js_includes r close_tag) bs"

text \<open>A tag whose first character does not come back in it cannot overlap itself, so a search finds
  it right after a text that does not hold it.\<close>

lemma find_sub_border_free:
  assumes "c \<notin> set p" and "\<not> js_includes v (c # p)"
  shows "find_sub (c # p) (v @ (c # p) @ rest) = Some (length v)"
  using assms(2)
proof (induction v)
  case Nil
  then show ?case by (simp add: startsWith_iff)
next
  case (Cons x v)
  have no: "\<not> startsWith (x # v @ (c # p) @ rest) (c # p)"
  proof
    assume "startsWith (x # v @ (c # p) @ rest) (c # p)"
    then obtain b where "(x # v) @ ((c # p) @ rest) = (c # p) @ b" by (auto simp: startsWith_iff)
    then obtain us where "x # v = (c # p) @ us \<or> (x # v) @ us = c # p \<and> (c # p) @ rest = us @ b"
      unfolding append_eq_append_conv2 by blast
    then show False
    proof
      assume "x # v = (c # p) @ us"
      then have "js_includes (x # v) (c # p)" unfolding js_includes_iff by (metis append_Nil)
      with Cons.prems show False by simp
    next
      assume us: "(x # v) @ us = c # p \<and> (c # p) @ rest = us @ b"
      show False
      proof (cases us)
        case Nil
        with us have "js_includes (x # v) (c # p)" unfolding js_includes_iff
          by (metis append_Nil append_Nil2)
        with Cons.prems show False by simp
      next
        case (Cons y ys)
        with us have "y = c" and "p = v @ y # ys" by auto
        with assms(1) show False by simp
      qed
    qed
  qed
  have "\<not> js_includes v (c # p)" using Cons.prems by (auto simp: js_includes_def split: if_splits)
  with no Cons.IH show ?case by simp
qed

lemma indexOf_after:
  "c \<notin> set p \<Longrightarrow> \<not> js_includes v (c # p) \<Longrightarrow>
   indexOf (pre @ v @ (c # p) @ rest) (c # p) (length pre) = Some (length pre + length v)"
  using find_sub_border_free [of c p v rest] by (simp add: indexOf_def)

lemma indexOf_none: "\<not> js_includes v p \<Longrightarrow> indexOf (pre @ v) p (length pre) = None"
  by (simp add: indexOf_def js_includes_def)

lemma indexOf_open:
  "\<not> js_includes v open_tag \<Longrightarrow>
   indexOf (pre @ v @ open_tag @ rest) open_tag (length pre) = Some (length pre + length v)"
  using indexOf_after [of "CHR ''<''" "''think>''" v pre rest] by simp

lemma indexOf_close:
  "\<not> js_includes r close_tag \<Longrightarrow>
   indexOf (pre @ r @ close_tag @ rest) close_tag (length pre) = Some (length pre + length r)"
  using indexOf_after [of "CHR ''<''" "''/think>''" r pre rest] by simp

abbreviation nonempty_parts :: "string list \<Rightarrow> string list" where
  "nonempty_parts \<equiv> filter (\<lambda>v. v \<noteq> [])"

lemma think_loop_close:
  assumes "\<not> js_includes v open_tag" "\<not> js_includes r close_tag"
  shows "think_loop (pre @ v @ open_tag @ r @ close_tag @ rest) (length pre) vis rs =
         think_loop ((pre @ v @ open_tag @ r @ close_tag) @ rest)
           (length (pre @ v @ open_tag @ r @ close_tag)) (vis @ nonempty_parts [v]) (rs @ [r])"
proof -
  have o: "indexOf (pre @ v @ open_tag @ r @ close_tag @ rest) open_tag (length pre)
      = Some (length pre + length v)"
    using indexOf_open [OF assms(1), of pre "r @ close_tag @ rest"] by simp
  have c: "indexOf (pre @ v @ open_tag @ r @ close_tag @ rest) close_tag (length pre + length v + 7)
      = Some (length pre + length v + 7 + length r)"
    using indexOf_close [OF assms(2), of "pre @ v @ open_tag" rest] by (simp add: eval_nat_numeral)
  show ?thesis
    by (subst think_loop.simps) (simp only: o c option.case Let_def, simp add: slice_def eval_nat_numeral add_ac)
qed

lemma think_loop_unclosed:
  assumes "\<not> js_includes v open_tag" "\<not> js_includes r close_tag"
  shows "think_loop (pre @ v @ open_tag @ r) (length pre) vis rs =
         (vis @ nonempty_parts [v], rs @ [r], True)"
proof -
  have o: "indexOf (pre @ v @ open_tag @ r) open_tag (length pre) = Some (length pre + length v)"
    using indexOf_open [OF assms(1), of pre r] by simp
  have c: "indexOf (pre @ v @ open_tag @ r) close_tag (length pre + length v + 7) = None"
    using indexOf_none [OF assms(2), of "pre @ v @ open_tag"] by (simp add: eval_nat_numeral)
  show ?thesis
    by (subst think_loop.simps) (simp only: o c option.case Let_def, simp add: slice_def)
qed

lemma think_loop_end:
  "\<not> js_includes v open_tag \<Longrightarrow>
   think_loop (pre @ v) (length pre) vis rs = (vis @ nonempty_parts [v], rs, False)"
  by (subst think_loop.simps) (simp add: indexOf_none)

lemma plain_blocks_Cons [simp]:
  "plain_blocks ((v, r) # bs) \<longleftrightarrow>
     \<not> js_includes v open_tag \<and> \<not> js_includes r close_tag \<and> plain_blocks bs"
  by (auto simp: plain_blocks_def)

lemma plain_blocks_Nil [simp]: "plain_blocks []"
  by (simp add: plain_blocks_def)

lemma think_loop_render:
  "plain_blocks bs \<Longrightarrow>
   think_loop (pre @ render_think bs @ rest) (length pre) vis rs =
   think_loop ((pre @ render_think bs) @ rest) (length (pre @ render_think bs))
     (vis @ nonempty_parts (map fst bs)) (rs @ map snd bs)"
proof (induction bs arbitrary: pre vis rs)
  case (Cons b bs)
  obtain v r where b: "b = (v, r)" by (cases b)
  show ?case
    using Cons.prems Cons.IH [of "pre @ v @ open_tag @ r @ close_tag" "vis @ nonempty_parts [v]" "rs @ [r]"]
      think_loop_close [of v r pre "render_think bs @ rest" vis rs]
    by (simp add: b)
qed simp

lemma join_empty [simp]: "join [] xs = concat xs"
  by (induction "[] :: string" xs rule: join.induct) auto

lemma concat_nonempty_parts [simp]: "concat (nonempty_parts xs) = concat xs"
  by (induction xs) auto

lemma includes_open_tag: "js_includes (a @ open_tag @ b) open_tag"
  unfolding js_includes_iff by blast

lemma includes_render: "bs \<noteq> [] \<Longrightarrow> js_includes (render_think bs @ rest) open_tag"
  using includes_open_tag by (cases bs) (auto simp del: append.simps)

text \<open>Every text has such a form: closed blocks, then a visible rest, then perhaps an opened block.\<close>

lemma think_decompose:
  "\<exists>bs v u. content = render_think bs @ v @ (case u of None \<Rightarrow> [] | Some r \<Rightarrow> open_tag @ r) \<and>
     plain_blocks bs \<and> \<not> js_includes v open_tag \<and> (\<forall>r. u = Some r \<longrightarrow> \<not> js_includes r close_tag)"
proof (induction "length content" arbitrary: content rule: less_induct)
  case less
  show ?case
  proof (cases "js_includes content open_tag")
    case False
    then show ?thesis by (intro exI [of _ "[]"] exI [of _ content] exI [of _ None]) simp
  next
    case True
    then obtain i where i: "find_sub open_tag content = Some i" by (auto simp: js_includes_def)
    obtain v w where v: "content = v @ open_tag @ w" "\<not> js_includes v open_tag"
      using find_sub_least [OF i] by (auto simp: js_includes_def)
    show ?thesis
    proof (cases "js_includes w close_tag")
      case False
      with v show ?thesis by (intro exI [of _ "[]"] exI [of _ v] exI [of _ "Some w"]) simp
    next
      case True
      then obtain j where j: "find_sub close_tag w = Some j" by (auto simp: js_includes_def)
      obtain r x where r: "w = r @ close_tag @ x" "\<not> js_includes r close_tag"
        using find_sub_least [OF j] by (auto simp: js_includes_def)
      have "length x < length content" using v r by simp
      from less.hyps [OF this] obtain bs v' u where
        "x = render_think bs @ v' @ (case u of None \<Rightarrow> [] | Some r \<Rightarrow> open_tag @ r)"
        "plain_blocks bs" "\<not> js_includes v' open_tag"
        "\<forall>r. u = Some r \<longrightarrow> \<not> js_includes r close_tag" by blast
      with v r show ?thesis
        by (intro exI [of _ "(v, r) # bs"] exI [of _ v'] exI [of _ u]) simp
    qed
  qed
qed

text \<open>C8: \<open>parseThinkTags\<close> separates exactly: a text made of closed \<open><think>\<close> blocks, a visible
  rest and perhaps one opened block yields the visible parts in order, the reasoning parts joined by
  a blank line (the opened one included), and the flag that says whether a tag is still open; the
  while loop ends on every text.\<close>

theorem think_tags_separated:
  assumes "plain_blocks bs" and "\<not> js_includes v open_tag"
    and "\<forall>r. u = Some r \<longrightarrow> \<not> js_includes r close_tag" and "bs \<noteq> [] \<or> u \<noteq> None"
  shows "parseThinkTags (render_think bs @ v @ (case u of None \<Rightarrow> [] | Some r \<Rightarrow> open_tag @ r)) =
    \<lparr>pt_visibleContent = trim (concat (map fst bs) @ v),
     pt_reasoning = trim (join [CHR 0x0A, CHR 0x0A]
       (map snd bs @ (case u of None \<Rightarrow> [] | Some r \<Rightarrow> [r]))),
     pt_hasUnclosedTag = (u \<noteq> None)\<rparr>"
proof (cases u)
  case None
  with assms(4) have "js_includes (render_think bs @ v) open_tag" by (simp add: includes_render)
  then show ?thesis
    using think_loop_render [OF assms(1), of "[]" v "[]" "[]"]
      think_loop_end [OF assms(2), of "render_think bs" "nonempty_parts (map fst bs)" "map snd bs"]
    by (simp add: None parseThinkTags_def)
next
  case (Some r)
  with assms(3) have r: "\<not> js_includes r close_tag" by simp
  have "js_includes (render_think bs @ v @ open_tag @ r) open_tag"
    using includes_open_tag [of "render_think bs @ v" r] by simp
  then show ?thesis
    using think_loop_render [OF assms(1), of "[]" "v @ open_tag @ r" "[]" "[]"]
      think_loop_unclosed [OF assms(2) r, of "render_think bs" "nonempty_parts (map fst bs)" "map snd bs"]
    by (simp add: Some parseThinkTags_def)
qed

theorem think_tags_separated_witness:
  "plain_blocks [(''hi'', ''a'')] \<and>
   parseThinkTags (render_think [(''hi'', ''a'')] @ '' there'' @ open_tag @ ''b'') =
   \<lparr>pt_visibleContent = ''hi there'', pt_reasoning = [CHR ''a'', CHR 0x0A, CHR 0x0A, CHR ''b''],
    pt_hasUnclosedTag = True\<rparr>"
proof -
  have p: "plain_blocks [(''hi'', ''a'')]" by code_simp
  have v: "\<not> js_includes '' there'' open_tag" and r: "\<not> js_includes ''b'' close_tag" by code_simp+
  have e: "trim (''hi'' @ '' there'') = ''hi there''"
    "trim [CHR ''a'', CHR 0x0A, CHR 0x0A, CHR ''b''] = [CHR ''a'', CHR 0x0A, CHR 0x0A, CHR ''b'']"
    by code_simp+
  show ?thesis
    using think_tags_separated [OF p v, of "Some ''b''"] p r e by simp
qed

end
