(* ===== verification/Streaming.thy ===== *)
theory Streaming
  imports Messages
begin

text \<open>
  The life of an assistant message: \<open>message-streaming-utils.ts\<close> and \<open>message-update-utils.ts\<close>
  (streaming chunks, finalising, error and load-time repair), and \<open>lib/streaming/\<close> (the request
  payload, the parsing of stream events and of errors).

  A function whose body calls \<open>Date.now()\<close> takes a clock: \<open>clk i\<close> is the value of its \<open>i\<close>-th call.
  The translation function \<open>t\<close> of i18next is a parameter.
\<close>

section \<open>Updates of the last assistant message (message-update-utils.ts)\<close>

definition updateLastAssistantMessage :: "Message list \<Rightarrow> (Message \<Rightarrow> Message) \<Rightarrow> Message list" where
  "updateLastAssistantMessage messages updater =
     (if messages = [] then messages
      else if m_from (last messages) \<noteq> Assistant then messages
      else messages[length messages - 1 := updater (last messages)])"

definition error_updater ::
    "rat \<Rightarrow> string \<Rightarrow> jsv option \<Rightarrow> string \<Rightarrow> Message \<Rightarrow> Message" where
  "error_updater now errorMessage errorCode title message =
     completeAssistantTiming
       ((updateCurrentVersionContent message (title @ '': '' @ errorMessage))
          \<lparr>m_status := Some Error, m_isReasoningStreaming := Some False,
           m_errorCode := Some (case errorCode of
             None \<Rightarrow> JNull | Some c \<Rightarrow> if truthy c then c else JNull)\<rparr>) now"

definition updateAssistantMessageWithError ::
    "rat \<Rightarrow> Message list \<Rightarrow> string \<Rightarrow> jsv option \<Rightarrow> string \<Rightarrow> Message list" where
  "updateAssistantMessageWithError now messages errorMessage errorCode title =
     updateLastAssistantMessage messages (error_updater now errorMessage errorCode title)"

section \<open>Streaming (message-streaming-utils.ts)\<close>

definition processStreamingContent :: "rat \<Rightarrow> Message \<Rightarrow> string option \<Rightarrow> Message" where
  "processStreamingContent now message contentChunk =
     (let currentVersion = getCurrentVersion message;
          fullContent = v_content currentVersion @ nullish contentChunk [] in
      if m_reasoning message = None \<and> \<not> js_includes fullContent open_tag then
        (updateCurrentVersionContent message fullContent)\<lparr>m_isReasoningStreaming := Some False\<rparr>
      else
        (let parsed = parseThinkTags fullContent;
             finalReasoning =
               (if pt_reasoning parsed \<noteq> [] then
                  Some ((startReasoningTiming message now)\<lparr>rs_content := pt_reasoning parsed\<rparr>)
                else m_reasoning message) in
         (updateCurrentVersionContent message fullContent)
           \<lparr>m_reasoning := finalReasoning, m_isReasoningStreaming := Some (pt_hasUnclosedTag parsed)\<rparr>))"

datatype StreamChunkType = ReasoningChunk | ContentChunk

definition getAppendableChunk :: "string \<Rightarrow> string \<Rightarrow> string" where
  "getAppendableChunk currentContent chunk =
     (if currentContent = [] \<or> \<not> startsWith chunk currentContent then chunk
      else drop (length currentContent) chunk)"

definition applyStreamingChunk ::
    "(nat \<Rightarrow> rat) \<Rightarrow> StreamChunkType \<Rightarrow> string \<Rightarrow> Message \<Rightarrow> Message" where
  "applyStreamingChunk clk type chunk message =
     (if m_status message = Some Error then message
      else if type = ReasoningChunk then
        (let reasoning = startReasoningTiming message (clk 0);
             appendableChunk = getAppendableChunk (rs_content reasoning) chunk in
         message\<lparr>m_reasoning :=
                   Some (reasoning\<lparr>rs_content := rs_content reasoning @ appendableChunk\<rparr>),
                 m_isReasoningStreaming := Some True,
                 m_status := Some Streaming\<rparr>)
      else
        (let appendableChunk = getAppendableChunk (v_content (getCurrentVersion message)) chunk;
             contentMessage = processStreamingContent (clk 0) message (Some appendableChunk) in
         (if is_streaming_reasoning contentMessage then contentMessage
          else completeReasoningTiming contentMessage (clk 1))\<lparr>m_status := Some Streaming\<rparr>))"

definition finalizeMessage :: "(nat \<Rightarrow> rat) \<Rightarrow> Message \<Rightarrow> string option \<Rightarrow> Message" where
  "finalizeMessage clk message apiReasoningContent =
     (let content = v_content (getCurrentVersion message);
          parsedThinkTags =
            (if js_includes content open_tag then Some (parseThinkTags content) else None);
          visibleContent = nullish (map_option pt_visibleContent parsedThinkTags) content;
          finalReasoning =
            opt_str_or apiReasoningContent
              (opt_str_or (map_option rs_content (m_reasoning message))
                (opt_str_or (map_option pt_reasoning parsedThinkTags) []));
          finalized =
            (updateCurrentVersionContent message visibleContent)
              \<lparr>m_reasoning :=
                 (if finalReasoning \<noteq> [] then
                    Some ((startReasoningTiming message (clk 0))\<lparr>rs_content := finalReasoning\<rparr>)
                  else None),
               m_isReasoningStreaming := Some False\<rparr> in
      completeReasoningTiming finalized (clk 1))"

definition completeAssistantMessage :: "(nat \<Rightarrow> rat) \<Rightarrow> Message \<Rightarrow> Message" where
  "completeAssistantMessage clk message =
     completeAssistantTiming ((finalizeMessage clk message None)\<lparr>m_status := Some Complete\<rparr>) (clk 2)"

definition isAssistantMessageFinal :: "Message \<Rightarrow> bool" where
  "isAssistantMessageFinal message \<longleftrightarrow>
     m_status message = Some Complete \<or> m_status message = Some Error"

definition isAssistantMessagePending :: "Message \<Rightarrow> bool" where
  "isAssistantMessagePending message \<longleftrightarrow>
     m_status message = Some Loading \<or> m_status message = Some Streaming"

definition isPendingAssistantMessage :: "Message option \<Rightarrow> bool" where
  "isPendingAssistantMessage message =
     (case message of
        None \<Rightarrow> False
      | Some m \<Rightarrow> m_from m = Assistant \<and> isAssistantMessagePending m)"

record ChoiceMessage =
  chm_content :: "string option"
  chm_reasoning_content :: "string option"

record ChatCompletionChoice =
  ch_message :: "ChoiceMessage option"

record ChatCompletionResponse =
  cr_choices :: "ChatCompletionChoice list option"

definition first_choice :: "ChatCompletionResponse \<Rightarrow> ChatCompletionChoice option" where
  "first_choice response = (case cr_choices response of Some (c # _) \<Rightarrow> Some c | _ \<Rightarrow> None)"

definition hasChatCompletionChoice :: "ChatCompletionResponse \<Rightarrow> bool" where
  "hasChatCompletionChoice response \<longleftrightarrow> first_choice response \<noteq> None"

definition applyChatCompletionChoice ::
    "(nat \<Rightarrow> rat) \<Rightarrow> ChatCompletionChoice \<Rightarrow> Message \<Rightarrow> Message" where
  "applyChatCompletionChoice clk choice message =
     completeAssistantTiming
       ((finalizeMessage clk
           (updateCurrentVersionContent message
             (opt_str_or (Option.bind (ch_message choice) chm_content) []))
           (Option.bind (ch_message choice) chm_reasoning_content))
          \<lparr>m_status := Some Complete\<rparr>) (clk 2)"

definition applyChatCompletionResponse ::
    "(nat \<Rightarrow> rat) \<Rightarrow> ChatCompletionResponse \<Rightarrow> Message \<Rightarrow> Message option" where
  "applyChatCompletionResponse clk response message =
     (case first_choice response of
        None \<Rightarrow> None
      | Some choice \<Rightarrow> Some (applyChatCompletionChoice clk choice message))"

text \<open>The search of \<open>sanitizeMessagesOnLoad\<close> from the end of the list: \<open>last_pending ms n\<close> looks at
  the indices below \<open>n\<close>.\<close>

fun last_pending :: "Message list \<Rightarrow> nat \<Rightarrow> nat option" where
  "last_pending messages 0 = None"
| "last_pending messages (Suc i) =
     (if isPendingAssistantMessage (Some (messages ! i)) then Some i else last_pending messages i)"

definition sanitize_one :: "(string \<Rightarrow> string) \<Rightarrow> (nat \<Rightarrow> rat) \<Rightarrow> Message \<Rightarrow> Message" where
  "sanitize_one t clk message =
     (let finalized = finalizeMessage clk message None;
          hasContent = hasMessageContent finalized;
          hasReasoning =
            (case m_reasoning finalized of None \<Rightarrow> False | Some r \<Rightarrow> trim (rs_content r) \<noteq> []) in
      if hasContent \<or> hasReasoning then
        completeAssistantTiming
          (finalized\<lparr>m_status := Some Complete, m_isReasoningStreaming := Some False\<rparr>) (clk 2)
      else
        completeAssistantTiming
          ((updateCurrentVersionContent finalized (t API_REQUEST_ERROR @ '': '' @ t INTERRUPTED))
             \<lparr>m_status := Some Error, m_isReasoningStreaming := Some False\<rparr>) (clk 2))"

definition sanitizeMessagesOnLoad ::
    "(string \<Rightarrow> string) \<Rightarrow> (nat \<Rightarrow> rat) \<Rightarrow> Message list \<Rightarrow> Message list" where
  "sanitizeMessagesOnLoad t clk messages =
     (case last_pending messages (length messages) of
        None \<Rightarrow> messages
      | Some targetIndex \<Rightarrow> messages[targetIndex := sanitize_one t clk (messages ! targetIndex)])"

section \<open>Request payload (payload-builder.ts)\<close>

record PlaygroundConfig =
  cf_model :: string
  cf_group :: string
  cf_temperature :: rat
  cf_top_p :: rat
  cf_max_tokens :: rat
  cf_frequency_penalty :: rat
  cf_presence_penalty :: rat
  cf_seed :: "rat option"
  cf_stream :: bool

record ParameterEnabled =
  pe_temperature :: bool
  pe_top_p :: bool
  pe_max_tokens :: bool
  pe_frequency_penalty :: bool
  pe_presence_penalty :: bool
  pe_seed :: bool

record ChatCompletionRequest =
  rq_model :: string
  rq_group :: "string option"
  rq_messages :: "ChatCompletionMessage list"
  rq_stream :: bool
  rq_temperature :: "rat option"
  rq_top_p :: "rat option"
  rq_max_tokens :: "rat option"
  rq_frequency_penalty :: "rat option"
  rq_presence_penalty :: "rat option"
  rq_seed :: "rat option"

definition DEFAULT_CONFIG :: PlaygroundConfig where
  "DEFAULT_CONFIG =
     \<lparr>cf_model = ''gpt-4o'', cf_group = ''default'', cf_temperature = 7 / 10, cf_top_p = 1,
      cf_max_tokens = 4096, cf_frequency_penalty = 0, cf_presence_penalty = 0, cf_seed = None,
      cf_stream = True\<rparr>"

definition DEFAULT_PARAMETER_ENABLED :: ParameterEnabled where
  "DEFAULT_PARAMETER_ENABLED =
     \<lparr>pe_temperature = True, pe_top_p = True, pe_max_tokens = False, pe_frequency_penalty = True,
      pe_presence_penalty = True, pe_seed = False\<rparr>"

definition buildChatCompletionPayload ::
    "Message list \<Rightarrow> PlaygroundConfig \<Rightarrow> ParameterEnabled \<Rightarrow> ChatCompletionRequest" where
  "buildChatCompletionPayload messages config parameterEnabled =
     \<lparr>rq_model = cf_model config, rq_group = Some (cf_group config),
      rq_messages = map formatMessageForAPI (filter isValidMessage messages),
      rq_stream = cf_stream config,
      rq_temperature =
        (if pe_temperature parameterEnabled then Some (cf_temperature config) else None),
      rq_top_p = (if pe_top_p parameterEnabled then Some (cf_top_p config) else None),
      rq_max_tokens =
        (if pe_max_tokens parameterEnabled then Some (cf_max_tokens config) else None),
      rq_frequency_penalty =
        (if pe_frequency_penalty parameterEnabled then Some (cf_frequency_penalty config) else None),
      rq_presence_penalty =
        (if pe_presence_penalty parameterEnabled then Some (cf_presence_penalty config) else None),
      rq_seed = (if pe_seed parameterEnabled \<and> cf_seed config \<noteq> None then cf_seed config else None)\<rparr>"

section \<open>Stream events and errors (stream-utils.ts, request-error-utils.ts)\<close>

text \<open>Optional chaining on parsed JSON: \<open>v?.k\<close> and \<open>v?.[0]\<close> for a value that may be \<open>undefined\<close>.\<close>

definition opt_member :: "jsv option \<Rightarrow> string \<Rightarrow> jsv option" where
  "opt_member v k = Option.bind v (\<lambda>x. field x k)"

definition opt_first :: "jsv option \<Rightarrow> jsv option" where
  "opt_first v =
     (case v of
        Some (JArr (x # _)) \<Rightarrow> Some x
      | Some (JObj kvs) \<Rightarrow> map_of kvs ''0''
      | Some (JStr (c # _)) \<Rightarrow> Some (JStr [c])
      | _ \<Rightarrow> None)"

definition opt_truthy :: "jsv option \<Rightarrow> bool" where
  "opt_truthy v = (case v of None \<Rightarrow> False | Some x \<Rightarrow> truthy x)"

definition truthy_or :: "jsv option \<Rightarrow> jsv \<Rightarrow> jsv" where
  "truthy_or v d = (case v of None \<Rightarrow> d | Some x \<Rightarrow> if truthy x then x else d)"

record StreamErrorDetails =
  se_errorCode :: "jsv option"
  se_errorMessage :: jsv

definition parseStreamErrorDetails :: "string option \<Rightarrow> StreamErrorDetails" where
  "parseStreamErrorDetails data =
     (let fallbackMessage = JStr (opt_str_or data API_REQUEST_ERROR);
          plain = \<lparr>se_errorCode = None, se_errorMessage = fallbackMessage\<rparr> in
      case data of
        None \<Rightarrow> plain
      | Some d \<Rightarrow>
          if d = [] then plain
          else
            (case JSON_parse d of
               None \<Rightarrow> plain
             | Some parsed \<Rightarrow>
                 (let error = field parsed ''error'' in
                  if \<not> opt_truthy error then plain
                  else
                    (let code = opt_member error ''code'' in
                     \<lparr>se_errorCode = (if opt_truthy code then code else None),
                      se_errorMessage = truthy_or (opt_member error ''message'') fallbackMessage\<rparr>))))"

text \<open>\<open>None\<close> is the exception: \<open>JSON.parse\<close> failed, or the text was the literal \<open>null\<close>.\<close>

definition parseStreamMessageUpdates :: "string \<Rightarrow> (StreamChunkType \<times> jsv) list option" where
  "parseStreamMessageUpdates data =
     (case JSON_parse data of
        None \<Rightarrow> None
      | Some JNull \<Rightarrow> None
      | Some chunk \<Rightarrow>
          (let delta = opt_member (opt_first (field chunk ''choices'')) ''delta'' in
           if \<not> opt_truthy delta then Some []
           else
             Some ((case opt_member delta ''reasoning_content'' of
                      None \<Rightarrow> []
                    | Some v \<Rightarrow> if truthy v then [(ReasoningChunk, v)] else [])
                 @ (case opt_member delta ''content'' of
                      None \<Rightarrow> []
                    | Some v \<Rightarrow> if truthy v then [(ContentChunk, v)] else []))))"

definition isStreamDoneMessage :: "string \<Rightarrow> bool" where
  "isStreamDoneMessage data \<longleftrightarrow> data = ''[DONE]''"

definition isStreamClosedReadyState :: "int option \<Rightarrow> bool" where
  "isStreamClosedReadyState readyState \<longleftrightarrow> readyState = Some 2"

definition getStreamReadyStateError :: "int option \<Rightarrow> int option \<Rightarrow> string option" where
  "getStreamReadyStateError eventReadyState status =
     (case (eventReadyState, status) of
        (Some rs, Some st) \<Rightarrow>
          if rs \<ge> 2 \<and> st \<noteq> 200 then Some (''HTTP '' @ show_int st @ '': '' @ CONNECTION_CLOSED)
          else None
      | _ \<Rightarrow> None)"

text \<open>The error a request was rejected with: its message, and the body of the response if it had one
  (\<open>response.data\<close>).\<close>

record RequestErrorLike =
  re_message :: "string option"
  re_data :: "jsv option"

definition parseRequestErrorDetails :: "RequestErrorLike option \<Rightarrow> StreamErrorDetails" where
  "parseRequestErrorDetails requestError =
     (let data = Option.bind requestError re_data;
          code = opt_member (opt_member data ''error'') ''code'' in
      \<lparr>se_errorCode = (if opt_truthy code then code else None),
       se_errorMessage =
         truthy_or (opt_member data ''message'')
           (JStr (opt_str_or (Option.bind requestError re_message) API_REQUEST_ERROR))\<rparr>)"

section \<open>The contract of an updater\<close>

text \<open>
  What the callers of \<open>updateLastAssistantMessage\<close> rely on: an updater keeps the key and the role of
  the message it rewrites, so that rendering keys and the alternation of roles survive it.
\<close>

locale message_updater =
  fixes upd :: "Message \<Rightarrow> Message"
  assumes upd_key: "m_key (upd m) = m_key m"
    and upd_from: "m_from (upd m) = m_from m"
begin

lemma update_last_length: "length (updateLastAssistantMessage ms upd) = length ms"
  by (simp add: updateLastAssistantMessage_def)

lemma update_last_keys: "map m_key (updateLastAssistantMessage ms upd) = map m_key ms"
  by (auto simp: updateLastAssistantMessage_def map_update upd_key last_conv_nth
      intro: list_update_same_conv [THEN iffD2])

lemma update_last_roles: "map m_from (updateLastAssistantMessage ms upd) = map m_from ms"
  by (auto simp: updateLastAssistantMessage_def map_update upd_from last_conv_nth
      intro: list_update_same_conv [THEN iffD2])

lemma update_last_butlast: "butlast (updateLastAssistantMessage ms upd) = butlast ms"
  by (simp add: updateLastAssistantMessage_def butlast_list_update)

end

lemma updateLast_snoc:
  "updateLastAssistantMessage (ms @ [m]) upd = ms @ [if m_from m = Assistant then upd m else m]"
  by (simp add: updateLastAssistantMessage_def)

lemma updateLast_Nil [simp]: "updateLastAssistantMessage [] upd = []"
  by (simp add: updateLastAssistantMessage_def)

text \<open>The facts of each step on the parts of a message it does not touch.\<close>

lemmas message_simps =
  getMessageContent_def getCurrentVersion_def updateCurrentVersionContent_def is_streaming_reasoning_def

lemma completeAssistantTiming_keeps [simp]:
  "m_key (completeAssistantTiming m n) = m_key m"
  "m_from (completeAssistantTiming m n) = m_from m"
  "m_versions (completeAssistantTiming m n) = m_versions m"
  "m_reasoning (completeAssistantTiming m n) = m_reasoning m"
  "m_status (completeAssistantTiming m n) = m_status m"
  "m_isReasoningStreaming (completeAssistantTiming m n) = m_isReasoningStreaming m"
  "m_errorCode (completeAssistantTiming m n) = m_errorCode m"
  by (simp_all add: completeAssistantTiming_def Let_def)

lemma completeReasoningTiming_keeps [simp]:
  "m_key (completeReasoningTiming m n) = m_key m"
  "m_from (completeReasoningTiming m n) = m_from m"
  "m_versions (completeReasoningTiming m n) = m_versions m"
  "m_status (completeReasoningTiming m n) = m_status m"
  "m_isReasoningStreaming (completeReasoningTiming m n) = m_isReasoningStreaming m"
  "m_errorCode (completeReasoningTiming m n) = m_errorCode m"
  "map_option rs_content (m_reasoning (completeReasoningTiming m n)) =
     map_option rs_content (m_reasoning m)"
  "m_reasoning (completeReasoningTiming m n) = None \<longleftrightarrow> m_reasoning m = None"
  by (auto simp: completeReasoningTiming_def Let_def split: option.splits)

lemma completeReasoningTiming_done:
  "m_reasoning (completeReasoningTiming m n) = Some r \<Longrightarrow> rs_durationMs r \<noteq> None"
  by (auto simp: completeReasoningTiming_def Let_def split: option.splits if_splits)

lemma updateCurrentVersionContent_keeps [simp]:
  "m_key (updateCurrentVersionContent m c) = m_key m"
  "m_from (updateCurrentVersionContent m c) = m_from m"
  "m_reasoning (updateCurrentVersionContent m c) = m_reasoning m"
  "m_status (updateCurrentVersionContent m c) = m_status m"
  "getMessageContent (updateCurrentVersionContent m c) = c"
  by (simp_all add: message_simps)

lemma content_of_versions: "m_versions m = m_versions n \<Longrightarrow> getMessageContent m = getMessageContent n"
  by (simp add: message_simps)

lemma getMessageContent_status [simp]:
  "getMessageContent (m\<lparr>m_status := s\<rparr>) = getMessageContent m"
  by (simp add: message_simps)

lemma getMessageContent_keeps [simp]:
  "getMessageContent (completeAssistantTiming m n) = getMessageContent m"
  "getMessageContent (completeReasoningTiming m n) = getMessageContent m"
  "getMessageContent (m\<lparr>m_reasoning := r\<rparr>) = getMessageContent m"
  "getMessageContent (m\<lparr>m_isReasoningStreaming := b\<rparr>) = getMessageContent m"
  "getMessageContent (m\<lparr>m_errorCode := e\<rparr>) = getMessageContent m"
  by (rule content_of_versions, simp)+

lemma processStreamingContent_keeps [simp]:
  "m_key (processStreamingContent n m c) = m_key m"
  "m_from (processStreamingContent n m c) = m_from m"
  "getMessageContent (processStreamingContent n m c) = getMessageContent m @ nullish c []"
  by (simp_all add: processStreamingContent_def Let_def getMessageContent_def [symmetric])

lemma finalizeMessage_keeps [simp]:
  "m_key (finalizeMessage clk m a) = m_key m"
  "m_from (finalizeMessage clk m a) = m_from m"
  "m_isReasoningStreaming (finalizeMessage clk m a) = Some False"
  by (simp_all add: finalizeMessage_def Let_def)

lemma parseThinkTags_plain:
  "\<not> js_includes c open_tag \<Longrightarrow>
   parseThinkTags c = \<lparr>pt_visibleContent = c, pt_reasoning = [], pt_hasUnclosedTag = False\<rparr>"
  by (simp add: parseThinkTags_def)

lemma finalizeMessage_content [simp]:
  "getMessageContent (finalizeMessage clk m a) = pt_visibleContent (parseThinkTags (getMessageContent m))"
  by (cases "js_includes (getMessageContent m) open_tag")
     (simp_all add: finalizeMessage_def Let_def getMessageContent_def [symmetric] nullish_def
      parseThinkTags_plain)

lemma applyStreamingChunk_keeps [simp]:
  "m_key (applyStreamingChunk clk ty c m) = m_key m"
  "m_from (applyStreamingChunk clk ty c m) = m_from m"
  by (simp_all add: applyStreamingChunk_def Let_def)

interpretation chunk_upd: message_updater "applyStreamingChunk clk ty c" for clk ty c
  by unfold_locales simp_all

interpretation complete_upd: message_updater "completeAssistantMessage clk" for clk
  by unfold_locales (simp_all add: completeAssistantMessage_def)

interpretation error_upd: message_updater "error_updater now e code title" for now e code title
  by unfold_locales (simp_all add: error_updater_def)

interpretation choice_upd: message_updater "applyChatCompletionChoice clk choice" for clk choice
  by unfold_locales (simp_all add: applyChatCompletionChoice_def)

interpretation sanitize_upd: message_updater "sanitize_one t clk" for t clk
  by unfold_locales (simp_all add: sanitize_one_def Let_def)

section \<open>Streaming shows and keeps the text\<close>

text \<open>What a chunk does to the text it belongs to: a chunk that begins with the text so far is a
  snapshot and replaces it, any other is appended.\<close>

definition absorb :: "string \<Rightarrow> string \<Rightarrow> string" where
  "absorb cur chunk = (if cur \<noteq> [] \<and> startsWith chunk cur then chunk else cur @ chunk)"

lemma append_appendable [simp]: "cur @ getAppendableChunk cur chunk = absorb cur chunk"
  by (auto simp: getAppendableChunk_def absorb_def dest!: startsWithD)

lemma absorb_extends: "\<exists>more. absorb cur chunk = cur @ more"
  by (auto simp: absorb_def dest!: startsWithD)

definition reasoning_text :: "Message \<Rightarrow> string" where
  "reasoning_text m = (case m_reasoning m of None \<Rightarrow> [] | Some r \<Rightarrow> rs_content r)"

lemma chunk_content:
  "m_status m \<noteq> Some Error \<Longrightarrow>
   getMessageContent (applyStreamingChunk clk ContentChunk chunk m) = absorb (getMessageContent m) chunk"
  by (simp add: applyStreamingChunk_def Let_def nullish_def getMessageContent_def [symmetric])

lemma chunk_reasoning:
  "m_status m \<noteq> Some Error \<Longrightarrow>
   reasoning_text (applyStreamingChunk clk ReasoningChunk chunk m) = absorb (reasoning_text m) chunk \<and>
   getMessageContent (applyStreamingChunk clk ReasoningChunk chunk m) = getMessageContent m"
  by (simp add: applyStreamingChunk_def Let_def reasoning_text_def startReasoningTiming_def
      split: option.splits)

lemma chunk_error: "m_status m = Some Error \<Longrightarrow> applyStreamingChunk clk ty chunk m = m"
  by (simp add: applyStreamingChunk_def)

text \<open>A streaming chunk extends the text it belongs to and nothing else of the raw text: a content
  chunk makes the raw content the snapshot or the old content followed by the chunk, a reasoning
  chunk does this to the reasoning and leaves the content, the key and the role alone; in every case
  the old raw content is a prefix of the new one, and a message that failed is left unchanged.\<close>

theorem streaming_chunk_extends:
  "(m_status m \<noteq> Some Error \<longrightarrow>
      getMessageContent (applyStreamingChunk clk ContentChunk chunk m) =
        absorb (getMessageContent m) chunk \<and>
      reasoning_text (applyStreamingChunk clk ReasoningChunk chunk m) =
        absorb (reasoning_text m) chunk \<and>
      getMessageContent (applyStreamingChunk clk ReasoningChunk chunk m) = getMessageContent m) \<and>
   (m_status m = Some Error \<longrightarrow> applyStreamingChunk clk ty chunk m = m) \<and>
   (\<exists>more. getMessageContent (applyStreamingChunk clk ty chunk m) = getMessageContent m @ more) \<and>
   m_key (applyStreamingChunk clk ty chunk m) = m_key m \<and>
   m_from (applyStreamingChunk clk ty chunk m) = m_from m"
  using absorb_extends [of "getMessageContent m" chunk]
  by (cases ty; cases "m_status m = Some Error") (auto simp: chunk_content chunk_reasoning chunk_error)

theorem streaming_chunk_extends_witness:
  "getMessageContent (applyStreamingChunk (\<lambda>_. 7) ContentChunk ''lo''
     (updateCurrentVersionContent (createLoadingAssistantMessage ''k'' ''v'' 5) ''hel'')) = ''hello'' \<and>
   applyStreamingChunk (\<lambda>_. 7) ContentChunk ''x''
     (error_updater 6 ''e'' None ''T'' (createLoadingAssistantMessage ''k'' ''v'' 5)) =
   error_updater 6 ''e'' None ''T'' (createLoadingAssistantMessage ''k'' ''v'' 5)"
  using streaming_chunk_extends [of "updateCurrentVersionContent
      (createLoadingAssistantMessage ''k'' ''v'' 5) ''hel''" "\<lambda>_. 7" "''lo''" ContentChunk]
    streaming_chunk_extends [of "error_updater 6 ''e'' None ''T''
      (createLoadingAssistantMessage ''k'' ''v'' 5)" "\<lambda>_. 7" "''x''" ContentChunk]
  by (simp add: createLoadingAssistantMessage_def error_updater_def absorb_def startsWith_def)

text \<open>C9: completing an answer stores exactly the text that was displayed while it streamed, whatever
  reasoning tags the raw content held; the answer is final and no longer streams reasoning, its
  duration is not negative and runs from its start to the completion, and the reasoning that is kept
  has a duration.\<close>

theorem complete_stores_displayed:
  assumes "m_from m = Assistant"
  shows "getMessageContent (completeAssistantMessage clk m) = getDisplayContent m (getMessageContent m) \<and>
    isAssistantMessageFinal (completeAssistantMessage clk m) \<and>
    m_isReasoningStreaming (completeAssistantMessage clk m) = Some False \<and>
    m_completedAt (completeAssistantMessage clk m) = Some (clk 2) \<and>
    (\<exists>d s. m_durationMs (completeAssistantMessage clk m) = Some d \<and> 0 \<le> d \<and>
       m_startedAt (completeAssistantMessage clk m) = Some s \<and> (s \<le> clk 2 \<longrightarrow> d = clk 2 - s)) \<and>
    (\<forall>r. m_reasoning (completeAssistantMessage clk m) = Some r \<longrightarrow>
       rs_content r \<noteq> [] \<and> rs_durationMs r \<noteq> None)"
proof (intro conjI)
  show "getMessageContent (completeAssistantMessage clk m) = getDisplayContent m (getMessageContent m)"
    using assms by (auto simp: completeAssistantMessage_def getDisplayContent_def parseThinkTags_plain)
  show "isAssistantMessageFinal (completeAssistantMessage clk m)"
    and "m_isReasoningStreaming (completeAssistantMessage clk m) = Some False"
    by (simp_all add: completeAssistantMessage_def isAssistantMessageFinal_def)
  show "m_completedAt (completeAssistantMessage clk m) = Some (clk 2)"
    and "\<exists>d s. m_durationMs (completeAssistantMessage clk m) = Some d \<and> 0 \<le> d \<and>
           m_startedAt (completeAssistantMessage clk m) = Some s \<and> (s \<le> clk 2 \<longrightarrow> d = clk 2 - s)"
    using assms by (simp_all add: completeAssistantMessage_def completeAssistantTiming_def Let_def)
  show "\<forall>r. m_reasoning (completeAssistantMessage clk m) = Some r \<longrightarrow>
      rs_content r \<noteq> [] \<and> rs_durationMs r \<noteq> None"
    by (auto simp: completeAssistantMessage_def finalizeMessage_def Let_def
        completeReasoningTiming_def split: if_splits option.splits)
qed

theorem complete_stores_displayed_witness:
  "getMessageContent (completeAssistantMessage (\<lambda>_. 7)
     (updateCurrentVersionContent (createLoadingAssistantMessage ''k'' ''v'' 5) ''<think>a</think>b'')) = ''b''"
proof -
  let ?m = "updateCurrentVersionContent (createLoadingAssistantMessage ''k'' ''v'' 5) ''<think>a</think>b''"
  have a: "m_from ?m = Assistant" by (simp add: createLoadingAssistantMessage_def)
  have d: "getDisplayContent ?m ''<think>a</think>b'' = ''b''" by code_simp
  show ?thesis using complete_stores_displayed [OF a, of "\<lambda>_. 7"] d by simp
qed

section \<open>Repair at load time\<close>

lemma last_pending_Some:
  "last_pending ms n = Some i \<longleftrightarrow>
     i < n \<and> isPendingAssistantMessage (Some (ms ! i)) \<and>
     (\<forall>j. i < j \<and> j < n \<longrightarrow> \<not> isPendingAssistantMessage (Some (ms ! j)))"
  by (induction n) (auto simp: less_Suc_eq)

lemma last_pending_None:
  "last_pending ms n = None \<longleftrightarrow> (\<forall>j < n. \<not> isPendingAssistantMessage (Some (ms ! j)))"
  by (induction n) (auto simp: less_Suc_eq)

lemma sanitize_one_final: "isAssistantMessageFinal (sanitize_one t clk m)"
  by (simp add: sanitize_one_def Let_def isAssistantMessageFinal_def)

lemma final_not_pending: "isAssistantMessageFinal m \<Longrightarrow> \<not> isPendingAssistantMessage (Some m)"
  by (auto simp: isAssistantMessageFinal_def isPendingAssistantMessage_def isAssistantMessagePending_def)

lemma sanitize_keys:
  "map m_key (sanitizeMessagesOnLoad t clk ms) = map m_key ms \<and>
   map m_from (sanitizeMessagesOnLoad t clk ms) = map m_from ms"
proof (cases "last_pending ms (length ms)")
  case (Some i)
  then have "i < length ms" by (simp add: last_pending_Some)
  with Some show ?thesis
    by (simp add: sanitizeMessagesOnLoad_def map_update sanitize_upd.upd_key sanitize_upd.upd_from
        list_update_same_conv)
qed (simp add: sanitizeMessagesOnLoad_def)



text \<open>The doc comment promises to convert "stuck loading/streaming messages"; with two of them, the
  first stays pending.\<close>

lemma sanitize_leaves_earlier_pending:
  "isPendingAssistantMessage (Some
     (sanitizeMessagesOnLoad t clk
        [createLoadingAssistantMessage ''a'' ''b'' 5, createLoadingAssistantMessage ''k'' ''v'' 5] ! 0))"
  by (simp add: sanitizeMessagesOnLoad_def isPendingAssistantMessage_def isAssistantMessagePending_def
      createLoadingAssistantMessage_def)

text \<open>A delta that repeats the text so far is taken for a snapshot and lost.\<close>

lemma repeated_delta_lost:
  "m_status m \<noteq> Some Error \<Longrightarrow> getMessageContent m = ''ha'' \<Longrightarrow>
   getMessageContent (applyStreamingChunk clk ContentChunk ''ha'' m) = ''ha''"
  by (simp add: chunk_content absorb_def startsWith_def)

end
