(* ===== verification/Conversation.thy ===== *)
theory Conversation
  imports Streaming
begin

text \<open>
  The operations on the list of messages (\<open>conversation-message-utils.ts\<close>) and the small pure helpers
  of the playground's input and option selectors (\<open>lib/input/input-control-utils.ts\<close>,
  \<open>lib/options/playground-option-utils.ts\<close>). \<open>nanoid()\<close> results are arguments, in the order of the
  calls.
\<close>

section \<open>Conversation (conversation-message-utils.ts)\<close>

fun findIndex :: "('a \<Rightarrow> bool) \<Rightarrow> 'a list \<Rightarrow> nat option" where
  "findIndex p [] = None"
| "findIndex p (x # xs) = (if p x then Some 0 else map_option Suc (findIndex p xs))"

record message_ids =
  id_user :: string
  id_userVersion :: string
  id_assistant :: string
  id_assistantVersion :: string

definition appendUserMessagePair ::
    "message_ids \<Rightarrow> rat \<Rightarrow> Message list \<Rightarrow> string \<Rightarrow> Message list" where
  "appendUserMessagePair ids submittedAt messages content =
     messages
       @ [createUserMessage (id_user ids) (id_userVersion ids) content submittedAt,
          createLoadingAssistantMessage (id_assistant ids) (id_assistantVersion ids) submittedAt]"

definition createRegeneratedMessages ::
    "message_ids \<Rightarrow> rat \<Rightarrow> Message list \<Rightarrow> string \<Rightarrow> Message list option" where
  "createRegeneratedMessages ids now messages messageKey =
     (case findIndex (\<lambda>message. m_key message = messageKey) messages of
        None \<Rightarrow> None
      | Some messageIndex \<Rightarrow>
          (let loading =
                 createLoadingAssistantMessage (id_assistant ids) (id_assistantVersion ids) now in
           if m_from (messages ! messageIndex) = User then
             Some (slice messages 0 (messageIndex + 1) @ [loading])
           else Some (slice messages 0 messageIndex @ [loading])))"

definition removeMessageByKey :: "Message list \<Rightarrow> string \<Rightarrow> Message list" where
  "removeMessageByKey messages messageKey = filter (\<lambda>message. m_key message \<noteq> messageKey) messages"

fun getPreviousUserMessage :: "Message list \<Rightarrow> nat \<Rightarrow> Message option" where
  "getPreviousUserMessage messages 0 = None"
| "getPreviousUserMessage messages (Suc index) =
     (if m_from (messages ! index) = User then Some (messages ! index)
      else getPreviousUserMessage messages index)"

record ApplyMessageEditResult =
  ae_messages :: "Message list"
  ae_shouldSend :: bool

definition edit_message :: "string \<Rightarrow> string \<Rightarrow> bool \<Rightarrow> rat \<Rightarrow> Message \<Rightarrow> Message" where
  "edit_message messageKey content shouldSubmit submittedAt message =
     (if m_key message = messageKey then
        (updateCurrentVersionContent message content)
          \<lparr>m_createdAt := (if shouldSubmit then Some submittedAt else m_createdAt message)\<rparr>
      else message)"

definition applyMessageEdit ::
    "message_ids \<Rightarrow> rat \<Rightarrow> Message list \<Rightarrow> string \<Rightarrow> string \<Rightarrow> bool \<Rightarrow> ApplyMessageEditResult option" where
  "applyMessageEdit ids submittedAt messages messageKey content shouldSubmit =
     (case findIndex (\<lambda>message. m_key message = messageKey) messages of
        None \<Rightarrow> None
      | Some messageIndex \<Rightarrow>
          (let updatedMessages =
                 map (edit_message messageKey content shouldSubmit submittedAt) messages in
           if \<not> shouldSubmit \<or> m_from (updatedMessages ! messageIndex) \<noteq> User then
             Some \<lparr>ae_messages = updatedMessages, ae_shouldSend = False\<rparr>
           else
             Some \<lparr>ae_messages = slice updatedMessages 0 (messageIndex + 1)
                     @ [createLoadingAssistantMessage (id_assistant ids) (id_assistantVersion ids)
                          submittedAt],
                   ae_shouldSend = True\<rparr>))"

definition getEditingMessageContent :: "Message list \<Rightarrow> string option \<Rightarrow> string" where
  "getEditingMessageContent messages editingKey =
     (case editingKey of
        None \<Rightarrow> []
      | Some k \<Rightarrow>
          if k = [] then []
          else (case find (\<lambda>item. m_key item = k) messages of
                  None \<Rightarrow> [] | Some message \<Rightarrow> getMessageContent message))"

record ChatMessageRenderState =
  cr_alwaysShowActions :: bool
  cr_content :: string
  cr_isEditing :: bool

definition getChatMessageRenderState ::
    "Message list \<Rightarrow> Message \<Rightarrow> int \<Rightarrow> string option \<Rightarrow> ChatMessageRenderState" where
  "getChatMessageRenderState messages message messageIndex editingKey =
     \<lparr>cr_alwaysShowActions =
        (messageIndex = int (length messages) - 1 \<and> m_from message = Assistant),
      cr_content = getMessageContent message,
      cr_isEditing = (editingKey = Some (m_key message))\<rparr>"

section \<open>Options and input (playground-option-utils.ts, input-control-utils.ts)\<close>

record ModelOption =
  mo_label :: string
  mo_value :: string

record GroupOption =
  go_label :: string
  go_value :: string
  go_ratio :: rat
  go_desc :: "string option"

definition getModelFallback :: "ModelOption list \<Rightarrow> string \<Rightarrow> string option" where
  "getModelFallback models currentModel =
     (if list_ex (\<lambda>model. mo_value model = currentModel) models \<or> models = [] then None
      else Some (mo_value (hd models)))"

definition shouldClearModelForGroup :: "ModelOption list \<Rightarrow> string \<Rightarrow> bool" where
  "shouldClearModelForGroup models currentModel =
     (if currentModel = [] then False
      else \<not> list_ex (\<lambda>model. mo_value model = currentModel) models)"

definition getGroupFallback :: "GroupOption list \<Rightarrow> string \<Rightarrow> string option" where
  "getGroupFallback groups currentGroup =
     (if list_ex (\<lambda>g. go_value g = currentGroup) groups \<or> groups = [] then None
      else
        (case find (\<lambda>g. go_value g = ''default'') groups of
           Some g \<Rightarrow> Some (go_value g)
         | None \<Rightarrow> Some (go_value (hd groups))))"

text \<open>\<open>error instanceof Error ? error.message : fallback\<close>; the argument is the message of the error when
  it is an \<open>Error\<close>.\<close>

definition getOptionLoadErrorMessage :: "string option \<Rightarrow> string \<Rightarrow> string" where
  "getOptionLoadErrorMessage error fallbackMessage = nullish error fallbackMessage"

text \<open>The effects of \<open>use-playground-options.ts\<close> on the selected model and group when the options have
  arrived.\<close>

definition select_model :: "ModelOption list \<Rightarrow> PlaygroundConfig \<Rightarrow> PlaygroundConfig" where
  "select_model modelsData config =
     (case getModelFallback modelsData (cf_model config) of
        Some fallback \<Rightarrow>
          if fallback \<noteq> [] then config\<lparr>cf_model := fallback\<rparr>
          else if shouldClearModelForGroup modelsData (cf_model config) then config\<lparr>cf_model := []\<rparr>
          else config
      | None \<Rightarrow>
          if shouldClearModelForGroup modelsData (cf_model config) then config\<lparr>cf_model := []\<rparr>
          else config)"

definition select_group :: "GroupOption list \<Rightarrow> PlaygroundConfig \<Rightarrow> PlaygroundConfig" where
  "select_group groupsData config =
     (case getGroupFallback groupsData (cf_group config) of
        Some fallback \<Rightarrow> if fallback \<noteq> [] then config\<lparr>cf_group := fallback\<rparr> else config
      | None \<Rightarrow> config)"

definition getSubmittableInputText :: "string option \<Rightarrow> bool option \<Rightarrow> string option" where
  "getSubmittableInputText message_text disabled =
     (if nullish disabled False then None
      else
        (case message_text of
           None \<Rightarrow> None
         | Some s \<Rightarrow> if trim s = [] then None else Some s))"

record InputControlState =
  ic_canSubmit :: bool
  ic_isSelectorDisabled :: bool
  ic_shouldShowStop :: bool

definition getInputControlState ::
    "bool option \<Rightarrow> GroupOption list \<Rightarrow> bool \<Rightarrow> bool option \<Rightarrow> bool option \<Rightarrow> ModelOption list \<Rightarrow> string
     \<Rightarrow> InputControlState" where
  "getInputControlState disabled groups hasStopHandler isGenerating isModelLoading models txt =
     \<lparr>ic_canSubmit = (\<not> nullish disabled False \<and> length models > 0 \<and> length (trim txt) > 0),
      ic_isSelectorDisabled =
        (nullish disabled False \<or> nullish isModelLoading False \<or> length groups = 0),
      ic_shouldShowStop = (nullish isGenerating False \<and> hasStopHandler)\<rparr>"

section \<open>Lemmas\<close>

lemma findIndex_Some:
  "findIndex p xs = Some i \<Longrightarrow> i < length xs \<and> p (xs ! i) \<and> (\<forall>j < i. \<not> p (xs ! j))"
  by (induction xs arbitrary: i) (auto split: if_splits simp: nth_Cons' less_Suc_eq_0_disj)

lemma findIndex_None: "findIndex p xs = None \<longleftrightarrow> (\<forall>x \<in> set xs. \<not> p x)"
  by (induction xs) auto

lemma slice_0 [simp]: "slice xs 0 n = take n xs"
  by (simp add: slice_def)

lemma edit_message_keeps [simp]:
  "m_key (edit_message k c b n m) = m_key m"
  "m_from (edit_message k c b n m) = m_from m"
  "m_status (edit_message k c b n m) = m_status m"
  by (simp_all add: edit_message_def)

lemma created_simps [simp]:
  "m_key (createUserMessage k v c n) = k"
  "m_from (createUserMessage k v c n) = User"
  "m_status (createUserMessage k v c n) = None"
  "m_key (createLoadingAssistantMessage k v n) = k"
  "m_from (createLoadingAssistantMessage k v n) = Assistant"
  "m_status (createLoadingAssistantMessage k v n) = Some Loading"
  "getMessageContent (createUserMessage k v c n) = c"
  "getMessageContent (createLoadingAssistantMessage k v n) = []"
  by (simp_all add: createUserMessage_def createLoadingAssistantMessage_def message_simps
      createMessageVersion_def)

lemma payload_append:
  "rq_messages (buildChatCompletionPayload (xs @ ys) cfg pe) =
   rq_messages (buildChatCompletionPayload xs cfg pe) @ rq_messages (buildChatCompletionPayload ys cfg pe)"
  by (simp add: buildChatCompletionPayload_def)

lemma payload_placeholder [simp]:
  "rq_messages (buildChatCompletionPayload [createLoadingAssistantMessage k v n] cfg pe) = []"
  by (simp add: buildChatCompletionPayload_def isValidMessage_def hasMessageContent_def trim_def trimEnd_def)

lemma payload_user [simp]:
  "rq_messages (buildChatCompletionPayload [createUserMessage k v c n] cfg pe) =
     [\<lparr>cm_role = User, cm_content = Text c\<rparr>]"
  by (simp add: buildChatCompletionPayload_def isValidMessage_def formatMessageForAPI_def
      createUserMessage_def message_simps createMessageVersion_def)

text \<open>C11: what a turn sends. A new message is sent after exactly the history it was typed under, and
  the empty placeholder of the answer is never part of the request; regenerating from a user message
  sends the history up to and including it, regenerating an answer sends the history before it, and a
  submitted edit of a user message sends the edited history up to it.\<close>

theorem turn_payload:
  "rq_messages (buildChatCompletionPayload (appendUserMessagePair ids now ms txt) cfg pe) =
     rq_messages (buildChatCompletionPayload ms cfg pe) @ [\<lparr>cm_role = User, cm_content = Text txt\<rparr>] \<and>
   (\<forall>i. findIndex (\<lambda>m. m_key m = k) ms = Some i \<longrightarrow>
     (\<exists>next. createRegeneratedMessages ids now ms k = Some next \<and>
        rq_messages (buildChatCompletionPayload next cfg pe) =
        rq_messages (buildChatCompletionPayload
          (take (if m_from (ms ! i) = User then i + 1 else i) ms) cfg pe)) \<and>
     (m_from (ms ! i) = User \<longrightarrow>
       (\<exists>r. applyMessageEdit ids now ms k txt True = Some r \<and> ae_shouldSend r \<and>
          rq_messages (buildChatCompletionPayload (ae_messages r) cfg pe) =
          rq_messages (buildChatCompletionPayload
            (map (edit_message k txt True now) (take (i + 1) ms)) cfg pe))))"
proof (intro conjI allI impI)
  show "rq_messages (buildChatCompletionPayload (appendUserMessagePair ids now ms txt) cfg pe) =
      rq_messages (buildChatCompletionPayload ms cfg pe) @ [\<lparr>cm_role = User, cm_content = Text txt\<rparr>]"
    using payload_append [of ms "[createUserMessage (id_user ids) (id_userVersion ids) txt now] @
      [createLoadingAssistantMessage (id_assistant ids) (id_assistantVersion ids) now]"]
      payload_append [of "[createUserMessage (id_user ids) (id_userVersion ids) txt now]"
        "[createLoadingAssistantMessage (id_assistant ids) (id_assistantVersion ids) now]"]
    by (simp add: appendUserMessagePair_def)
next
  fix i assume i: "findIndex (\<lambda>m. m_key m = k) ms = Some i"
  show "\<exists>next. createRegeneratedMessages ids now ms k = Some next \<and>
      rq_messages (buildChatCompletionPayload next cfg pe) =
      rq_messages (buildChatCompletionPayload (take (if m_from (ms ! i) = User then i + 1 else i) ms) cfg pe)"
    using i by (simp add: createRegeneratedMessages_def payload_append)
  assume u: "m_from (ms ! i) = User"
  show "\<exists>r. applyMessageEdit ids now ms k txt True = Some r \<and> ae_shouldSend r \<and>
      rq_messages (buildChatCompletionPayload (ae_messages r) cfg pe) =
      rq_messages (buildChatCompletionPayload (map (edit_message k txt True now) (take (i + 1) ms)) cfg pe)"
    using i u findIndex_Some [OF i] by (simp add: applyMessageEdit_def payload_append take_map)
qed

theorem turn_payload_witness:
  "\<exists>next. createRegeneratedMessages \<lparr>id_user = [], id_userVersion = [], id_assistant = ''c'', id_assistantVersion = ''w''\<rparr>
       9 [createUserMessage ''a'' ''v'' ''hi'' 5] ''a'' = Some next \<and>
     rq_messages (buildChatCompletionPayload next DEFAULT_CONFIG DEFAULT_PARAMETER_ENABLED) =
       [\<lparr>cm_role = User, cm_content = Text ''hi''\<rparr>]"
  using turn_payload [of "\<lparr>id_user = [], id_userVersion = [], id_assistant = ''c'', id_assistantVersion = ''w''\<rparr>"
    9 "[createUserMessage ''a'' ''v'' ''hi'' 5]" "''x''" DEFAULT_CONFIG DEFAULT_PARAMETER_ENABLED "''a''"]
  by simp

definition keys_fresh :: "message_ids \<Rightarrow> Message list \<Rightarrow> bool" where
  "keys_fresh ids ms \<longleftrightarrow>
     id_user ids \<notin> set (map m_key ms) \<and> id_assistant ids \<notin> set (map m_key ms) \<and>
     id_user ids \<noteq> id_assistant ids"

lemma distinct_take_snoc:
  "distinct (map f xs) \<Longrightarrow> f y \<notin> set (map f xs) \<Longrightarrow> distinct (map f (take n xs @ [y]))"
  by (auto simp: take_map [symmetric] dest: in_set_takeD)

lemma edit_keys: "map m_key (map (edit_message k c b n) ms) = map m_key ms"
  by (simp add: comp_def)

text \<open>C12: every operation on the conversation keeps message keys unique, as long as \<open>nanoid()\<close> returns
  keys that are not in use; deleting a message removes that message only.\<close>

theorem conversation_keys_distinct:
  assumes "distinct (map m_key ms)" and "keys_fresh ids ms"
  shows "distinct (map m_key (appendUserMessagePair ids now ms txt)) \<and>
    (\<forall>next. createRegeneratedMessages ids now ms k = Some next \<longrightarrow> distinct (map m_key next)) \<and>
    (\<forall>r. applyMessageEdit ids now ms k txt b = Some r \<longrightarrow> distinct (map m_key (ae_messages r))) \<and>
    distinct (map m_key (removeMessageByKey ms k)) \<and>
    set (removeMessageByKey ms k) = {m \<in> set ms. m_key m \<noteq> k}"
proof (intro conjI allI impI)
  have f: "m_key (createLoadingAssistantMessage (id_assistant ids) v now) \<notin> set (map m_key ms)" for v
    using assms(2) by (auto simp: keys_fresh_def)
  show "distinct (map m_key (appendUserMessagePair ids now ms txt))"
    using assms by (auto simp: appendUserMessagePair_def keys_fresh_def)
  show "distinct (map m_key next)" if "createRegeneratedMessages ids now ms k = Some next" for "next"
    using that distinct_take_snoc [OF assms(1) f]
    by (auto simp: createRegeneratedMessages_def Let_def split: option.splits if_splits)
  show "distinct (map m_key (ae_messages r))" if "applyMessageEdit ids now ms k txt b = Some r" for r
  proof -
    have d: "distinct (map m_key (map (edit_message k txt b now) ms))"
      using assms(1) by (simp only: edit_keys)
    have g: "m_key (createLoadingAssistantMessage (id_assistant ids) v now)
        \<notin> set (map m_key (map (edit_message k txt b now) ms))" for v
      unfolding edit_keys by (rule f)
    show ?thesis
      using that d distinct_take_snoc [OF d g]
      by (auto simp: applyMessageEdit_def Let_def split: option.splits if_splits)
  qed
  show "distinct (map m_key (removeMessageByKey ms k))"
    using assms(1) by (simp add: removeMessageByKey_def distinct_map_filter)
  show "set (removeMessageByKey ms k) = {m \<in> set ms. m_key m \<noteq> k}"
    by (auto simp: removeMessageByKey_def)
qed

theorem conversation_keys_distinct_witness:
  "distinct (map m_key (appendUserMessagePair
     \<lparr>id_user = ''b'', id_userVersion = [], id_assistant = ''c'', id_assistantVersion = []\<rparr> 9
     [createUserMessage ''a'' ''v'' ''hi'' 5] ''yo''))"
  using conversation_keys_distinct [of "[createUserMessage ''a'' ''v'' ''hi'' 5]"
    "\<lparr>id_user = ''b'', id_userVersion = [], id_assistant = ''c'', id_assistantVersion = []\<rparr>" 9 "''yo''"]
  by (simp add: keys_fresh_def)

end
