(* ===== verification/ChatHandler.thy ===== *)
theory ChatHandler
  imports Conversation
begin

text \<open>
  The hooks that run a conversation: \<open>use-stream-request.ts\<close> (one server-sent-event stream at a time),
  \<open>use-chat-handler.ts\<close> (batching of chunks, completion, errors, non-streaming requests, stop) and
  \<open>use-playground-conversation.ts\<close> with the guards of the components that call them.

  The state holds the hooks' refs and React state. A state setter and the updater passed to
  \<open>onMessageUpdate\<close> act at once, in the order of the calls, which is the order in which React runs the
  queued updaters. The browser is explicit: an SSE source is a number, the sources that have not been
  closed are \<open>st_open\<close>; a request is its \<open>requestId\<close>, the ones without an answer are \<open>st_inflight\<close>, and
  an aborted controller is in \<open>st_aborted\<close>. Toasts and console output are not modelled.
\<close>

section \<open>State\<close>

record ChatState =
  st_messages :: "Message list"
  st_editingKey :: "string option"
  st_isRequesting :: bool
  st_isStreaming :: bool
  st_sseSource :: "nat option"
  st_isStreamComplete :: bool
  st_pendingContent :: string
  st_pendingReasoning :: string
  st_flushTimer :: bool
  st_requestId :: nat
  st_abortController :: "nat option"
  st_nextSource :: nat
  st_open :: "nat list"
  st_inflight :: "nat list"
  st_aborted :: "nat list"
  st_sent :: "ChatCompletionRequest list"

definition init_state :: "Message list \<Rightarrow> ChatState" where
  "init_state messages =
     \<lparr>st_messages = messages, st_editingKey = None, st_isRequesting = False, st_isStreaming = False,
      st_sseSource = None, st_isStreamComplete = False, st_pendingContent = [],
      st_pendingReasoning = [], st_flushTimer = False, st_requestId = 0, st_abortController = None,
      st_nextSource = 0, st_open = [], st_inflight = [], st_aborted = [], st_sent = []\<rparr>"

definition isGenerating :: "ChatState \<Rightarrow> bool" where
  "isGenerating s \<longleftrightarrow> st_isStreaming s \<or> st_isRequesting s"

section \<open>Streams (use-stream-request.ts)\<close>

definition close_source :: "nat option \<Rightarrow> ChatState \<Rightarrow> ChatState" where
  "close_source source s =
     (case source of None \<Rightarrow> s | Some n \<Rightarrow> s\<lparr>st_open := filter (\<lambda>x. x \<noteq> n) (st_open s)\<rparr>)"

definition closeActiveStream :: "nat option \<Rightarrow> ChatState \<Rightarrow> ChatState" where
  "closeActiveStream source s =
     (let s' = close_source (opt_or source (st_sseSource s)) s in
      if source = None \<or> st_sseSource s = source then
        s'\<lparr>st_sseSource := None, st_isStreaming := False\<rparr>
      else s')"

definition stopStream :: "ChatState \<Rightarrow> ChatState" where
  "stopStream s = closeActiveStream None s"

section \<open>Batching of chunks (use-chat-handler.ts)\<close>

text \<open>A chunk comes from parsed JSON and need not be a string: \<open>None\<close> is the \<open>TypeError\<close> of calling
  \<open>startsWith\<close> on another value.\<close>

definition mergePendingStreamChunk :: "string \<Rightarrow> jsv \<Rightarrow> string option" where
  "mergePendingStreamChunk currentChunk nextChunk =
     (if currentChunk = [] then Some (js_to_string nextChunk)
      else
        (case nextChunk of
           JStr n \<Rightarrow> Some (if startsWith n currentChunk then n else currentChunk @ n)
         | _ \<Rightarrow> None))"

text \<open>The updater of \<open>flushStreamUpdates\<close>: the reasoning chunk reads the clock once, the content chunk
  reads it after that.\<close>

definition flush_updater :: "(nat \<Rightarrow> rat) \<Rightarrow> string \<Rightarrow> string \<Rightarrow> Message \<Rightarrow> Message" where
  "flush_updater clk reasoning content message =
     (let updated = (if reasoning \<noteq> [] then applyStreamingChunk clk ReasoningChunk reasoning message
                     else message) in
      if content \<noteq> [] then applyStreamingChunk (\<lambda>i. clk (i + 1)) ContentChunk content updated
      else updated)"

definition flushStreamUpdates :: "(nat \<Rightarrow> rat) \<Rightarrow> ChatState \<Rightarrow> ChatState" where
  "flushStreamUpdates clk s =
     (let s' = s\<lparr>st_flushTimer := False\<rparr> in
      if st_pendingReasoning s = [] \<and> st_pendingContent s = [] then s'
      else
        s'\<lparr>st_pendingContent := [], st_pendingReasoning := [],
           st_messages := updateLastAssistantMessage (st_messages s)
             (flush_updater clk (st_pendingReasoning s) (st_pendingContent s))\<rparr>)"

definition scheduleStreamFlush :: "ChatState \<Rightarrow> ChatState" where
  "scheduleStreamFlush s = s\<lparr>st_flushTimer := True\<rparr>"

definition handleStreamUpdate :: "StreamChunkType \<Rightarrow> jsv \<Rightarrow> ChatState \<Rightarrow> ChatState option" where
  "handleStreamUpdate type chunk s =
     (case type of
        ContentChunk \<Rightarrow>
          map_option (\<lambda>c. scheduleStreamFlush (s\<lparr>st_pendingContent := c\<rparr>))
            (mergePendingStreamChunk (st_pendingContent s) chunk)
      | ReasoningChunk \<Rightarrow>
          map_option (\<lambda>c. scheduleStreamFlush (s\<lparr>st_pendingReasoning := c\<rparr>))
            (mergePendingStreamChunk (st_pendingReasoning s) chunk))"

definition getDisplayError :: "(string \<Rightarrow> string) \<Rightarrow> string \<Rightarrow> string" where
  "getDisplayError t error =
     (if error \<in> set ERROR_MESSAGES then t error
      else if endsWith error ('': '' @ CONNECTION_CLOSED) then
        take (length error - length CONNECTION_CLOSED) error @ t CONNECTION_CLOSED
      else error)"

definition handleStreamComplete :: "(nat \<Rightarrow> rat) \<Rightarrow> ChatState \<Rightarrow> ChatState" where
  "handleStreamComplete clk s =
     (let s' = (flushStreamUpdates clk s)\<lparr>st_isRequesting := False\<rparr> in
      s'\<lparr>st_messages := updateLastAssistantMessage (st_messages s')
           (\<lambda>message. if isAssistantMessageFinal message then message
                      else completeAssistantMessage (\<lambda>i. clk (i + 3)) message)\<rparr>)"

text \<open>The flag tells whether the handler threw: \<open>endsWith\<close> on an error that is not a string.\<close>

definition handleStreamError ::
    "(string \<Rightarrow> string) \<Rightarrow> (nat \<Rightarrow> rat) \<Rightarrow> jsv \<Rightarrow> jsv option \<Rightarrow> ChatState \<Rightarrow> ChatState \<times> bool" where
  "handleStreamError t clk error errorCode s =
     (let s' = (flushStreamUpdates clk s)\<lparr>st_isRequesting := False\<rparr> in
      case error of
        JStr e \<Rightarrow>
          (s'\<lparr>st_messages := updateAssistantMessageWithError (clk 3) (st_messages s')
                (getDisplayError t e) errorCode (t API_REQUEST_ERROR)\<rparr>, False)
      | _ \<Rightarrow> (s', True))"

section \<open>Stream events\<close>

definition handle_error ::
    "(string \<Rightarrow> string) \<Rightarrow> (nat \<Rightarrow> rat) \<Rightarrow> nat \<Rightarrow> jsv \<Rightarrow> jsv option \<Rightarrow> ChatState \<Rightarrow> ChatState" where
  "handle_error t clk source errorMessage errorCode s =
     (if st_isStreamComplete s then s
      else
        (case handleStreamError t clk errorMessage errorCode s of
           (s', threw) \<Rightarrow> if threw then s' else closeActiveStream (Some source) s'))"

text \<open>The loop over the updates of one event; the flag says that an update threw.\<close>

fun apply_updates :: "(StreamChunkType \<times> jsv) list \<Rightarrow> ChatState \<Rightarrow> ChatState \<times> bool" where
  "apply_updates [] s = (s, False)"
| "apply_updates ((ty, c) # us) s =
     (case handleStreamUpdate ty c s of
        None \<Rightarrow> (s, True)
      | Some s' \<Rightarrow> apply_updates us s')"

definition on_message ::
    "(string \<Rightarrow> string) \<Rightarrow> (nat \<Rightarrow> rat) \<Rightarrow> nat \<Rightarrow> string \<Rightarrow> ChatState \<Rightarrow> ChatState" where
  "on_message t clk source data s =
     (if isStreamDoneMessage data then
        handleStreamComplete clk (closeActiveStream (Some source) (s\<lparr>st_isStreamComplete := True\<rparr>))
      else
        (case parseStreamMessageUpdates data of
           None \<Rightarrow> handle_error t clk source (JStr PARSE_ERROR) None s
         | Some updates \<Rightarrow>
             (case apply_updates updates s of
                (s', threw) \<Rightarrow>
                  if threw then handle_error t clk source (JStr PARSE_ERROR) None s' else s')))"

definition on_error ::
    "(string \<Rightarrow> string) \<Rightarrow> (nat \<Rightarrow> rat) \<Rightarrow> nat \<Rightarrow> int option \<Rightarrow> string option \<Rightarrow> ChatState \<Rightarrow> ChatState" where
  "on_error t clk source readyState data s =
     (if isStreamClosedReadyState readyState then s
      else
        (let details = parseStreamErrorDetails data in
         handle_error t clk source (se_errorMessage details) (se_errorCode details) s))"

definition on_readystatechange ::
    "(string \<Rightarrow> string) \<Rightarrow> (nat \<Rightarrow> rat) \<Rightarrow> nat \<Rightarrow> int option \<Rightarrow> int option \<Rightarrow> ChatState \<Rightarrow> ChatState" where
  "on_readystatechange t clk source eventReadyState status s =
     (case getStreamReadyStateError eventReadyState status of
        None \<Rightarrow> s
      | Some errorMessage \<Rightarrow> handle_error t clk source (JStr errorMessage) None s)"

text \<open>\<open>starts\<close> says whether \<open>source.stream()\<close> returned; if it threw, the error handler runs.\<close>

definition sendStreamRequest ::
    "(string \<Rightarrow> string) \<Rightarrow> (nat \<Rightarrow> rat) \<Rightarrow> bool \<Rightarrow> ChatCompletionRequest \<Rightarrow> ChatState \<Rightarrow> ChatState" where
  "sendStreamRequest t clk starts payload s =
     (let source = st_nextSource s;
          s1 = close_source (st_sseSource s) s;
          s2 = s1\<lparr>st_nextSource := source + 1, st_open := st_open s1 @ [source],
                  st_sseSource := Some source, st_isStreamComplete := False, st_isStreaming := True,
                  st_sent := st_sent s1 @ [payload]\<rparr> in
      if starts then s2
      else closeActiveStream (Some source) (fst (handleStreamError t clk (JStr STREAM_START_ERROR) None s2)))"

section \<open>Requests (use-chat-handler.ts)\<close>

definition sendStreamingChat ::
    "(string \<Rightarrow> string) \<Rightarrow> (nat \<Rightarrow> rat) \<Rightarrow> bool \<Rightarrow> PlaygroundConfig \<Rightarrow> ParameterEnabled \<Rightarrow> Message list
     \<Rightarrow> ChatState \<Rightarrow> ChatState" where
  "sendStreamingChat t clk starts config parameterEnabled messages s =
     sendStreamRequest t clk starts (buildChatCompletionPayload messages config parameterEnabled)
       (s\<lparr>st_isRequesting := True\<rparr>)"

text \<open>\<open>sendNonStreamingChat\<close> up to its \<open>await\<close>, and what follows it.\<close>

definition sendNonStreamingChat ::
    "PlaygroundConfig \<Rightarrow> ParameterEnabled \<Rightarrow> Message list \<Rightarrow> ChatState \<Rightarrow> ChatState" where
  "sendNonStreamingChat config parameterEnabled messages s =
     (let requestId = st_requestId s + 1 in
      s\<lparr>st_requestId := requestId, st_abortController := Some requestId, st_isRequesting := True,
        st_inflight := st_inflight s @ [requestId],
        st_sent := st_sent s @ [buildChatCompletionPayload messages config parameterEnabled]\<rparr>)"

definition settle :: "nat \<Rightarrow> ChatState \<Rightarrow> ChatState" where
  "settle requestId s = s\<lparr>st_inflight := filter (\<lambda>x. x \<noteq> requestId) (st_inflight s)\<rparr>"

definition finally_request :: "nat \<Rightarrow> ChatState \<Rightarrow> ChatState" where
  "finally_request requestId s =
     (if st_requestId s = requestId then s\<lparr>st_abortController := None, st_isRequesting := False\<rparr>
      else s)"

definition on_response ::
    "(string \<Rightarrow> string) \<Rightarrow> (nat \<Rightarrow> rat) \<Rightarrow> nat \<Rightarrow> ChatCompletionResponse \<Rightarrow> ChatState \<Rightarrow> ChatState" where
  "on_response t clk requestId response s =
     finally_request requestId
       (let s' = settle requestId s in
        if requestId \<in> set (st_aborted s') then s'
        else if \<not> hasChatCompletionChoice response then
          fst (handleStreamError t clk (JStr API_REQUEST_ERROR) None s')
        else
          s'\<lparr>st_messages := updateLastAssistantMessage (st_messages s')
               (\<lambda>message. nullish (applyChatCompletionResponse clk response message) message)\<rparr>)"

definition on_reject ::
    "(string \<Rightarrow> string) \<Rightarrow> (nat \<Rightarrow> rat) \<Rightarrow> nat \<Rightarrow> RequestErrorLike option \<Rightarrow> ChatState \<Rightarrow> ChatState" where
  "on_reject t clk requestId error s =
     finally_request requestId
       (let s' = settle requestId s in
        if requestId \<in> set (st_aborted s') then s'
        else
          (let details = parseRequestErrorDetails error in
           fst (handleStreamError t clk (se_errorMessage details) (se_errorCode details) s')))"

definition sendChat ::
    "(string \<Rightarrow> string) \<Rightarrow> (nat \<Rightarrow> rat) \<Rightarrow> bool \<Rightarrow> PlaygroundConfig \<Rightarrow> ParameterEnabled \<Rightarrow> Message list
     \<Rightarrow> ChatState \<Rightarrow> ChatState" where
  "sendChat t clk starts config parameterEnabled messages s =
     (if cf_stream config then sendStreamingChat t clk starts config parameterEnabled messages s
      else sendNonStreamingChat config parameterEnabled messages s)"

definition stopGeneration :: "(nat \<Rightarrow> rat) \<Rightarrow> ChatState \<Rightarrow> ChatState" where
  "stopGeneration clk s =
     (let s1 = flushStreamUpdates clk (stopStream s);
          s2 = s1\<lparr>st_aborted := (case st_abortController s1 of
                    None \<Rightarrow> st_aborted s1 | Some r \<Rightarrow> st_aborted s1 @ [r]),
                  st_abortController := None, st_isRequesting := False\<rparr> in
      s2\<lparr>st_messages := updateLastAssistantMessage (st_messages s2)
           (\<lambda>message. if isAssistantMessagePending message
                      then completeAssistantMessage (\<lambda>i. clk (i + 3)) message else message)\<rparr>)"

section \<open>Conversation (use-playground-conversation.ts)\<close>

record send_env =
  se_ids :: message_ids
  se_now :: rat
  se_clk :: "nat \<Rightarrow> rat"
  se_starts :: bool
  se_config :: PlaygroundConfig
  se_enabled :: ParameterEnabled

definition send_in :: "(string \<Rightarrow> string) \<Rightarrow> send_env \<Rightarrow> Message list \<Rightarrow> ChatState \<Rightarrow> ChatState" where
  "send_in t e nextMessages s =
     sendChat t (se_clk e) (se_starts e) (se_config e) (se_enabled e) nextMessages
       (s\<lparr>st_messages := nextMessages\<rparr>)"

definition handleSendMessage ::
    "(string \<Rightarrow> string) \<Rightarrow> send_env \<Rightarrow> string \<Rightarrow> ChatState \<Rightarrow> ChatState" where
  "handleSendMessage t e txt s =
     send_in t e (appendUserMessagePair (se_ids e) (se_now e) (st_messages s) txt) s"

definition handleRegenerateMessage ::
    "(string \<Rightarrow> string) \<Rightarrow> send_env \<Rightarrow> string \<Rightarrow> ChatState \<Rightarrow> ChatState" where
  "handleRegenerateMessage t e messageKey s =
     (case createRegeneratedMessages (se_ids e) (se_now e) (st_messages s) messageKey of
        None \<Rightarrow> s
      | Some nextMessages \<Rightarrow> send_in t e nextMessages s)"

definition handleEditMessage :: "string \<Rightarrow> ChatState \<Rightarrow> ChatState" where
  "handleEditMessage messageKey s = s\<lparr>st_editingKey := Some messageKey\<rparr>"

definition handleEditOpenChange :: "bool \<Rightarrow> ChatState \<Rightarrow> ChatState" where
  "handleEditOpenChange isOpen s = (if \<not> isOpen then s\<lparr>st_editingKey := None\<rparr> else s)"

definition applyEdit ::
    "(string \<Rightarrow> string) \<Rightarrow> send_env \<Rightarrow> string \<Rightarrow> bool \<Rightarrow> ChatState \<Rightarrow> ChatState" where
  "applyEdit t e newContent shouldSubmit s =
     (case st_editingKey s of
        None \<Rightarrow> s
      | Some key \<Rightarrow>
          if key = [] then s
          else
            (case applyMessageEdit (se_ids e) (se_now e) (st_messages s) key newContent shouldSubmit of
               None \<Rightarrow> s
             | Some editResult \<Rightarrow>
                 (let s' = s\<lparr>st_editingKey := None\<rparr> in
                  if ae_shouldSend editResult then send_in t e (ae_messages editResult) s'
                  else s'\<lparr>st_messages := ae_messages editResult\<rparr>)))"

definition handleDeleteMessage :: "string \<Rightarrow> ChatState \<Rightarrow> ChatState" where
  "handleDeleteMessage messageKey s =
     s\<lparr>st_messages := removeMessageByKey (st_messages s) messageKey\<rparr>"

definition handleClearMessages :: "ChatState \<Rightarrow> ChatState" where
  "handleClearMessages s = (handleEditOpenChange False s)\<lparr>st_messages := []\<rparr>"

section \<open>Steps\<close>

text \<open>
  One step per user action and per browser event, with the guards of the components: the input, the
  message actions and the clear button are disabled while \<open>isGenerating\<close>, the prompts of the empty
  chat and the open editor are not. The browser delivers no message event for a closed source, and
  gives a closed source the ready state 2 (sse.js); the body of a rejected request, when it has a
  message, has a string.
\<close>

inductive chat_step :: "(string \<Rightarrow> string) \<Rightarrow> ChatState \<Rightarrow> ChatState \<Rightarrow> bool" for t where
  send: "\<not> isGenerating s \<or> st_messages s = [] \<Longrightarrow> chat_step t s (handleSendMessage t e txt s)"
| regenerate: "\<not> isGenerating s \<Longrightarrow> chat_step t s (handleRegenerateMessage t e k s)"
| edit_start: "\<not> isGenerating s \<Longrightarrow> chat_step t s (handleEditMessage k s)"
| edit_open_change: "chat_step t s (handleEditOpenChange b s)"
| edit_apply: "chat_step t s (applyEdit t e txt b s)"
| delete: "\<not> isGenerating s \<Longrightarrow> chat_step t s (handleDeleteMessage k s)"
| clear: "\<not> isGenerating s \<Longrightarrow> chat_step t s (handleClearMessages s)"
| stop: "chat_step t s (stopGeneration clk s)"
| stream_message: "src \<in> set (st_open s) \<Longrightarrow> chat_step t s (on_message t clk src data s)"
| stream_error:
    "src < st_nextSource s \<Longrightarrow> src \<notin> set (st_open s) \<longrightarrow> readyState = Some 2 \<Longrightarrow>
     chat_step t s (on_error t clk src readyState data s)"
| stream_ready_state:
    "src < st_nextSource s \<Longrightarrow> chat_step t s (on_readystatechange t clk src readyState status s)"
| flush_timer: "st_flushTimer s \<Longrightarrow> chat_step t s (flushStreamUpdates clk s)"
| response: "r \<in> set (st_inflight s) \<Longrightarrow> chat_step t s (on_response t clk r resp s)"
| reject:
    "r \<in> set (st_inflight s) \<Longrightarrow> se_errorMessage (parseRequestErrorDetails err) = JStr m \<Longrightarrow>
     chat_step t s (on_reject t clk r err s)"

inductive chat_reachable :: "(string \<Rightarrow> string) \<Rightarrow> ChatState \<Rightarrow> bool" for t where
  start: "\<forall>m \<in> set ms. \<not> isPendingAssistantMessage (Some m) \<Longrightarrow> chat_reachable t (init_state ms)"
| step: "chat_reachable t s \<Longrightarrow> chat_step t s s' \<Longrightarrow> chat_reachable t s'"

section \<open>Invariant\<close>

definition no_pending :: "Message list \<Rightarrow> bool" where
  "no_pending ms \<longleftrightarrow> list_all (\<lambda>m. \<not> isPendingAssistantMessage (Some m)) ms"

definition stream_inv :: "ChatState \<Rightarrow> bool" where
  "stream_inv s \<longleftrightarrow>
     (st_isStreaming s \<longleftrightarrow> st_sseSource s \<noteq> None) \<and>
     set (st_open s) = set_option (st_sseSource s) \<and>
     list_all (\<lambda>x. x < st_nextSource s) (st_open s) \<and>
     (st_pendingContent s \<noteq> [] \<or> st_pendingReasoning s \<noteq> [] \<longrightarrow> st_flushTimer s \<and> st_isStreaming s)"

definition request_inv :: "ChatState \<Rightarrow> bool" where
  "request_inv s \<longleftrightarrow>
     (st_isRequesting s \<longrightarrow> st_isStreaming s \<or> st_requestId s \<in> set (st_inflight s)) \<and>
     list_all (\<lambda>r. r \<le> st_requestId s) (st_inflight s) \<and>
     list_all (\<lambda>r. r \<le> st_requestId s) (st_aborted s) \<and>
     (\<forall>r. st_abortController s = Some r \<longrightarrow> r = st_requestId s \<and> r \<in> set (st_inflight s))"

text \<open>An answer is awaited: a stream is open, or a request is marked that was not aborted.\<close>

definition awaiting :: "ChatState \<Rightarrow> bool" where
  "awaiting s \<longleftrightarrow>
     st_isStreaming s \<or> st_isRequesting s \<and> st_requestId s \<notin> set (st_aborted s)"

definition message_inv :: "ChatState \<Rightarrow> bool" where
  "message_inv s \<longleftrightarrow>
     no_pending (butlast (st_messages s)) \<and> (awaiting s \<or> no_pending (st_messages s))"

definition chat_inv :: "ChatState \<Rightarrow> bool" where
  "chat_inv s \<longleftrightarrow> stream_inv s \<and> request_inv s \<and> message_inv s"

lemma no_pending_simps [simp]:
  "no_pending []"
  "no_pending (m # ms) \<longleftrightarrow> \<not> isPendingAssistantMessage (Some m) \<and> no_pending ms"
  "no_pending (ms @ ms') \<longleftrightarrow> no_pending ms \<and> no_pending ms'"
  by (auto simp: no_pending_def)

lemma no_pending_take: "no_pending ms \<Longrightarrow> no_pending (take n ms)"
  by (auto simp: no_pending_def list_all_iff dest: in_set_takeD)

lemma no_pending_filter: "no_pending ms \<Longrightarrow> no_pending (filter p ms)"
  by (auto simp: no_pending_def list_all_iff)

lemma no_pending_butlast: "no_pending ms \<Longrightarrow> no_pending (butlast ms)"
  by (auto simp: no_pending_def list_all_iff dest: in_set_butlastD)

lemma no_pending_edit [simp]: "no_pending (map (edit_message k c b n) ms) \<longleftrightarrow> no_pending ms"
  by (simp add: no_pending_def list_all_iff isPendingAssistantMessage_def isAssistantMessagePending_def)

lemma pending_created [simp]:
  "\<not> isPendingAssistantMessage (Some (createUserMessage k v c n))"
  by (simp add: isPendingAssistantMessage_def)

lemma butlast_updateLast [simp]: "butlast (updateLastAssistantMessage ms u) = butlast ms"
  by (simp add: updateLastAssistantMessage_def butlast_list_update)

lemma no_pending_updateLast:
  assumes "no_pending (butlast ms)" and "\<And>m. m_from m = Assistant \<Longrightarrow> \<not> isPendingAssistantMessage (Some (u m))"
  shows "no_pending (updateLastAssistantMessage ms u)"
proof (cases ms rule: rev_cases)
  case (snoc xs m)
  then show ?thesis using assms by (auto simp: updateLast_snoc isPendingAssistantMessage_def)
qed simp

lemma no_pending_error [simp]:
  "no_pending (updateAssistantMessageWithError n ms e c ti) \<longleftrightarrow> no_pending (butlast ms)"
proof
  assume "no_pending (updateAssistantMessageWithError n ms e c ti)"
  then show "no_pending (butlast ms)"
    unfolding updateAssistantMessageWithError_def
    by (metis butlast_updateLast no_pending_butlast)
next
  assume "no_pending (butlast ms)"
  then show "no_pending (updateAssistantMessageWithError n ms e c ti)"
    unfolding updateAssistantMessageWithError_def
    by (rule no_pending_updateLast)
      (simp add: error_updater_def isPendingAssistantMessage_def isAssistantMessagePending_def)
qed

lemma butlast_error [simp]: "butlast (updateAssistantMessageWithError n ms e c ti) = butlast ms"
  by (simp add: updateAssistantMessageWithError_def)

lemma complete_final [simp]: "m_status (completeAssistantMessage clk m) = Some Complete"
  by (simp add: completeAssistantMessage_def)

lemma choice_final [simp]: "m_status (applyChatCompletionChoice clk c m) = Some Complete"
  by (simp add: applyChatCompletionChoice_def)

text \<open>What the building blocks of the handlers leave alone.\<close>

lemma flush_fields [simp]:
  "st_isStreaming (flushStreamUpdates clk s) = st_isStreaming s"
  "st_isRequesting (flushStreamUpdates clk s) = st_isRequesting s"
  "st_sseSource (flushStreamUpdates clk s) = st_sseSource s"
  "st_isStreamComplete (flushStreamUpdates clk s) = st_isStreamComplete s"
  "st_open (flushStreamUpdates clk s) = st_open s"
  "st_nextSource (flushStreamUpdates clk s) = st_nextSource s"
  "st_requestId (flushStreamUpdates clk s) = st_requestId s"
  "st_inflight (flushStreamUpdates clk s) = st_inflight s"
  "st_abortController (flushStreamUpdates clk s) = st_abortController s"
  "st_aborted (flushStreamUpdates clk s) = st_aborted s"
  "st_pendingContent (flushStreamUpdates clk s) = []"
  "st_pendingReasoning (flushStreamUpdates clk s) = []"
  "st_flushTimer (flushStreamUpdates clk s) = False"
  "butlast (st_messages (flushStreamUpdates clk s)) = butlast (st_messages s)"
  by (simp_all add: flushStreamUpdates_def Let_def)

lemma flush_idle:
  "st_pendingContent s = [] \<Longrightarrow> st_pendingReasoning s = [] \<Longrightarrow>
   st_messages (flushStreamUpdates clk s) = st_messages s"
  by (simp add: flushStreamUpdates_def)

lemma close_fields [simp]:
  "st_messages (closeActiveStream x s) = st_messages s"
  "st_isRequesting (closeActiveStream x s) = st_isRequesting s"
  "st_isStreamComplete (closeActiveStream x s) = st_isStreamComplete s"
  "st_nextSource (closeActiveStream x s) = st_nextSource s"
  "st_requestId (closeActiveStream x s) = st_requestId s"
  "st_inflight (closeActiveStream x s) = st_inflight s"
  "st_abortController (closeActiveStream x s) = st_abortController s"
  "st_aborted (closeActiveStream x s) = st_aborted s"
  "st_pendingContent (closeActiveStream x s) = st_pendingContent s"
  "st_pendingReasoning (closeActiveStream x s) = st_pendingReasoning s"
  "st_flushTimer (closeActiveStream x s) = st_flushTimer s"
  by (simp_all add: closeActiveStream_def close_source_def Let_def split: option.splits)

lemma close_stream [simp]:
  "st_isStreaming (closeActiveStream x s) = (st_isStreaming s \<and> x \<noteq> None \<and> st_sseSource s \<noteq> x)"
  "st_sseSource (closeActiveStream x s) =
     (if x = None \<or> st_sseSource s = x then None else st_sseSource s)"
  "set (st_open (closeActiveStream x s)) = set (st_open s) - set_option (opt_or x (st_sseSource s))"
  by (auto simp: closeActiveStream_def close_source_def Let_def opt_or_def split: option.splits)

lemma close_stream_inv:
  assumes "stream_inv s" and "st_pendingContent s = []" and "st_pendingReasoning s = []"
  shows "stream_inv (closeActiveStream x s)"
  using assms by (auto simp: stream_inv_def list_all_iff opt_or_def split: option.splits)

lemma stream_inv_flush: "stream_inv s \<Longrightarrow> stream_inv (flushStreamUpdates clk s)"
  by (simp add: stream_inv_def)

lemma stream_inv_upd [simp]:
  "stream_inv (s\<lparr>st_messages := ms\<rparr>) = stream_inv s"
  "stream_inv (s\<lparr>st_isRequesting := b\<rparr>) = stream_inv s"
  "stream_inv (s\<lparr>st_editingKey := k\<rparr>) = stream_inv s"
  "stream_inv (s\<lparr>st_inflight := l\<rparr>) = stream_inv s"
  "stream_inv (s\<lparr>st_abortController := a\<rparr>) = stream_inv s"
  "stream_inv (s\<lparr>st_aborted := l\<rparr>) = stream_inv s"
  "stream_inv (s\<lparr>st_requestId := n\<rparr>) = stream_inv s"
  "stream_inv (s\<lparr>st_sent := q\<rparr>) = stream_inv s"
  "stream_inv (s\<lparr>st_isStreamComplete := b\<rparr>) = stream_inv s"
  by (simp_all add: stream_inv_def)

lemma request_inv_upd [simp]:
  "request_inv (s\<lparr>st_messages := ms\<rparr>) = request_inv s"
  "request_inv (s\<lparr>st_editingKey := k\<rparr>) = request_inv s"
  "request_inv (s\<lparr>st_isStreamComplete := b\<rparr>) = request_inv s"
  "request_inv (flushStreamUpdates clk s) = request_inv s"
  by (simp_all add: request_inv_def)

lemma request_inv_idle: "request_inv s \<Longrightarrow> request_inv (s\<lparr>st_isRequesting := False\<rparr>)"
  by (simp add: request_inv_def)

lemma request_inv_close:
  "request_inv s \<Longrightarrow> \<not> st_isRequesting s \<Longrightarrow> request_inv (closeActiveStream x s)"
  by (simp add: request_inv_def)

text \<open>The error handler: the last answer fails, nothing is left to flush and no request is marked.\<close>

lemma handleStreamError_JStr:
  assumes "chat_inv s" and "handleStreamError t clk (JStr e) c s = (s', threw)"
  shows "\<not> threw" and "chat_inv s'" and "no_pending (st_messages s')" and "\<not> st_isRequesting s'"
    and "st_pendingContent s' = []" and "st_pendingReasoning s' = []"
    and "st_sseSource s' = st_sseSource s" and "st_inflight s' = st_inflight s"
    and "st_requestId s' = st_requestId s" and "st_nextSource s' = st_nextSource s"
  using assms
  by (auto simp: handleStreamError_def Let_def chat_inv_def message_inv_def awaiting_def
      stream_inv_flush request_inv_idle)

lemma handleStreamError_other:
  assumes "chat_inv s" and "handleStreamError t clk e c s = (s', True)" and "st_isStreaming s"
  shows "chat_inv s'"
  using assms
  by (auto simp: handleStreamError_def Let_def chat_inv_def message_inv_def awaiting_def
      stream_inv_flush request_inv_idle split: jsv.splits)

lemma chat_inv_close:
  assumes "chat_inv s" and "no_pending (st_messages s)" and "\<not> st_isRequesting s"
    and "st_pendingContent s = []" and "st_pendingReasoning s = []"
  shows "chat_inv (closeActiveStream x s)"
  using assms
  by (simp add: chat_inv_def close_stream_inv request_inv_close message_inv_def no_pending_butlast)

lemma handle_error_inv:
  assumes "chat_inv s" and "(\<exists>m. e = JStr m) \<or> st_isStreaming s"
  shows "chat_inv (handle_error t clk src e c s)"
proof (cases "handleStreamError t clk e c s")
  case (Pair s' threw)
  show ?thesis
  proof (cases "\<exists>m. e = JStr m")
    case True
    then obtain m where e: "e = JStr m" ..
    note h = handleStreamError_JStr [OF assms(1) Pair [unfolded e]]
    show ?thesis
      using assms(1) Pair h(1) chat_inv_close [OF h(2-6)] by (simp add: handle_error_def)
  next
    case False
    then have th: threw using Pair by (auto simp: handleStreamError_def Let_def split: jsv.splits)
    with False assms(2) have "st_isStreaming s" by blast
    from handleStreamError_other [OF assms(1) _ this] Pair th have "chat_inv s'" by simp
    then show ?thesis using assms(1) Pair th by (simp add: handle_error_def)
  qed
qed

lemma handleStreamUpdate_inv:
  assumes "chat_inv s" and "st_isStreaming s" and "handleStreamUpdate ty c s = Some s'"
  shows "chat_inv s' \<and> st_isStreaming s'"
  using assms
  by (cases ty) (auto simp: handleStreamUpdate_def scheduleStreamFlush_def chat_inv_def stream_inv_def
      request_inv_def message_inv_def awaiting_def)

lemma apply_updates_inv:
  "chat_inv s \<Longrightarrow> st_isStreaming s \<Longrightarrow> apply_updates us s = (s', threw) \<Longrightarrow>
   chat_inv s' \<and> st_isStreaming s'"
  by (induction us s rule: apply_updates.induct)
     (auto split: option.splits dest: handleStreamUpdate_inv)

lemma not_pending_final [simp]:
  "m_status m = Some Complete \<Longrightarrow> \<not> isPendingAssistantMessage (Some m)"
  by (simp add: isPendingAssistantMessage_def isAssistantMessagePending_def)

lemma handleStreamComplete_messages:
  assumes "no_pending (butlast (st_messages s))"
  shows "no_pending (st_messages (handleStreamComplete clk s))"
  unfolding handleStreamComplete_def Let_def
  using assms by (auto intro!: no_pending_updateLast dest: final_not_pending split: if_splits)

lemma on_message_inv:
  assumes inv: "chat_inv s" and src: "src \<in> set (st_open s)"
  shows "chat_inv (on_message t clk src data s)"
proof -
  have str: "st_isStreaming s" and cur: "st_sseSource s = Some src"
    using assms by (auto simp: chat_inv_def stream_inv_def)
  show ?thesis
  proof (cases "isStreamDoneMessage data")
    case True
    let ?s = "closeActiveStream (Some src) (s\<lparr>st_isStreamComplete := True\<rparr>)"
    have m: "no_pending (st_messages (handleStreamComplete clk ?s))"
      using inv by (intro handleStreamComplete_messages) (simp add: chat_inv_def message_inv_def)
    have "stream_inv (handleStreamComplete clk ?s)"
      using inv cur
      by (auto simp: handleStreamComplete_def Let_def chat_inv_def stream_inv_def list_all_iff opt_or_def)
    moreover have "request_inv (handleStreamComplete clk ?s)"
      using inv by (simp add: handleStreamComplete_def Let_def chat_inv_def request_inv_def)
    ultimately show ?thesis
      using m True by (simp add: on_message_def chat_inv_def message_inv_def no_pending_butlast)
  next
    case False
    then show ?thesis
      using inv str handle_error_inv apply_updates_inv [OF inv str]
      by (auto simp: on_message_def split: option.splits prod.splits)
  qed
qed

lemma on_error_inv:
  assumes "chat_inv s" and "src \<notin> set (st_open s) \<longrightarrow> rs = Some 2"
  shows "chat_inv (on_error t clk src rs data s)"
proof (cases "isStreamClosedReadyState rs")
  case False
  then have "src \<in> set (st_open s)" using assms(2) by (auto simp: isStreamClosedReadyState_def)
  then have "st_isStreaming s" using assms(1) by (auto simp: chat_inv_def stream_inv_def)
  with False assms(1) show ?thesis by (simp add: on_error_def Let_def handle_error_inv)
qed (simp add: on_error_def assms)

lemma stop_inv:
  assumes "chat_inv s"
  shows "chat_inv (stopGeneration clk s)" and "\<not> isGenerating (stopGeneration clk s)"
proof -
  have "no_pending (st_messages (stopGeneration clk s))"
    using assms unfolding stopGeneration_def Let_def
    by (auto intro!: no_pending_updateLast simp: stopStream_def chat_inv_def message_inv_def
        isPendingAssistantMessage_def isAssistantMessagePending_def split: if_splits)
  moreover have "stream_inv (stopGeneration clk s)"
    using assms by (simp add: stopGeneration_def Let_def stopStream_def stream_inv_def chat_inv_def opt_or_def
        list_all_iff)
  moreover have "request_inv (stopGeneration clk s)"
    using assms
    by (auto simp: stopGeneration_def Let_def stopStream_def request_inv_def chat_inv_def split: option.splits)
  ultimately show "chat_inv (stopGeneration clk s)"
    by (simp add: chat_inv_def message_inv_def no_pending_butlast)
  show "\<not> isGenerating (stopGeneration clk s)"
    by (simp add: isGenerating_def stopGeneration_def stopStream_def Let_def)
qed

lemma sendStream_inv:
  assumes "stream_inv s" and "request_inv s" and "no_pending (butlast (st_messages s))"
  shows "chat_inv (sendStreamRequest t clk starts payload (s\<lparr>st_isRequesting := True\<rparr>))"
proof -
  let ?n = "st_nextSource s"
  let ?s1 = "close_source (st_sseSource s) (s\<lparr>st_isRequesting := True\<rparr>)"
  let ?s2 = "?s1\<lparr>st_nextSource := ?n + 1, st_open := st_open ?s1 @ [?n],
      st_sseSource := Some ?n, st_isStreamComplete := False, st_isStreaming := True,
      st_sent := st_sent ?s1 @ [payload]\<rparr>"
  have "stream_inv ?s2"
    using assms(1) by (auto simp: stream_inv_def close_source_def list_all_iff split: option.splits)
  moreover have "request_inv ?s2"
    using assms(2) by (auto simp: request_inv_def close_source_def split: option.splits)
  moreover have "message_inv ?s2"
    using assms(3) by (auto simp: message_inv_def awaiting_def close_source_def split: option.splits)
  ultimately have s2: "chat_inv ?s2" by (simp add: chat_inv_def)
  show ?thesis
  proof (cases starts)
    case False
    obtain s3 threw where s3: "handleStreamError t clk (JStr STREAM_START_ERROR) None ?s2 = (s3, threw)"
      by (cases "handleStreamError t clk (JStr STREAM_START_ERROR) None ?s2")
    note h = handleStreamError_JStr [OF s2 s3]
    show ?thesis using False s3 chat_inv_close [OF h(2-6)] by (simp add: sendStreamRequest_def Let_def)
  qed (use s2 in \<open>simp add: sendStreamRequest_def Let_def\<close>)
qed

lemma send_in_inv:
  assumes "chat_inv s" and "no_pending (butlast ms)"
  shows "chat_inv (send_in t e ms s)"
proof (cases "cf_stream (se_config e)")
  case True
  then show ?thesis
    using assms sendStream_inv [of "s\<lparr>st_messages := ms\<rparr>"]
    by (simp add: send_in_def sendChat_def sendStreamingChat_def chat_inv_def)
next
  case False
  then show ?thesis
    using assms
    by (auto simp: send_in_def sendChat_def sendNonStreamingChat_def chat_inv_def message_inv_def
        awaiting_def request_inv_def list_all_iff Let_def)
qed

lemma finally_inv:
  assumes "stream_inv s" and "no_pending (butlast (st_messages s))"
    and "st_requestId s \<noteq> r \<Longrightarrow> request_inv s"
    and "st_requestId s \<noteq> r \<Longrightarrow> awaiting s \<or> no_pending (st_messages s)"
    and "st_requestId s = r \<Longrightarrow> st_isStreaming s \<or> no_pending (st_messages s)"
    and "list_all (\<lambda>x. x \<le> st_requestId s) (st_inflight s)"
    and "list_all (\<lambda>x. x \<le> st_requestId s) (st_aborted s)"
  shows "chat_inv (finally_request r s)"
  using assms
  by (auto simp: finally_request_def chat_inv_def message_inv_def awaiting_def request_inv_def)

lemma settle_fields [simp]:
  "st_messages (settle r s) = st_messages s"
  "st_aborted (settle r s) = st_aborted s"
  "st_requestId (settle r s) = st_requestId s"
  "st_isRequesting (settle r s) = st_isRequesting s"
  "st_isStreaming (settle r s) = st_isStreaming s"
  "st_abortController (settle r s) = st_abortController s"
  "st_inflight (settle r s) = filter (\<lambda>x. x \<noteq> r) (st_inflight s)"
  "stream_inv (settle r s) = stream_inv s"
  by (simp_all add: settle_def)

lemma request_inv_settle: "request_inv s \<Longrightarrow> st_requestId s \<noteq> r \<Longrightarrow> request_inv (settle r s)"
  by (simp add: request_inv_def list_all_iff) blast

text \<open>A request that is answered is taken out of flight before its continuation runs; until
  \<open>finally\<close>, the state satisfies everything but \<open>request_inv\<close> when it is the current one.\<close>

definition open_inv :: "ChatState \<Rightarrow> bool" where
  "open_inv s \<longleftrightarrow> stream_inv s \<and> no_pending (butlast (st_messages s)) \<and>
     list_all (\<lambda>x. x \<le> st_requestId s) (st_inflight s) \<and>
     list_all (\<lambda>x. x \<le> st_requestId s) (st_aborted s)"

lemma error_open:
  assumes "open_inv s" and "handleStreamError t clk (JStr e) c s = (s', threw)"
  shows "open_inv s'" and "no_pending (st_messages s')" and "st_requestId s' = st_requestId s"
    and "request_inv s \<Longrightarrow> request_inv s'"
  using assms
  by (auto simp: open_inv_def handleStreamError_def Let_def stream_inv_flush request_inv_idle)

lemma answered_inv:
  assumes "open_inv s" and "no_pending (st_messages s)" and "st_requestId s \<noteq> r \<Longrightarrow> request_inv s"
  shows "chat_inv (finally_request r s)"
  using assms by (intro finally_inv) (auto simp: open_inv_def)

lemma settle_open:
  "chat_inv s \<Longrightarrow> open_inv (settle r s) \<and> (st_requestId s \<noteq> r \<longrightarrow> request_inv (settle r s))"
  by (auto simp: chat_inv_def open_inv_def message_inv_def request_inv_settle)
     (auto simp: request_inv_def list_all_iff)

lemma answered_error:
  assumes "chat_inv s"
  shows "chat_inv (finally_request r (fst (handleStreamError t clk (JStr e) c (settle r s))))"
proof -
  obtain s' threw where h: "handleStreamError t clk (JStr e) c (settle r s) = (s', threw)"
    by (cases "handleStreamError t clk (JStr e) c (settle r s)")
  show ?thesis
    using error_open [OF _ h] settle_open [OF assms, of r] h by (auto intro!: answered_inv)
qed

lemma aborted_inv:
  assumes "chat_inv s" and "r \<in> set (st_aborted s)"
  shows "chat_inv (finally_request r (settle r s))"
proof (rule finally_inv)
  show "st_isStreaming (settle r s) \<or> no_pending (st_messages (settle r s))"
    if "st_requestId (settle r s) = r"
    using assms that by (auto simp: chat_inv_def message_inv_def awaiting_def)
qed (use assms settle_open [of s r] in
  \<open>auto simp: chat_inv_def message_inv_def awaiting_def open_inv_def\<close>)

lemma on_response_inv:
  assumes "chat_inv s"
  shows "chat_inv (on_response t clk r resp s)"
proof (cases "r \<in> set (st_aborted s)")
  case True
  then show ?thesis using aborted_inv [OF assms] by (simp add: on_response_def Let_def)
next
  case False
  show ?thesis
  proof (cases "first_choice resp")
    case None
    then show ?thesis
      using False answered_error [OF assms] by (simp add: on_response_def hasChatCompletionChoice_def)
  next
    case (Some c)
    let ?s = "(settle r s)\<lparr>st_messages := updateLastAssistantMessage (st_messages s)
      (applyChatCompletionChoice clk c)\<rparr>"
    have "no_pending (st_messages ?s)"
      using assms by (auto intro!: no_pending_updateLast simp: chat_inv_def message_inv_def)
    then have "chat_inv (finally_request r ?s)"
      using settle_open [OF assms, of r] by (intro answered_inv) (auto simp: open_inv_def)
    then show ?thesis
      using False Some
      by (simp add: on_response_def hasChatCompletionChoice_def applyChatCompletionResponse_def nullish_def)
  qed
qed

lemma applyEdit_inv:
  assumes "chat_inv s"
  shows "chat_inv (applyEdit t e txt b s)"
proof (cases "st_editingKey s")
  case (Some k)
  show ?thesis
  proof (cases "k = [] \<or> applyMessageEdit (se_ids e) (se_now e) (st_messages s) k txt b = None")
    case False
    then obtain r where r: "applyMessageEdit (se_ids e) (se_now e) (st_messages s) k txt b = Some r" by auto
    then obtain i where i: "findIndex (\<lambda>m. m_key m = k) (st_messages s) = Some i"
      by (auto simp: applyMessageEdit_def split: option.splits)
    note fi = findIndex_Some [OF i]
    have b: "no_pending (butlast (st_messages s))"
      using assms by (simp add: chat_inv_def message_inv_def)
    have inv: "chat_inv (s\<lparr>st_editingKey := None\<rparr>)"
      using assms by (simp add: chat_inv_def message_inv_def awaiting_def)
    show ?thesis
    proof (cases "ae_shouldSend r")
      case True
      let ?ms = "map (edit_message k txt b (se_now e)) (st_messages s)"
      have u: "m_from (st_messages s ! i) = User"
        and next_ms: "ae_messages r = take (i + 1) ?ms @
          [createLoadingAssistantMessage (id_assistant (se_ids e)) (id_assistantVersion (se_ids e)) (se_now e)]"
        using r i True fi by (auto simp: applyMessageEdit_def Let_def split: if_splits)
      have "no_pending (take i (st_messages s))"
        using no_pending_take [OF b, of i] fi by (simp add: take_butlast)
      then have "no_pending (take (i + 1) (st_messages s))"
        using fi u by (simp add: take_Suc_conv_app_nth isPendingAssistantMessage_def)
      then have "no_pending (butlast (ae_messages r))" by (simp add: next_ms take_map)
      then show ?thesis
        using False r True Some send_in_inv [OF inv] by (simp add: applyEdit_def Let_def)
    next
      case n: False
      then have "ae_messages r = map (edit_message k txt b (se_now e)) (st_messages s)"
        using r i by (auto simp: applyMessageEdit_def Let_def split: if_splits)
      then show ?thesis
        using False r n Some assms
        by (auto simp: applyEdit_def Let_def chat_inv_def message_inv_def awaiting_def map_butlast [symmetric])
    qed
  qed (use assms Some in \<open>auto simp: applyEdit_def\<close>)
qed (use assms in \<open>simp add: applyEdit_def\<close>)

lemma idle_no_pending: "chat_inv s \<Longrightarrow> \<not> isGenerating s \<Longrightarrow> no_pending (st_messages s)"
  by (auto simp: chat_inv_def message_inv_def awaiting_def isGenerating_def)

lemma regenerate_inv:
  assumes "chat_inv s" and "\<not> isGenerating s"
  shows "chat_inv (handleRegenerateMessage t e k s)"
  using assms idle_no_pending [OF assms]
  by (auto simp: handleRegenerateMessage_def createRegeneratedMessages_def Let_def no_pending_take
      split: option.splits if_splits intro!: send_in_inv)

lemma flush_inv:
  assumes "chat_inv s"
  shows "chat_inv (flushStreamUpdates clk s)"
proof (cases "st_pendingContent s = [] \<and> st_pendingReasoning s = []")
  case True
  then show ?thesis
    using assms flush_idle [of s clk]
    by (auto simp: chat_inv_def message_inv_def awaiting_def stream_inv_flush)
next
  case False
  then show ?thesis
    using assms by (auto simp: chat_inv_def message_inv_def awaiting_def stream_inv_flush)
      (auto simp: stream_inv_def)
qed

lemma send_inv:
  assumes "chat_inv s" and "\<not> isGenerating s \<or> st_messages s = []"
  shows "chat_inv (handleSendMessage t e c s)"
proof -
  have "no_pending (st_messages s)" using assms idle_no_pending [OF assms(1)] by auto
  then have "no_pending (butlast (appendUserMessagePair (se_ids e) (se_now e) (st_messages s) c))"
    by (simp add: appendUserMessagePair_def butlast_append)
  then show ?thesis unfolding handleSendMessage_def by (rule send_in_inv [OF assms(1)])
qed

lemma message_change_inv:
  assumes "chat_inv s" and "no_pending ms"
  shows "chat_inv (s\<lparr>st_messages := ms\<rparr>)"
  using assms by (simp add: chat_inv_def message_inv_def no_pending_butlast)

lemma editing_change_inv: "chat_inv s \<Longrightarrow> chat_inv (s\<lparr>st_editingKey := k\<rparr>)"
  by (simp add: chat_inv_def message_inv_def awaiting_def)

lemma on_reject_inv:
  assumes "chat_inv s" and "se_errorMessage (parseRequestErrorDetails err) = JStr m"
  shows "chat_inv (on_reject t clk r err s)"
  using assms aborted_inv [OF assms(1), of r] answered_error [OF assms(1), of r]
  by (cases "r \<in> set (st_aborted s)") (simp_all add: on_reject_def Let_def)

lemma on_readystatechange_inv:
  assumes "chat_inv s"
  shows "chat_inv (on_readystatechange t clk src rs st s)"
  using assms handle_error_inv [OF assms]
  by (cases "getStreamReadyStateError rs st") (simp_all add: on_readystatechange_def)

lemma chat_step_inv:
  assumes "chat_step t s s'" and inv: "chat_inv s"
  shows "chat_inv s'"
  using assms(1)
proof (cases rule: chat_step.cases)
  case (send e c)
  then show ?thesis using send_inv [OF inv] by simp
next
  case (regenerate e k)
  then show ?thesis using regenerate_inv [OF inv] by simp
next
  case (edit_start k)
  then show ?thesis using editing_change_inv [OF inv] by (simp add: handleEditMessage_def)
next
  case (edit_open_change b)
  then show ?thesis using inv editing_change_inv [OF inv] by (simp add: handleEditOpenChange_def)
next
  case (edit_apply e c b)
  then show ?thesis using applyEdit_inv [OF inv] by simp
next
  case (delete k)
  then show ?thesis
    using message_change_inv [OF inv no_pending_filter [OF idle_no_pending [OF inv]]]
    by (simp add: handleDeleteMessage_def removeMessageByKey_def)
next
  case clear
  then show ?thesis
    using message_change_inv [OF editing_change_inv [OF inv], of "[]"]
    by (simp add: handleClearMessages_def handleEditOpenChange_def)
next
  case (stop clk)
  then show ?thesis using stop_inv(1) [OF inv] by simp
next
  case (stream_message src clk data)
  then show ?thesis using on_message_inv [OF inv] by simp
next
  case (stream_error src rs clk data)
  then show ?thesis using on_error_inv [OF inv] by simp
next
  case (stream_ready_state src clk rs st)
  then show ?thesis using on_readystatechange_inv [OF inv] by simp
next
  case (flush_timer clk)
  then show ?thesis using flush_inv [OF inv] by simp
next
  case (response r clk resp)
  then show ?thesis using on_response_inv [OF inv] by simp
next
  case (reject r err m clk)
  then show ?thesis using on_reject_inv [OF inv] by simp
qed

lemma reachable_inv: "chat_reachable t s \<Longrightarrow> chat_inv s"
proof (induction rule: chat_reachable.induct)
  case (start ms)
  then show ?case
    by (simp add: chat_inv_def stream_inv_def request_inv_def message_inv_def init_state_def
        no_pending_butlast)
      (auto simp: no_pending_def list_all_iff dest: in_set_butlastD)
qed (rule chat_step_inv)

section \<open>Safety of the conversation\<close>

text \<open>C1: in every state the playground can reach, by any interleaving of user actions, stream events,
  timers and answers: an assistant message is pending only at the end of the conversation and only
  while the interface shows that it is generating; a chunk that has been received and not yet shown
  belongs to an open stream and has its flush scheduled; and the interface shows that it is requesting
  only while a stream is open or the current request is unanswered, so that it cannot stay so.\<close>

theorem no_stuck_answer:
  assumes "chat_reachable t s"
  shows "(\<not> isGenerating s \<longrightarrow> no_pending (st_messages s)) \<and>
    no_pending (butlast (st_messages s)) \<and>
    (st_pendingContent s \<noteq> [] \<or> st_pendingReasoning s \<noteq> [] \<longrightarrow>
       st_flushTimer s \<and> (\<exists>src. st_sseSource s = Some src \<and> src \<in> set (st_open s))) \<and>
    (isGenerating s \<longrightarrow> st_open s \<noteq> [] \<or> st_requestId s \<in> set (st_inflight s))"
proof -
  have inv: "chat_inv s" using assms by (rule reachable_inv)
  then have n: "no_pending (butlast (st_messages s))" by (simp add: chat_inv_def message_inv_def)
  have o: "st_isStreaming s \<Longrightarrow> \<exists>src. st_sseSource s = Some src \<and> src \<in> set (st_open s)"
    using inv by (auto simp: chat_inv_def stream_inv_def)
  have p: "st_pendingContent s \<noteq> [] \<or> st_pendingReasoning s \<noteq> [] \<Longrightarrow> st_flushTimer s \<and> st_isStreaming s"
    using inv unfolding chat_inv_def stream_inv_def by blast
  have r: "st_isRequesting s \<Longrightarrow> st_isStreaming s \<or> st_requestId s \<in> set (st_inflight s)"
    using inv by (simp add: chat_inv_def request_inv_def)
  show ?thesis using n o p r idle_no_pending [OF inv] by (auto simp: isGenerating_def)
qed

definition sample_env :: "bool \<Rightarrow> send_env" where
  "sample_env stream =
     \<lparr>se_ids = \<lparr>id_user = ''u'', id_userVersion = ''uv'', id_assistant = ''a'', id_assistantVersion = ''av''\<rparr>,
      se_now = 5, se_clk = (\<lambda>_. 6), se_starts = True,
      se_config = DEFAULT_CONFIG\<lparr>cf_stream := stream\<rparr>, se_enabled = DEFAULT_PARAMETER_ENABLED\<rparr>"

lemma init_empty_reachable: "chat_reachable t (init_state [])"
  by (rule chat_reachable.start) simp

lemma sample_send_reachable:
  "chat_reachable t (handleSendMessage t (sample_env b) ''hi'' (init_state []))"
  by (rule chat_reachable.step [OF init_empty_reachable chat_step.send]) (simp add: init_state_def)

theorem no_stuck_answer_witness:
  "isGenerating (handleSendMessage (\<lambda>s. s) (sample_env True) ''hi'' (init_state [])) \<and>
   st_open (handleSendMessage (\<lambda>s. s) (sample_env True) ''hi'' (init_state [])) \<noteq> []"
  using no_stuck_answer [OF sample_send_reachable, of "\<lambda>s. s" True]
  by (simp add: handleSendMessage_def send_in_def sendChat_def sendStreamingChat_def
      sendStreamRequest_def sample_env_def init_state_def isGenerating_def Let_def)



section \<open>What the handlers keep of the conversation\<close>

interpretation flush_upd: message_updater "flush_updater clk r c" for clk r c
  by unfold_locales (simp_all add: flush_updater_def Let_def)

interpretation final_upd: message_updater
  "\<lambda>m. if isAssistantMessageFinal m then m else completeAssistantMessage clk m" for clk
  by unfold_locales (simp_all add: complete_upd.upd_key complete_upd.upd_from)

interpretation stop_upd: message_updater
  "\<lambda>m. if isAssistantMessagePending m then completeAssistantMessage clk m else m" for clk
  by unfold_locales (simp_all add: complete_upd.upd_key complete_upd.upd_from)

interpretation response_upd: message_updater
  "\<lambda>m. nullish (applyChatCompletionResponse clk resp m) m" for clk resp
  by unfold_locales (simp_all add: applyChatCompletionResponse_def nullish_def choice_upd.upd_key
      choice_upd.upd_from split: option.splits)

text \<open>Two conversations with the same messages up to the content of the last one.\<close>

definition same_turns :: "Message list \<Rightarrow> Message list \<Rightarrow> bool" where
  "same_turns ms ms' \<longleftrightarrow>
     map m_key ms' = map m_key ms \<and> map m_from ms' = map m_from ms \<and> butlast ms' = butlast ms"

lemma same_turns_refl [simp]: "same_turns ms ms"
  by (simp add: same_turns_def)

lemma same_turns_trans: "same_turns a b \<Longrightarrow> same_turns b c \<Longrightarrow> same_turns a c"
  by (simp add: same_turns_def)

lemmas same_turns_updates =
  flush_upd.update_last_keys flush_upd.update_last_roles
  final_upd.update_last_keys final_upd.update_last_roles
  stop_upd.update_last_keys stop_upd.update_last_roles
  response_upd.update_last_keys response_upd.update_last_roles
  error_upd.update_last_keys error_upd.update_last_roles

lemma flush_same: "same_turns (st_messages s) (st_messages (flushStreamUpdates clk s))"
  by (simp add: flushStreamUpdates_def Let_def same_turns_def same_turns_updates)

lemma handleStreamError_same:
  "handleStreamError t clk e c s = (s', b) \<Longrightarrow> same_turns (st_messages s) (st_messages s')"
  using flush_same [of s clk]
  by (auto simp: handleStreamError_def Let_def same_turns_def updateAssistantMessageWithError_def
      same_turns_updates split: jsv.splits)

lemma handle_error_same: "same_turns (st_messages s) (st_messages (handle_error t clk src e c s))"
  using handleStreamError_same [of t clk e c s]
  by (simp add: handle_error_def split: prod.splits)

lemma apply_updates_messages: "apply_updates us s = (s', b) \<Longrightarrow> st_messages s' = st_messages s"
  by (induction us s rule: apply_updates.induct)
     (auto simp: handleStreamUpdate_def scheduleStreamFlush_def split: option.splits StreamChunkType.splits)

lemma on_message_same: "same_turns (st_messages s) (st_messages (on_message t clk src data s))"
proof (cases "isStreamDoneMessage data")
  case True
  have "same_turns (st_messages s)
      (st_messages (flushStreamUpdates clk (closeActiveStream (Some src) (s\<lparr>st_isStreamComplete := True\<rparr>))))"
    using flush_same [of "closeActiveStream (Some src) (s\<lparr>st_isStreamComplete := True\<rparr>)" clk] by simp
  then show ?thesis
    using True by (simp add: on_message_def handleStreamComplete_def Let_def same_turns_def same_turns_updates)
next
  case False
  have "same_turns (st_messages s) (st_messages (handle_error t clk src e c s'))"
    if "apply_updates us s = (s', b)" for us s' b e c
    using handle_error_same [of s' t clk src e c] apply_updates_messages [OF that] by simp
  then show ?thesis
    using False handle_error_same [of s t clk src] apply_updates_messages
    by (auto simp: on_message_def split: option.splits prod.splits)
qed

lemma finally_messages [simp]: "st_messages (finally_request r s) = st_messages s"
  by (simp add: finally_request_def)

lemma fst_error_same:
  "st_messages s = ms \<Longrightarrow> same_turns ms (st_messages (fst (handleStreamError t clk e c s)))"
  using handleStreamError_same [of t clk e c s] by (metis prod.collapse)

text \<open>C4: no event of a stream, no timer, no answer, no failure and no stop changes the turns of the
  conversation: keys and roles stay, and only the content of the last message may change.\<close>

theorem handlers_keep_turns:
  "same_turns (st_messages s) (st_messages (on_message t clk src data s)) \<and>
   same_turns (st_messages s) (st_messages (on_error t clk src rs edata s)) \<and>
   same_turns (st_messages s) (st_messages (on_readystatechange t clk src rs status s)) \<and>
   same_turns (st_messages s) (st_messages (flushStreamUpdates clk s)) \<and>
   same_turns (st_messages s) (st_messages (on_response t clk r resp s)) \<and>
   same_turns (st_messages s) (st_messages (on_reject t clk r err s)) \<and>
   same_turns (st_messages s) (st_messages (stopGeneration clk s))"
proof (intro conjI)
  show "same_turns (st_messages s) (st_messages (on_readystatechange t clk src rs status s))"
    by (simp add: on_readystatechange_def handle_error_same split: option.splits)
  show "same_turns (st_messages s) (st_messages (on_response t clk r resp s))"
    by (simp add: on_response_def Let_def fst_error_same same_turns_def [of _ "updateLastAssistantMessage _ _"]
        same_turns_updates)
  show "same_turns (st_messages s) (st_messages (stopGeneration clk s))"
    using flush_same [of "stopStream s" clk]
    by (simp add: stopGeneration_def stopStream_def Let_def same_turns_def same_turns_updates)
qed (simp_all add: on_message_same on_error_def Let_def handle_error_same flush_same on_reject_def fst_error_same)

section \<open>Batching does not change the text\<close>

text \<open>A history of a stream as the handler sees it: \<open>Some c\<close> is a content chunk, \<open>None\<close> is the flush
  timer; the end of the stream flushes. \<open>None\<close> as a result would be a chunk that made a handler throw.\<close>

fun deliver :: "(nat \<Rightarrow> rat) \<Rightarrow> string option list \<Rightarrow> ChatState \<Rightarrow> ChatState option" where
  "deliver clk [] s = Some (flushStreamUpdates clk s)"
| "deliver clk (None # es) s = deliver clk es (flushStreamUpdates clk s)"
| "deliver clk (Some c # es) s =
     Option.bind (handleStreamUpdate ContentChunk (JStr c) s) (deliver clk es)"

abbreviation chunks :: "string option list \<Rightarrow> string list" where
  "chunks \<equiv> List.map_filter (\<lambda>e. e)"

text \<open>The text shown and the text waiting, without the state around them.\<close>

fun run_text :: "string option list \<Rightarrow> string \<Rightarrow> string \<Rightarrow> string" where
  "run_text [] shown waiting = absorb shown waiting"
| "run_text (None # es) shown waiting = run_text es (absorb shown waiting) []"
| "run_text (Some c # es) shown waiting = run_text es shown (absorb waiting c)"

definition receiving :: "ChatState \<Rightarrow> bool" where
  "receiving s \<longleftrightarrow> st_messages s \<noteq> [] \<and> m_from (last (st_messages s)) = Assistant \<and>
     m_status (last (st_messages s)) \<noteq> Some Error \<and> st_pendingReasoning s = []"

abbreviation shown_text :: "ChatState \<Rightarrow> string" where
  "shown_text s \<equiv> getMessageContent (last (st_messages s))"

lemma absorb_Nil [simp]: "absorb [] c = c" "absorb c [] = c"
  by (auto simp: absorb_def startsWith_def)

lemma receive_chunk:
  "receiving s \<Longrightarrow> \<exists>s'. handleStreamUpdate ContentChunk (JStr c) s = Some s' \<and> receiving s' \<and>
     shown_text s' = shown_text s \<and> st_pendingContent s' = absorb (st_pendingContent s) c"
  by (auto simp: receiving_def handleStreamUpdate_def mergePendingStreamChunk_def scheduleStreamFlush_def
      absorb_def)

lemma last_updateLast:
  "ms \<noteq> [] \<Longrightarrow> m_from (last ms) = Assistant \<Longrightarrow> last (updateLastAssistantMessage ms u) = u (last ms)"
  by (cases ms rule: rev_cases) (auto simp: updateLast_snoc)

lemma updateLast_eq_Nil [simp]: "updateLastAssistantMessage ms u = [] \<longleftrightarrow> ms = []"
  by (simp add: updateLastAssistantMessage_def)

lemma chunk_status:
  "m_status m \<noteq> Some Error \<Longrightarrow> m_status (applyStreamingChunk clk ContentChunk c m) = Some Streaming"
  by (simp add: applyStreamingChunk_def Let_def)

lemma receive_flush:
  assumes "receiving s"
  shows "receiving (flushStreamUpdates clk s)"
    and "shown_text (flushStreamUpdates clk s) = absorb (shown_text s) (st_pendingContent s)"
proof -
  have "receiving (flushStreamUpdates clk s) \<and>
      shown_text (flushStreamUpdates clk s) = absorb (shown_text s) (st_pendingContent s)"
  proof (cases "st_pendingContent s = []")
    case True
    then show ?thesis using assms by (simp add: receiving_def flush_idle)
  next
    case False
    then show ?thesis
      using assms
      by (simp add: receiving_def flushStreamUpdates_def Let_def flush_updater_def last_updateLast
          chunk_content chunk_status)
  qed
  then show "receiving (flushStreamUpdates clk s)"
    and "shown_text (flushStreamUpdates clk s) = absorb (shown_text s) (st_pendingContent s)" by auto
qed

lemma deliver_text:
  "receiving s \<Longrightarrow> \<exists>s'. deliver clk es s = Some s' \<and> st_pendingContent s' = [] \<and>
     shown_text s' = run_text es (shown_text s) (st_pendingContent s)"
proof (induction clk es s rule: deliver.induct)
  case (3 clk c es s)
  then show ?case using receive_chunk [of s c] by auto
qed (simp_all add: receive_flush)

text \<open>A stream of deltas: no run of consecutive chunks begins with the run of chunks before it, which is
  what the handler takes for a snapshot.\<close>

definition deltas :: "string list \<Rightarrow> bool" where
  "deltas cs \<longleftrightarrow>
     (\<forall>p a b q. cs = p @ a @ b @ q \<and> a \<noteq> [] \<and> b \<noteq> [] \<longrightarrow> \<not> startsWith (concat b) (concat a))"

definition snapshots :: "string list \<Rightarrow> bool" where
  "snapshots cs \<longleftrightarrow> [] \<notin> set cs \<and> sorted_wrt (\<lambda>x y. startsWith y x) cs"

lemma deltas_absorb:
  assumes "deltas (p @ a @ b @ q)"
  shows "absorb (concat a) (concat b) = concat (a @ b)"
proof (cases "a = [] \<or> b = []")
  case False
  then have "\<not> startsWith (concat b) (concat a)" using assms unfolding deltas_def by blast
  then show ?thesis by (simp add: absorb_def)
qed auto

lemma run_deltas:
  "deltas (a @ b @ chunks es) \<Longrightarrow> run_text es (concat a) (concat b) = concat (a @ b @ chunks es)"
proof (induction es arbitrary: a b)
  case Nil
  then show ?case using deltas_absorb [of "[]" a b "[]"] by (simp add: List.map_filter_def)
next
  case (Cons e es)
  show ?case
  proof (cases e)
    case None
    then show ?thesis
      using Cons.IH [of "a @ b" "[]"] Cons.prems deltas_absorb [of "[]" a b "chunks es"]
      by (simp add: List.map_filter_def)
  next
    case (Some c)
    then show ?thesis
      using Cons.IH [of a "b @ [c]"] Cons.prems deltas_absorb [of a b "[c]" "chunks es"]
      by (simp add: List.map_filter_def)
  qed
qed

lemma run_snapshots:
  assumes "snapshots (chunks es)" and "\<forall>c \<in> set (chunks es). startsWith c shown \<and> startsWith c waiting"
    and "waiting = [] \<or> startsWith waiting shown"
  shows "run_text es shown waiting = last (absorb shown waiting # chunks es)"
  using assms
proof (induction es arbitrary: shown waiting)
  case (Cons e es)
  show ?case
  proof (cases e)
    case None
    have "absorb shown waiting = (if waiting = [] then shown else waiting)"
      using Cons.prems(3) by (cases "waiting = []"; cases "shown = []") (simp_all add: absorb_def [of shown waiting])
    then show ?thesis
      using Cons.prems Cons.IH [of "absorb shown waiting" "[]"] None
      by (auto simp: List.map_filter_def startsWith_def)
  next
    case (Some c)
    have "absorb waiting c = c" and "absorb shown c = c"
      using Cons.prems(2) Some by (auto simp: absorb_def List.map_filter_def)
    then show ?thesis
      using Cons.prems Cons.IH [of shown c] Some
      by (auto simp: List.map_filter_def snapshots_def)
  qed
qed (simp add: List.map_filter_def)



text \<open>Outside these two kinds of streams the timer does matter: the same three deltas give two texts.\<close>

lemma batching_depends_on_timer:
  "run_text [Some ''a'', None, Some ''b'', Some ''ab''] [] [] = ''abab''"
  "run_text [Some ''a'', None, Some ''b'', None, Some ''ab''] [] [] = ''ab''"
  by (simp_all add: absorb_def startsWith_def)

text \<open>\<open>sendStreamRequest\<close> does not clear the chunks that wait for the flush timer: when an edit is
  submitted while an answer streams, the buffered text of the old answer ends up in the new one.\<close>

lemma buffered_text_reaches_new_answer:
  assumes "st_pendingContent s \<noteq> []" and "cf_stream (se_config e)" and "se_starts e"
  shows "st_pendingContent (send_in t e ms s) = st_pendingContent s \<and>
         st_messages (send_in t e ms s) = ms \<and>
         st_messages (flushStreamUpdates clk (send_in t e ms s)) =
           updateLastAssistantMessage ms (flush_updater clk (st_pendingReasoning s) (st_pendingContent s))"
  using assms
  by (simp add: send_in_def sendChat_def sendStreamingChat_def sendStreamRequest_def Let_def
      flushStreamUpdates_def close_source_def split: option.splits)

end
