(* ===== verification/Storage.thy ===== *)
theory Storage
  imports Conversation
begin

text \<open>
  Persistence of the playground: \<open>lib/storage/storage.ts\<close> and \<open>lib/state/playground-state-utils.ts\<close>.

  \<open>localStorage\<close> is a map from keys to texts; \<open>fits\<close> says whether \<open>setItem\<close> accepts a value (it throws
  when the quota is exceeded). The zod schemas are parameters: \<open>schema v\<close> is the value that
  \<open>parse\<close> returns for a JSON value, \<open>None\<close> when it throws, and \<open>json_of\<close> gives the JSON value of a typed
  one, with the key order that the schema decides. Lengths of texts count characters.
\<close>

type_synonym storage = "string \<Rightarrow> string option"

section \<open>Raw values\<close>

definition STORAGE_KEY_CONFIG :: string where "STORAGE_KEY_CONFIG = ''playground_config''"
definition STORAGE_KEY_MESSAGES :: string where "STORAGE_KEY_MESSAGES = ''playground_messages''"
definition STORAGE_KEY_PARAMETER_ENABLED :: string where
  "STORAGE_KEY_PARAMETER_ENABLED = ''playground_parameter_enabled''"

definition STORAGE_VERSION :: rat where "STORAGE_VERSION = 1"
definition MAX_STORED_MESSAGES :: nat where "MAX_STORED_MESSAGES = 100"
definition MAX_STORED_MESSAGES_BYTES :: nat where "MAX_STORED_MESSAGES_BYTES = 1024 * 1024"
definition MAX_LOADED_MESSAGES_CHARS :: nat where "MAX_LOADED_MESSAGES_CHARS = 120000"
definition MAX_LOADED_MESSAGE_CHARS :: nat where "MAX_LOADED_MESSAGE_CHARS = 40000"

text \<open>The result of a read: \<open>Inl ()\<close> is the exception of \<open>JSON.parse\<close>, \<open>Inr None\<close> is \<open>null\<close>.\<close>

type_synonym 'a read_result = "unit + 'a option"

definition parse_or_throw :: "string \<Rightarrow> jsv read_result" where
  "parse_or_throw saved = (case JSON_parse saved of None \<Rightarrow> Inl () | Some v \<Rightarrow> Inr (Some v))"

definition readStoredValue :: "string \<Rightarrow> storage \<Rightarrow> jsv read_result" where
  "readStoredValue key store =
     (case store key of
        None \<Rightarrow> Inr None
      | Some saved \<Rightarrow> if saved = [] then Inr None else parse_or_throw saved)"

definition readStoredMessagesValue :: "storage \<Rightarrow> jsv read_result \<times> storage" where
  "readStoredMessagesValue store =
     (case store STORAGE_KEY_MESSAGES of
        None \<Rightarrow> (Inr None, store)
      | Some saved \<Rightarrow>
          if saved = [] then (Inr None, store)
          else if length saved > MAX_STORED_MESSAGES_BYTES then
            (Inr None, store(STORAGE_KEY_MESSAGES := None))
          else (parse_or_throw saved, store))"

definition unwrapStoredValue :: "jsv \<Rightarrow> jsv" where
  "unwrapStoredValue value =
     (case value of
        JObj kvs \<Rightarrow>
          (case (map_of kvs ''version'', map_of kvs ''data'') of
             (Some _, Some d) \<Rightarrow> d
           | _ \<Rightarrow> value)
      | _ \<Rightarrow> value)"

definition StoredEnvelope :: "jsv \<Rightarrow> jsv" where
  "StoredEnvelope data = JObj [(''version'', JNum STORAGE_VERSION), (''data'', data)]"

definition writeStoredValue ::
    "(storage \<Rightarrow> string \<Rightarrow> string \<Rightarrow> bool) \<Rightarrow> string \<Rightarrow> jsv \<Rightarrow> storage \<Rightarrow> storage option" where
  "writeStoredValue fits key data store =
     (let text = stringify (StoredEnvelope data) in
      if fits store key text then Some (store(key := Some text)) else None)"

section \<open>Trimming\<close>

definition trimMessages :: "Message list \<Rightarrow> Message list" where
  "trimMessages messages =
     (if length messages \<le> MAX_STORED_MESSAGES then messages
      else drop (length messages - MAX_STORED_MESSAGES) messages)"

definition getMessageSize :: "Message \<Rightarrow> nat" where
  "getMessageSize message =
     foldl (\<lambda>total version. total + length (v_content version)) 0 (m_versions message)
     + (case m_reasoning message of None \<Rightarrow> 0 | Some r \<Rightarrow> length (rs_content r))"

definition TRUNCATED_CONTENT_SUFFIX :: string where
  "TRUNCATED_CONTENT_SUFFIX = [CHR 0x0A, CHR 0x0A] @ ''[...]''"

definition truncateText :: "string \<Rightarrow> nat \<Rightarrow> string" where
  "truncateText text maxLength =
     (if length text \<le> maxLength then text
      else if maxLength \<le> length TRUNCATED_CONTENT_SUFFIX then take maxLength text
      else take (maxLength - length TRUNCATED_CONTENT_SUFFIX) text @ TRUNCATED_CONTENT_SUFFIX)"

text \<open>The loop of \<open>trimMessagesByContentSize\<close>, from the index below which messages are left.\<close>

fun size_loop :: "Message list \<Rightarrow> nat \<Rightarrow> nat \<Rightarrow> Message list \<Rightarrow> Message list" where
  "size_loop messages 0 totalSize result = result"
| "size_loop messages (Suc index) totalSize result =
     (let message = messages ! index; messageSize = getMessageSize message in
      if result \<noteq> [] \<and> totalSize + messageSize > MAX_LOADED_MESSAGES_CHARS then result
      else size_loop messages index (totalSize + messageSize) (result @ [message]))"

definition trimMessagesByContentSize :: "Message list \<Rightarrow> Message list" where
  "trimMessagesByContentSize messages = rev (size_loop messages (length messages) 0 [])"

section \<open>Repeated sections\<close>

text \<open>
  A match of \<open>/^#{2,6}\s+\d+\.\s+.+$/m\<close> that starts at the beginning of the text, by its length. The
  first three runs have one way to match; the second white space gives characters back to \<open>.+\<close>
  when the text ends after it.
\<close>

definition is_newline :: "char \<Rightarrow> bool" where
  "is_newline c \<longleftrightarrow> c = CHR 0x0A \<or> c = CHR 0x0D"

definition rest_of_line :: "string \<Rightarrow> nat" where
  "rest_of_line s = length (takeWhile (\<lambda>c. \<not> is_newline c) s)"

fun give_back :: "string \<Rightarrow> nat \<Rightarrow> nat option" where
  "give_back w 0 = None"
| "give_back w (Suc k) =
     (if k \<ge> 1 \<and> k < length w \<and> \<not> is_newline (w ! k) then Some (k + rest_of_line (drop k w))
      else give_back w k)"

definition match_title :: "string \<Rightarrow> nat option" where
  "match_title s =
     (let w = takeWhile is_ws s; r = dropWhile is_ws s in
      if w = [] then None
      else if r \<noteq> [] then Some (length w + rest_of_line r)
      else give_back w (length w))"

definition match_heading :: "string \<Rightarrow> nat option" where
  "match_heading s =
     (let h = takeWhile (\<lambda>c. c = CHR ''#'') s; s1 = drop (length h) s;
          w = takeWhile is_ws s1; s2 = drop (length w) s1;
          d = takeWhile is_digit s2; s3 = drop (length d) s2 in
      if 2 \<le> length h \<and> length h \<le> 6 \<and> w \<noteq> [] \<and> d \<noteq> [] then
        (case s3 of
           [] \<Rightarrow> None
         | c # s4 \<Rightarrow>
             if c = CHR ''.'' then
               map_option (\<lambda>n. length h + length w + length d + 1 + n) (match_title s4)
             else None)
      else None)"

record SectionOccurrence =
  so_heading :: string
  so_index :: nat

text \<open>\<open>matchAll\<close> from position \<open>pos\<close>, which is at the start of a line when the character before it ends
  one; after a match the search goes on behind it.\<close>

function find_sections :: "string \<Rightarrow> nat \<Rightarrow> SectionOccurrence list" where
  "find_sections text pos =
     (if length text \<le> pos then []
      else if pos = 0 \<or> is_newline (text ! (pos - 1)) then
        (case match_heading (drop pos text) of
           None \<Rightarrow> find_sections text (pos + 1)
         | Some n \<Rightarrow>
             \<lparr>so_heading = take n (drop pos text), so_index = pos\<rparr> # find_sections text (pos + max n 1))
      else find_sections text (pos + 1))"
  by pat_completeness auto
termination
  by (relation "measure (\<lambda>(text, pos). length text - pos)") auto

declare find_sections.simps [simp del]

definition getSectionOccurrences :: "string \<Rightarrow> SectionOccurrence list" where
  "getSectionOccurrences text = find_sections text 0"

definition getHeadingCounts :: "SectionOccurrence list \<Rightarrow> (string \<times> nat) list" where
  "getHeadingCounts occurrences =
     foldl (\<lambda>counts occ. map_set (so_heading occ) (nullish (map_of counts (so_heading occ)) 0 + 1) counts)
       [] occurrences"

fun last_repeated ::
    "SectionOccurrence list \<Rightarrow> (string \<times> nat) list \<Rightarrow> nat \<Rightarrow> string list \<Rightarrow> nat list \<Rightarrow> nat list" where
  "last_repeated occurrences counts 0 seenHeadings indexes = indexes"
| "last_repeated occurrences counts (Suc i) seenHeadings indexes =
     (let occ = occurrences ! i; count = nullish (map_of counts (so_heading occ)) 0 in
      if count < 3 \<or> so_heading occ \<in> set seenHeadings then
        last_repeated occurrences counts i seenHeadings indexes
      else last_repeated occurrences counts i (set_add seenHeadings (so_heading occ))
             (indexes @ [so_index occ]))"

definition findLastRepeatedSectionRunStart :: "string \<Rightarrow> nat option" where
  "findLastRepeatedSectionRunStart text =
     (let occurrences = getSectionOccurrences text;
          headingCounts = getHeadingCounts occurrences;
          lastRepeatedIndexes = last_repeated occurrences headingCounts (length occurrences) [] [] in
      if lastRepeatedIndexes = [] then None else Some (Min (set lastRepeatedIndexes)))"

definition collapseRepeatedSectionSnapshots :: "string \<Rightarrow> string" where
  "collapseRepeatedSectionSnapshots text =
     (if length text < 2000 then text
      else (case findLastRepeatedSectionRunStart text of None \<Rightarrow> text | Some i \<Rightarrow> drop i text))"

section \<open>Loading and saving\<close>

definition norm_version :: "MessageVersion \<Rightarrow> MessageVersion \<times> bool" where
  "norm_version version =
     (let collapsedContent = collapseRepeatedSectionSnapshots (v_content version);
          content = truncateText collapsedContent MAX_LOADED_MESSAGE_CHARS in
      if content = v_content version \<and> collapsedContent = v_content version then (version, False)
      else (version\<lparr>v_content := content\<rparr>, True))"

definition normalizeStoredMessageForLoad :: "(nat \<Rightarrow> rat) \<Rightarrow> Message \<Rightarrow> Message" where
  "normalizeStoredMessageForLoad clk message =
     (let versions = map norm_version (m_versions message);
          reasoning = map_option (\<lambda>r. r\<lparr>rs_content := truncateText (rs_content r) MAX_LOADED_MESSAGE_CHARS\<rparr>)
            (m_reasoning message);
          changed = (list_ex snd versions \<or>
            map_option rs_content reasoning \<noteq> map_option rs_content (m_reasoning message));
          normalized =
            (if changed then message\<lparr>m_versions := map fst versions, m_reasoning := reasoning\<rparr>
             else message) in
      if \<not> isAssistantMessagePending normalized then normalized
      else
        (let hasContent = hasMessageContent normalized;
             hasReasoning = (case m_reasoning normalized of
               None \<Rightarrow> False | Some r \<Rightarrow> trim (rs_content r) \<noteq> []) in
         if \<not> hasContent \<and> \<not> hasReasoning then normalized
         else
           (let completedAt =
                  nullish (m_completedAt normalized)
                    (nullish (Option.bind (m_reasoning normalized) rs_completedAt)
                      (nullish (m_startedAt normalized)
                        (nullish (m_createdAt normalized) (clk 0)))) in
            completeAssistantTiming
              ((finalizeMessage (\<lambda>i. clk (i + 1)) normalized None)
                 \<lparr>m_status := Some Complete, m_isReasoningStreaming := Some False\<rparr>)
              completedAt)))"

definition saveMessages ::
    "(jsv \<Rightarrow> Message list option) \<Rightarrow> (Message list \<Rightarrow> jsv) \<Rightarrow> (storage \<Rightarrow> string \<Rightarrow> string \<Rightarrow> bool)
     \<Rightarrow> Message list \<Rightarrow> storage \<Rightarrow> storage" where
  "saveMessages schema json_of fits messages store =
     (case schema (json_of (trimMessages messages)) of
        None \<Rightarrow> store
      | Some parsed \<Rightarrow>
          (case writeStoredValue fits STORAGE_KEY_MESSAGES (json_of parsed) store of
             None \<Rightarrow> store
           | Some store' \<Rightarrow> store'))"

text \<open>What \<open>loadMessages\<close> makes of the parsed messages: the \<open>i\<close>-th message is normalised with the clock
  \<open>clks i\<close>, and the repair reads the clock after all of them.\<close>

definition repair_loaded :: "(string \<Rightarrow> string) \<Rightarrow> (nat \<Rightarrow> nat \<Rightarrow> rat) \<Rightarrow> Message list \<Rightarrow> Message list" where
  "repair_loaded t clks parsed =
     sanitizeMessagesOnLoad t (clks (length parsed))
       (trimMessagesByContentSize (trimMessages
         (map (\<lambda>(i, message). normalizeStoredMessageForLoad (clks i) message) (List.enumerate 0 parsed))))"

text \<open>\<open>trimMessagesByContentSize\<close> always builds a new array, so the test \<open>sizeTrimmed !== trimmed\<close> of
  \<open>loadMessages\<close> is always true and the loaded messages are written back each time.\<close>

definition loadMessages ::
    "(jsv \<Rightarrow> Message list option) \<Rightarrow> (Message list \<Rightarrow> jsv) \<Rightarrow> (storage \<Rightarrow> string \<Rightarrow> string \<Rightarrow> bool)
     \<Rightarrow> (string \<Rightarrow> string) \<Rightarrow> (nat \<Rightarrow> nat \<Rightarrow> rat) \<Rightarrow> storage \<Rightarrow> Message list option \<times> storage" where
  "loadMessages schema json_of fits t clks store =
     (case readStoredMessagesValue store of
        (Inl _, store') \<Rightarrow> (None, store')
      | (Inr None, store') \<Rightarrow> (None, store')
      | (Inr (Some saved), store') \<Rightarrow>
          if \<not> truthy saved then (None, store')
          else
            (case schema (unwrapStoredValue saved) of
               None \<Rightarrow> (None, store')
             | Some parsed \<Rightarrow>
                 (let sanitized = repair_loaded t clks parsed in
                  (Some sanitized, saveMessages schema json_of fits sanitized store'))))"

text \<open>Settings: \<open>loadConfig\<close> and \<open>saveConfig\<close>, \<open>loadParameterEnabled\<close> and \<open>saveParameterEnabled\<close> differ in
  their key and schema only; \<open>none\<close> is the object without properties.\<close>

definition load_settings :: "string \<Rightarrow> (jsv \<Rightarrow> 'c option) \<Rightarrow> 'c \<Rightarrow> storage \<Rightarrow> 'c" where
  "load_settings key schema none store =
     (case readStoredValue key store of
        Inr (Some saved) \<Rightarrow>
          if \<not> truthy saved then none
          else (case schema (unwrapStoredValue saved) of None \<Rightarrow> none | Some c \<Rightarrow> c)
      | _ \<Rightarrow> none)"

definition save_settings ::
    "string \<Rightarrow> (jsv \<Rightarrow> 'c option) \<Rightarrow> ('c \<Rightarrow> jsv) \<Rightarrow> (storage \<Rightarrow> string \<Rightarrow> string \<Rightarrow> bool) \<Rightarrow> 'c \<Rightarrow> storage
     \<Rightarrow> storage" where
  "save_settings key schema json_of fits config store =
     (case schema (json_of config) of
        None \<Rightarrow> store
      | Some parsed \<Rightarrow>
          (case writeStoredValue fits key (json_of parsed) store of
             None \<Rightarrow> store | Some store' \<Rightarrow> store'))"

definition clearPlaygroundData :: "storage \<Rightarrow> storage" where
  "clearPlaygroundData store =
     store(STORAGE_KEY_CONFIG := None, STORAGE_KEY_PARAMETER_ENABLED := None, STORAGE_KEY_MESSAGES := None)"

record PartialConfig =
  pc_model :: "string option"
  pc_group :: "string option"
  pc_temperature :: "rat option"
  pc_top_p :: "rat option"
  pc_max_tokens :: "rat option"
  pc_frequency_penalty :: "rat option"
  pc_presence_penalty :: "rat option"
  pc_seed :: "rat option option"
  pc_stream :: "bool option"

definition empty_config :: PartialConfig where
  "empty_config = \<lparr>pc_model = None, pc_group = None, pc_temperature = None, pc_top_p = None,
     pc_max_tokens = None, pc_frequency_penalty = None, pc_presence_penalty = None, pc_seed = None,
     pc_stream = None\<rparr>"

definition loadConfig :: "(jsv \<Rightarrow> PartialConfig option) \<Rightarrow> storage \<Rightarrow> PartialConfig" where
  "loadConfig schema store = load_settings STORAGE_KEY_CONFIG schema empty_config store"

definition saveConfig ::
    "(jsv \<Rightarrow> PartialConfig option) \<Rightarrow> (PartialConfig \<Rightarrow> jsv) \<Rightarrow> (storage \<Rightarrow> string \<Rightarrow> string \<Rightarrow> bool)
     \<Rightarrow> PartialConfig \<Rightarrow> storage \<Rightarrow> storage" where
  "saveConfig schema json_of fits config store =
     save_settings STORAGE_KEY_CONFIG schema json_of fits config store"

record PartialEnabled =
  pn_temperature :: "bool option"
  pn_top_p :: "bool option"
  pn_max_tokens :: "bool option"
  pn_frequency_penalty :: "bool option"
  pn_presence_penalty :: "bool option"
  pn_seed :: "bool option"

definition empty_enabled :: PartialEnabled where
  "empty_enabled = \<lparr>pn_temperature = None, pn_top_p = None, pn_max_tokens = None, pn_frequency_penalty = None,
     pn_presence_penalty = None, pn_seed = None\<rparr>"

definition loadParameterEnabled :: "(jsv \<Rightarrow> PartialEnabled option) \<Rightarrow> storage \<Rightarrow> PartialEnabled" where
  "loadParameterEnabled schema store = load_settings STORAGE_KEY_PARAMETER_ENABLED schema empty_enabled store"

definition saveParameterEnabled ::
    "(jsv \<Rightarrow> PartialEnabled option) \<Rightarrow> (PartialEnabled \<Rightarrow> jsv) \<Rightarrow> (storage \<Rightarrow> string \<Rightarrow> string \<Rightarrow> bool)
     \<Rightarrow> PartialEnabled \<Rightarrow> storage \<Rightarrow> storage" where
  "saveParameterEnabled schema json_of fits parameterEnabled store =
     save_settings STORAGE_KEY_PARAMETER_ENABLED schema json_of fits parameterEnabled store"

definition getInitialParameterEnabled :: "(jsv \<Rightarrow> PartialEnabled option) \<Rightarrow> storage \<Rightarrow> ParameterEnabled" where
  "getInitialParameterEnabled schema store =
     (let p = loadParameterEnabled schema store; d = DEFAULT_PARAMETER_ENABLED in
      \<lparr>pe_temperature = nullish (pn_temperature p) (pe_temperature d),
       pe_top_p = nullish (pn_top_p p) (pe_top_p d),
       pe_max_tokens = nullish (pn_max_tokens p) (pe_max_tokens d),
       pe_frequency_penalty = nullish (pn_frequency_penalty p) (pe_frequency_penalty d),
       pe_presence_penalty = nullish (pn_presence_penalty p) (pe_presence_penalty d),
       pe_seed = nullish (pn_seed p) (pe_seed d)\<rparr>)"

definition getInitialMessages ::
    "(jsv \<Rightarrow> Message list option) \<Rightarrow> (Message list \<Rightarrow> jsv) \<Rightarrow> (storage \<Rightarrow> string \<Rightarrow> string \<Rightarrow> bool)
     \<Rightarrow> (string \<Rightarrow> string) \<Rightarrow> (nat \<Rightarrow> nat \<Rightarrow> rat) \<Rightarrow> storage \<Rightarrow> Message list \<times> storage" where
  "getInitialMessages schema json_of fits t clks store =
     (case loadMessages schema json_of fits t clks store of (loaded, store') \<Rightarrow> (nullish loaded [], store'))"

datatype MessageStateUpdater = NewMessages "Message list" | MessagesUpdate "Message list \<Rightarrow> Message list"

definition applyMessageStateUpdate :: "Message list \<Rightarrow> MessageStateUpdater \<Rightarrow> Message list" where
  "applyMessageStateUpdate previousMessages updater =
     (case updater of NewMessages ms \<Rightarrow> ms | MessagesUpdate f \<Rightarrow> f previousMessages)"

definition getInitialPlaygroundConfig :: "(jsv \<Rightarrow> PartialConfig option) \<Rightarrow> storage \<Rightarrow> PlaygroundConfig" where
  "getInitialPlaygroundConfig schema store =
     (let c = loadConfig schema store; d = DEFAULT_CONFIG in
      \<lparr>cf_model = nullish (pc_model c) (cf_model d), cf_group = nullish (pc_group c) (cf_group d),
       cf_temperature = nullish (pc_temperature c) (cf_temperature d),
       cf_top_p = nullish (pc_top_p c) (cf_top_p d),
       cf_max_tokens = nullish (pc_max_tokens c) (cf_max_tokens d),
       cf_frequency_penalty = nullish (pc_frequency_penalty c) (cf_frequency_penalty d),
       cf_presence_penalty = nullish (pc_presence_penalty c) (cf_presence_penalty d),
       cf_seed = nullish (pc_seed c) (cf_seed d), cf_stream = nullish (pc_stream c) (cf_stream d)\<rparr>)"

section \<open>Trimming keeps the end of the conversation\<close>

lemma trimMessages_suffix:
  "trimMessages ms = drop (length ms - MAX_STORED_MESSAGES) ms" "length (trimMessages ms) \<le> MAX_STORED_MESSAGES"
  by (auto simp: trimMessages_def)

lemma size_loop_suffix:
  assumes "i \<le> length ms"
  shows "\<exists>k \<le> i. size_loop ms i (sum_list (map getMessageSize (drop i ms))) (rev (drop i ms)) = rev (drop k ms) \<and>
    (k < i \<longrightarrow> k = length ms - 1 \<or> sum_list (map getMessageSize (drop k ms)) \<le> MAX_LOADED_MESSAGES_CHARS) \<and>
    (0 < k \<longrightarrow> k < length ms \<and>
       MAX_LOADED_MESSAGES_CHARS < sum_list (map getMessageSize (drop (k - 1) ms)))"
  using assms
proof (induction i)
  case (Suc i)
  let ?size = "\<lambda>j. sum_list (map getMessageSize (drop j ms))"
  have d: "drop i ms = ms ! i # drop (Suc i) ms" using Suc.prems by (simp add: Cons_nth_drop_Suc)
  show ?case
  proof (cases "drop (Suc i) ms \<noteq> [] \<and> ?size (Suc i) + getMessageSize (ms ! i) > MAX_LOADED_MESSAGES_CHARS")
    case True
    then show ?thesis by (intro exI [of _ "Suc i"]) (auto simp: d Let_def)
  next
    case False
    have eq: "size_loop ms (Suc i) (?size (Suc i)) (rev (drop (Suc i) ms)) = size_loop ms i (?size i) (rev (drop i ms))"
      using False by (auto simp: d Let_def add.commute)
    from Suc.IH [OF Suc_leD [OF Suc.prems]] obtain k where
      k: "k \<le> i \<and> size_loop ms i (?size i) (rev (drop i ms)) = rev (drop k ms) \<and>
        (k < i \<longrightarrow> k = length ms - 1 \<or> ?size k \<le> MAX_LOADED_MESSAGES_CHARS) \<and>
        (0 < k \<longrightarrow> k < length ms \<and> MAX_LOADED_MESSAGES_CHARS < ?size (k - 1))"
      by (rule exE)
    have i: "i = length ms - 1 \<or> ?size i \<le> MAX_LOADED_MESSAGES_CHARS"
      using False Suc.prems by (auto simp: d)
    have "k = length ms - 1 \<or> ?size k \<le> MAX_LOADED_MESSAGES_CHARS"
      using k i by (cases "k = i") (simp, linarith)
    with k show ?thesis unfolding eq by (intro exI [of _ k]) linarith
  qed
qed simp

abbreviation content_size :: "Message list \<Rightarrow> nat" where
  "content_size ms \<equiv> sum_list (map getMessageSize ms)"

lemma trim_size_cases:
  "\<exists>k \<le> length ms. trimMessagesByContentSize ms = drop k ms \<and>
     (k < length ms \<longrightarrow> k = length ms - 1 \<or> content_size (drop k ms) \<le> MAX_LOADED_MESSAGES_CHARS) \<and>
     (0 < k \<longrightarrow> k < length ms \<and> MAX_LOADED_MESSAGES_CHARS < content_size (drop (k - 1) ms))"
  using size_loop_suffix [of "length ms" ms] by (auto simp: trimMessagesByContentSize_def)

text \<open>C14: trimming a loaded conversation by size keeps its most recent messages, as many as fit: the
  result is a suffix, it is not empty unless the conversation is, it stays within 120000 characters
  unless it is a single message, and one more message would exceed them.\<close>

theorem content_trim_longest_suffix:
  "\<exists>k. trimMessagesByContentSize ms = drop k ms \<and>
     (trimMessagesByContentSize ms = [] \<longleftrightarrow> ms = []) \<and>
     (length (trimMessagesByContentSize ms) \<le> 1 \<or>
      content_size (trimMessagesByContentSize ms) \<le> MAX_LOADED_MESSAGES_CHARS) \<and>
     (k = 0 \<or> MAX_LOADED_MESSAGES_CHARS < content_size (drop (k - 1) ms))"
proof -
  obtain k where "k \<le> length ms" "trimMessagesByContentSize ms = drop k ms"
    "k < length ms \<longrightarrow> k = length ms - 1 \<or> content_size (drop k ms) \<le> MAX_LOADED_MESSAGES_CHARS"
    "0 < k \<longrightarrow> k < length ms \<and> MAX_LOADED_MESSAGES_CHARS < content_size (drop (k - 1) ms)"
    using trim_size_cases by blast
  then show ?thesis by (intro exI [of _ k]) auto
qed

lemma trim_size_small: "content_size ms \<le> MAX_LOADED_MESSAGES_CHARS \<Longrightarrow> trimMessagesByContentSize ms = ms"
proof -
  assume small: "content_size ms \<le> MAX_LOADED_MESSAGES_CHARS"
  obtain k where k: "trimMessagesByContentSize ms = drop k ms"
    "0 < k \<longrightarrow> MAX_LOADED_MESSAGES_CHARS < content_size (drop (k - 1) ms)"
    using trim_size_cases by blast
  have "content_size (drop j ms) \<le> content_size ms" for j
    by (metis append_take_drop_id le_add2 map_append sum_list_append)
  then have "content_size (drop (k - 1) ms) \<le> MAX_LOADED_MESSAGES_CHARS" using small le_trans by blast
  with k(2) have "k = 0" by auto
  with k(1) show ?thesis by simp
qed

section \<open>Saving and loading\<close>

lemma envelope_simps [simp]:
  "unwrapStoredValue (StoredEnvelope d) = d"
  "truthy (StoredEnvelope d)"
  "json_wf (StoredEnvelope d) = json_wf d"
  by (simp_all add: unwrapStoredValue_def StoredEnvelope_def STORAGE_VERSION_def)

lemma envelope_text: "stringify (StoredEnvelope d) \<noteq> []"
  by (simp add: StoredEnvelope_def)

lemma parse_envelope:
  "json_wf d \<Longrightarrow> parse_or_throw (stringify (StoredEnvelope d)) = Inr (Some (StoredEnvelope d))"
  by (simp add: parse_or_throw_def json.dec_enc)

text \<open>A message that loading leaves alone: it is not pending and its texts are short.\<close>

definition settled :: "Message \<Rightarrow> bool" where
  "settled m \<longleftrightarrow> \<not> isAssistantMessagePending m \<and>
     list_all (\<lambda>v. length (v_content v) < 2000) (m_versions m) \<and>
     (case m_reasoning m of None \<Rightarrow> True | Some r \<Rightarrow> length (rs_content r) \<le> MAX_LOADED_MESSAGE_CHARS)"

lemma truncate_short [simp]: "length s \<le> n \<Longrightarrow> truncateText s n = s"
  by (simp add: truncateText_def)

lemma norm_version_short: "length (v_content v) < 2000 \<Longrightarrow> norm_version v = (v, False)"
  by (simp add: norm_version_def collapseRepeatedSectionSnapshots_def MAX_LOADED_MESSAGE_CHARS_def)

lemma normalize_settled: "settled m \<Longrightarrow> normalizeStoredMessageForLoad clk m = m"
proof -
  assume s: "settled m"
  have "map norm_version (m_versions m) = map (\<lambda>v. (v, False)) (m_versions m)"
    using s by (auto simp: settled_def list_all_iff norm_version_short)
  moreover have "map_option rs_content (map_option
      (\<lambda>r. r\<lparr>rs_content := truncateText (rs_content r) MAX_LOADED_MESSAGE_CHARS\<rparr>) (m_reasoning m)) =
      map_option rs_content (m_reasoning m)"
    using s by (auto simp: settled_def split: option.splits)
  ultimately show ?thesis
    using s by (simp add: normalizeStoredMessageForLoad_def Let_def settled_def list_ex_iff)
qed

lemma repair_settled:
  assumes "list_all settled ms" and "length ms \<le> MAX_STORED_MESSAGES"
    and "content_size ms \<le> MAX_LOADED_MESSAGES_CHARS"
  shows "repair_loaded t clks ms = ms"
proof -
  have "map (\<lambda>(i, message). normalizeStoredMessageForLoad (clks i) message) (List.enumerate 0 ms) =
      map snd (List.enumerate 0 ms)"
  proof (rule map_cong [OF refl])
    fix x assume "x \<in> set (List.enumerate 0 ms)"
    then have "snd x \<in> set ms" by (metis in_set_enumerate_eq add_0_right diff_zero nth_mem)
    with assms(1) show "(case x of (i, message) \<Rightarrow> normalizeStoredMessageForLoad (clks i) message) = snd x"
      by (cases x) (simp add: list_all_iff normalize_settled)
  qed
  then have n: "map (\<lambda>(i, message). normalizeStoredMessageForLoad (clks i) message) (List.enumerate 0 ms) = ms"
    by simp
  have "last_pending ms (length ms) = None"
    using assms(1) by (auto simp: last_pending_None settled_def list_all_length isPendingAssistantMessage_def)
  then show ?thesis
    using assms n
    by (simp add: repair_loaded_def trimMessages_def trim_size_small sanitizeMessagesOnLoad_def)
qed

lemma save_load_settled:
  assumes "list_all settled ms" and "length ms \<le> MAX_STORED_MESSAGES"
    and "content_size ms \<le> MAX_LOADED_MESSAGES_CHARS"
    and "schema (json_of ms) = Some ms" and "json_wf (json_of ms)"
    and "\<forall>st k x. fits st k x"
    and "length (stringify (StoredEnvelope (json_of ms))) \<le> MAX_STORED_MESSAGES_BYTES"
  shows "loadMessages schema json_of fits t clks (saveMessages schema json_of fits ms store) =
         (Some ms, saveMessages schema json_of fits ms store)"
proof -
  let ?text = "stringify (StoredEnvelope (json_of ms))"
  have tr: "trimMessages ms = ms" using assms(2) by (simp add: trimMessages_def)
  have sv: "saveMessages schema json_of fits ms st = st(STORAGE_KEY_MESSAGES := Some ?text)" for st
    using assms(4,6) by (simp add: saveMessages_def tr writeStoredValue_def)
  have rd: "readStoredMessagesValue (store(STORAGE_KEY_MESSAGES := Some ?text)) =
      (Inr (Some (StoredEnvelope (json_of ms))), store(STORAGE_KEY_MESSAGES := Some ?text))"
    using parse_envelope [OF assms(5)] assms(7) envelope_text
    by (simp add: readStoredMessagesValue_def)
  show ?thesis
    using assms(4) repair_settled [OF assms(1-3), of t clks] by (simp add: sv loadMessages_def rd Let_def)
qed



text \<open>Settings that the schema accepts are read back, and saving them leaves the other keys alone.\<close>

lemma save_settings_accepted:
  assumes "schema (json_of c) = Some c" "\<forall>st k x. fits st k x"
  shows "save_settings key schema json_of fits c store = store(key := Some (stringify (StoredEnvelope (json_of c))))"
  using assms by (simp add: save_settings_def writeStoredValue_def)

lemma settings_roundtrip:
  assumes "schema (json_of c) = Some c" "json_wf (json_of c)" "\<forall>st k x. fits st k x"
  shows "load_settings key schema none (save_settings key schema json_of fits c store) = c"
  unfolding save_settings_accepted [where schema = schema and json_of = json_of and c = c, OF assms(1,3)] load_settings_def readStoredValue_def
  using parse_envelope [OF assms(2)] envelope_text assms(1) by simp

lemma load_settings_other: "store key = store' key \<Longrightarrow> load_settings key schema none store = load_settings key schema none store'"
  by (simp add: load_settings_def readStoredValue_def)

lemma save_settings_other: "k \<noteq> key \<Longrightarrow> save_settings key schema json_of fits c store k = store k"
  by (simp add: save_settings_def writeStoredValue_def Let_def split: option.splits)

lemma save_messages_other: "k \<noteq> STORAGE_KEY_MESSAGES \<Longrightarrow> saveMessages schema json_of fits ms store k = store k"
  by (simp add: saveMessages_def writeStoredValue_def Let_def split: option.splits)

lemma load_messages_other: "k \<noteq> STORAGE_KEY_MESSAGES \<Longrightarrow> snd (loadMessages schema json_of fits t clks store) k = store k"
  by (auto simp: loadMessages_def readStoredMessagesValue_def Let_def save_messages_other split: option.splits sum.splits)

lemma load_messages_cong:
  "store STORAGE_KEY_MESSAGES = store' STORAGE_KEY_MESSAGES \<Longrightarrow>
   fst (loadMessages schema json_of fits t clks store) = fst (loadMessages schema json_of fits t clks store')"
  by (auto simp: loadMessages_def readStoredMessagesValue_def Let_def split: option.splits sum.splits)

text \<open>A text above 1 MiB is deleted when it is read, and nothing keeps \<open>saveMessages\<close> from writing one.\<close>

lemma oversized_conversation_deleted:
  assumes "store STORAGE_KEY_MESSAGES = Some text" and "MAX_STORED_MESSAGES_BYTES < length text"
  shows "loadMessages schema json_of fits t clks store = (None, store(STORAGE_KEY_MESSAGES := None))"
  using assms by (auto simp: loadMessages_def readStoredMessagesValue_def)

end
