(* ===== verification/PlaygroundState.thy ===== *)
theory PlaygroundState
  imports Storage
begin

text \<open>
  The state of the playground: \<open>hooks/use-playground-state.ts\<close>.

  The hook is a state machine whose steps are its callbacks, its two timers and the removal of the
  component. The state holds the React state, the refs, which timers are pending, and the browser's
  storage. \<open>PlayEnv\<close> collects what is not of this code: the zod schemas with the JSON values of typed data,
  the quota of the storage, the translations and the clock.
\<close>

record PlayEnv =
  pv_configSchema :: "jsv \<Rightarrow> PartialConfig option"
  pv_configJson :: "PartialConfig \<Rightarrow> jsv"
  pv_enabledSchema :: "jsv \<Rightarrow> PartialEnabled option"
  pv_enabledJson :: "PartialEnabled \<Rightarrow> jsv"
  pv_messagesSchema :: "jsv \<Rightarrow> Message list option"
  pv_messagesJson :: "Message list \<Rightarrow> jsv"
  pv_fits :: "storage \<Rightarrow> string \<Rightarrow> string \<Rightarrow> bool"
  pv_t :: "string \<Rightarrow> string"
  pv_clock :: "nat \<Rightarrow> nat \<Rightarrow> rat"

record PlayState =
  ps_config :: PlaygroundConfig
  ps_parameterEnabled :: ParameterEnabled
  ps_messages :: "Message list"
  ps_isLoadingMessages :: bool
  ps_messagesSaveTimer :: bool
  ps_latestMessages :: "Message list"
  ps_hasLoadedMessages :: bool
  ps_loadTimer :: bool
  ps_cancelled :: bool
  ps_models :: "ModelOption list"
  ps_groups :: "GroupOption list"
  ps_storage :: storage

section \<open>Saving with the environment\<close>

definition full_config :: "PlaygroundConfig \<Rightarrow> PartialConfig" where
  "full_config c =
     \<lparr>pc_model = Some (cf_model c), pc_group = Some (cf_group c), pc_temperature = Some (cf_temperature c),
      pc_top_p = Some (cf_top_p c), pc_max_tokens = Some (cf_max_tokens c),
      pc_frequency_penalty = Some (cf_frequency_penalty c),
      pc_presence_penalty = Some (cf_presence_penalty c), pc_seed = Some (cf_seed c), pc_stream = Some (cf_stream c)\<rparr>"

definition full_enabled :: "ParameterEnabled \<Rightarrow> PartialEnabled" where
  "full_enabled p =
     \<lparr>pn_temperature = Some (pe_temperature p), pn_top_p = Some (pe_top_p p), pn_max_tokens = Some (pe_max_tokens p),
      pn_frequency_penalty = Some (pe_frequency_penalty p), pn_presence_penalty = Some (pe_presence_penalty p),
      pn_seed = Some (pe_seed p)\<rparr>"

abbreviation store_config :: "PlayEnv \<Rightarrow> PlaygroundConfig \<Rightarrow> storage \<Rightarrow> storage" where
  "store_config env c \<equiv> saveConfig (pv_configSchema env) (pv_configJson env) (pv_fits env) (full_config c)"

abbreviation store_enabled :: "PlayEnv \<Rightarrow> ParameterEnabled \<Rightarrow> storage \<Rightarrow> storage" where
  "store_enabled env p \<equiv> saveParameterEnabled (pv_enabledSchema env) (pv_enabledJson env) (pv_fits env) (full_enabled p)"

abbreviation store_messages :: "PlayEnv \<Rightarrow> Message list \<Rightarrow> storage \<Rightarrow> storage" where
  "store_messages env ms \<equiv> saveMessages (pv_messagesSchema env) (pv_messagesJson env) (pv_fits env) ms"

abbreviation fetch_messages :: "PlayEnv \<Rightarrow> storage \<Rightarrow> Message list option \<times> storage" where
  "fetch_messages env st \<equiv>
     loadMessages (pv_messagesSchema env) (pv_messagesJson env) (pv_fits env) (pv_t env) (pv_clock env) st"

section \<open>The hook\<close>

text \<open>The first rendering and the effects that follow it.\<close>

definition usePlaygroundState :: "PlayEnv \<Rightarrow> storage \<Rightarrow> PlayState" where
  "usePlaygroundState env st =
     \<lparr>ps_config = getInitialPlaygroundConfig (pv_configSchema env) st,
      ps_parameterEnabled = getInitialParameterEnabled (pv_enabledSchema env) st,
      ps_messages = [], ps_isLoadingMessages = True, ps_messagesSaveTimer = False, ps_latestMessages = [],
      ps_hasLoadedMessages = False, ps_loadTimer = True, ps_cancelled = False, ps_models = [], ps_groups = [],
      ps_storage = st\<rparr>"

definition persistMessages :: "Message list \<Rightarrow> PlayState \<Rightarrow> PlayState" where
  "persistMessages messagesToSave s =
     (let s' = s\<lparr>ps_latestMessages := messagesToSave\<rparr> in
      if \<not> ps_hasLoadedMessages s' then s' else s'\<lparr>ps_messagesSaveTimer := True\<rparr>)"

definition on_save_timer :: "PlayEnv \<Rightarrow> PlayState \<Rightarrow> PlayState" where
  "on_save_timer env s =
     s\<lparr>ps_messagesSaveTimer := False, ps_storage := store_messages env (ps_latestMessages s) (ps_storage s)\<rparr>"

definition on_load_timer :: "PlayEnv \<Rightarrow> PlayState \<Rightarrow> PlayState" where
  "on_load_timer env s =
     (case fetch_messages env (ps_storage s) of
        (loaded, st) \<Rightarrow>
          (let loadedMessages = nullish loaded []; s' = s\<lparr>ps_loadTimer := False, ps_storage := st\<rparr> in
           if ps_cancelled s' then s'
           else s'\<lparr>ps_latestMessages := loadedMessages, ps_hasLoadedMessages := True,
                   ps_messages := loadedMessages, ps_isLoadingMessages := False\<rparr>))"

definition unmountPlayground :: "PlayEnv \<Rightarrow> PlayState \<Rightarrow> PlayState" where
  "unmountPlayground env s =
     (let s' = s\<lparr>ps_cancelled := True\<rparr> in
      if ps_messagesSaveTimer s'
      then s'\<lparr>ps_messagesSaveTimer := False,
              ps_storage := store_messages env (ps_latestMessages s') (ps_storage s')\<rparr>
      else s')"

text \<open>A key of the configuration with its value.\<close>

datatype ConfigEntry =
    CModel string | CGroup string | CTemperature rat | CTopP rat | CMaxTokens rat | CFrequencyPenalty rat
  | CPresencePenalty rat | CSeed "rat option" | CStream bool

primrec set_config :: "ConfigEntry \<Rightarrow> PlaygroundConfig \<Rightarrow> PlaygroundConfig" where
  "set_config (CModel v) c = c\<lparr>cf_model := v\<rparr>"
| "set_config (CGroup v) c = c\<lparr>cf_group := v\<rparr>"
| "set_config (CTemperature v) c = c\<lparr>cf_temperature := v\<rparr>"
| "set_config (CTopP v) c = c\<lparr>cf_top_p := v\<rparr>"
| "set_config (CMaxTokens v) c = c\<lparr>cf_max_tokens := v\<rparr>"
| "set_config (CFrequencyPenalty v) c = c\<lparr>cf_frequency_penalty := v\<rparr>"
| "set_config (CPresencePenalty v) c = c\<lparr>cf_presence_penalty := v\<rparr>"
| "set_config (CSeed v) c = c\<lparr>cf_seed := v\<rparr>"
| "set_config (CStream v) c = c\<lparr>cf_stream := v\<rparr>"

datatype EnabledKey = ETemperature | ETopP | EMaxTokens | EFrequencyPenalty | EPresencePenalty | ESeed

primrec set_enabled :: "EnabledKey \<Rightarrow> bool \<Rightarrow> ParameterEnabled \<Rightarrow> ParameterEnabled" where
  "set_enabled ETemperature v p = p\<lparr>pe_temperature := v\<rparr>"
| "set_enabled ETopP v p = p\<lparr>pe_top_p := v\<rparr>"
| "set_enabled EMaxTokens v p = p\<lparr>pe_max_tokens := v\<rparr>"
| "set_enabled EFrequencyPenalty v p = p\<lparr>pe_frequency_penalty := v\<rparr>"
| "set_enabled EPresencePenalty v p = p\<lparr>pe_presence_penalty := v\<rparr>"
| "set_enabled ESeed v p = p\<lparr>pe_seed := v\<rparr>"

definition updateConfig :: "PlayEnv \<Rightarrow> ConfigEntry \<Rightarrow> PlayState \<Rightarrow> PlayState" where
  "updateConfig env entry s =
     (let updated = set_config entry (ps_config s) in
      s\<lparr>ps_config := updated, ps_storage := store_config env updated (ps_storage s)\<rparr>)"

definition updateParameterEnabled :: "PlayEnv \<Rightarrow> EnabledKey \<Rightarrow> bool \<Rightarrow> PlayState \<Rightarrow> PlayState" where
  "updateParameterEnabled env key v s =
     (let updated = set_enabled key v (ps_parameterEnabled s) in
      s\<lparr>ps_parameterEnabled := updated, ps_storage := store_enabled env updated (ps_storage s)\<rparr>)"

definition updateMessages :: "MessageStateUpdater \<Rightarrow> PlayState \<Rightarrow> PlayState" where
  "updateMessages updater s =
     (let newMessages = applyMessageStateUpdate (ps_messages s) updater in
      (persistMessages newMessages s)\<lparr>ps_messages := newMessages\<rparr>)"

definition clearMessages :: "PlayState \<Rightarrow> PlayState" where
  "clearMessages s = updateMessages (NewMessages []) s"

definition resetConfig :: "PlayEnv \<Rightarrow> PlayState \<Rightarrow> PlayState" where
  "resetConfig env s =
     s\<lparr>ps_config := DEFAULT_CONFIG, ps_parameterEnabled := DEFAULT_PARAMETER_ENABLED,
       ps_storage := store_enabled env DEFAULT_PARAMETER_ENABLED (store_config env DEFAULT_CONFIG (ps_storage s))\<rparr>"

text \<open>Steps of the mounted component, from any contents of the storage.\<close>

inductive play_reachable :: "PlayEnv \<Rightarrow> PlayState \<Rightarrow> bool" for env where
  mounted: "play_reachable env (usePlaygroundState env st)"
| loaded: "play_reachable env s \<Longrightarrow> ps_loadTimer s \<Longrightarrow> play_reachable env (on_load_timer env s)"
| saved: "play_reachable env s \<Longrightarrow> ps_messagesSaveTimer s \<Longrightarrow> play_reachable env (on_save_timer env s)"
| config: "play_reachable env s \<Longrightarrow> play_reachable env (updateConfig env entry s)"
| enabled: "play_reachable env s \<Longrightarrow> play_reachable env (updateParameterEnabled env key v s)"
| messages: "play_reachable env s \<Longrightarrow> play_reachable env (updateMessages updater s)"
| cleared: "play_reachable env s \<Longrightarrow> play_reachable env (clearMessages s)"
| reset: "play_reachable env s \<Longrightarrow> play_reachable env (resetConfig env s)"
| models: "play_reachable env s \<Longrightarrow> play_reachable env (s\<lparr>ps_models := ms\<rparr>)"
| groups: "play_reachable env s \<Longrightarrow> play_reachable env (s\<lparr>ps_groups := gs\<rparr>)"

text \<open>Closing the page and opening it again: the component is removed and mounted on the same storage, and the
  loading timer fires.\<close>

definition reopen :: "PlayEnv \<Rightarrow> PlayState \<Rightarrow> PlayState" where
  "reopen env s = on_load_timer env (usePlaygroundState env (ps_storage (unmountPlayground env s)))"

section \<open>What is stored\<close>

text \<open>Values that the schemas accept and return, and that the browser takes.\<close>

definition accepts_config :: "PlayEnv \<Rightarrow> PlaygroundConfig \<Rightarrow> bool" where
  "accepts_config env c \<longleftrightarrow>
     pv_configSchema env (pv_configJson env (full_config c)) = Some (full_config c) \<and>
     json_wf (pv_configJson env (full_config c))"

definition accepts_enabled :: "PlayEnv \<Rightarrow> ParameterEnabled \<Rightarrow> bool" where
  "accepts_enabled env p \<longleftrightarrow>
     pv_enabledSchema env (pv_enabledJson env (full_enabled p)) = Some (full_enabled p) \<and>
     json_wf (pv_enabledJson env (full_enabled p))"

definition accepts_messages :: "PlayEnv \<Rightarrow> Message list \<Rightarrow> bool" where
  "accepts_messages env ms \<longleftrightarrow>
     list_all settled ms \<and> length ms \<le> MAX_STORED_MESSAGES \<and> content_size ms \<le> MAX_LOADED_MESSAGES_CHARS \<and>
     pv_messagesSchema env (pv_messagesJson env ms) = Some ms \<and> json_wf (pv_messagesJson env ms) \<and>
     length (stringify (StoredEnvelope (pv_messagesJson env ms))) \<le> MAX_STORED_MESSAGES_BYTES"

abbreviation unlimited :: "PlayEnv \<Rightarrow> bool" where
  "unlimited env \<equiv> \<forall>st k x. pv_fits env st k x"

text \<open>Distinct keys.\<close>

lemma storage_keys [simp]:
  "STORAGE_KEY_CONFIG \<noteq> STORAGE_KEY_MESSAGES" "STORAGE_KEY_MESSAGES \<noteq> STORAGE_KEY_CONFIG"
  "STORAGE_KEY_CONFIG \<noteq> STORAGE_KEY_PARAMETER_ENABLED" "STORAGE_KEY_PARAMETER_ENABLED \<noteq> STORAGE_KEY_CONFIG"
  "STORAGE_KEY_PARAMETER_ENABLED \<noteq> STORAGE_KEY_MESSAGES" "STORAGE_KEY_MESSAGES \<noteq> STORAGE_KEY_PARAMETER_ENABLED"
  by (simp_all add: STORAGE_KEY_CONFIG_def STORAGE_KEY_MESSAGES_def STORAGE_KEY_PARAMETER_ENABLED_def)

lemma stored_config:
  assumes "unlimited env" "accepts_config env c"
  shows "getInitialPlaygroundConfig (pv_configSchema env) (store_config env c st) = c"
proof -
  have "loadConfig (pv_configSchema env) (store_config env c st) = full_config c"
    using assms settings_roundtrip [where schema = "pv_configSchema env" and json_of = "pv_configJson env"]
    by (simp add: loadConfig_def saveConfig_def accepts_config_def)
  then show ?thesis by (simp add: getInitialPlaygroundConfig_def full_config_def nullish_def)
qed

lemma stored_enabled:
  assumes "unlimited env" "accepts_enabled env p"
  shows "getInitialParameterEnabled (pv_enabledSchema env) (store_enabled env p st) = p"
proof -
  have "loadParameterEnabled (pv_enabledSchema env) (store_enabled env p st) = full_enabled p"
    using assms settings_roundtrip [where schema = "pv_enabledSchema env" and json_of = "pv_enabledJson env"]
    by (simp add: loadParameterEnabled_def saveParameterEnabled_def accepts_enabled_def)
  then show ?thesis by (simp add: getInitialParameterEnabled_def full_enabled_def nullish_def)
qed

text \<open>The contents of one key decide what is read from it.\<close>

lemma initial_config_cong:
  "st STORAGE_KEY_CONFIG = st' STORAGE_KEY_CONFIG \<Longrightarrow>
   getInitialPlaygroundConfig schema st = getInitialPlaygroundConfig schema st'"
  unfolding getInitialPlaygroundConfig_def loadConfig_def
  by (simp only: load_settings_other [of st STORAGE_KEY_CONFIG st'])

lemma initial_enabled_cong:
  "st STORAGE_KEY_PARAMETER_ENABLED = st' STORAGE_KEY_PARAMETER_ENABLED \<Longrightarrow>
   getInitialParameterEnabled schema st = getInitialParameterEnabled schema st'"
  unfolding getInitialParameterEnabled_def loadParameterEnabled_def
  by (simp only: load_settings_other [of st STORAGE_KEY_PARAMETER_ENABLED st'])

lemmas other_key = saveConfig_def saveParameterEnabled_def save_settings_other save_messages_other load_messages_other

section \<open>The invariant\<close>

definition config_stored :: "PlayEnv \<Rightarrow> PlayState \<Rightarrow> bool" where
  "config_stored env s \<longleftrightarrow>
     (accepts_config env (ps_config s) \<longrightarrow> getInitialPlaygroundConfig (pv_configSchema env) (ps_storage s) = ps_config s)"

definition enabled_stored :: "PlayEnv \<Rightarrow> PlayState \<Rightarrow> bool" where
  "enabled_stored env s \<longleftrightarrow>
     (accepts_enabled env (ps_parameterEnabled s) \<longrightarrow>
      getInitialParameterEnabled (pv_enabledSchema env) (ps_storage s) = ps_parameterEnabled s)"

definition messages_stored :: "PlayEnv \<Rightarrow> PlayState \<Rightarrow> bool" where
  "messages_stored env s \<longleftrightarrow>
     (ps_hasLoadedMessages s \<longrightarrow>
      ps_latestMessages s = ps_messages s \<and>
      (\<not> ps_messagesSaveTimer s \<longrightarrow> accepts_messages env (ps_messages s) \<longrightarrow>
       nullish (fst (fetch_messages env (ps_storage s))) [] = ps_messages s))"

definition play_inv :: "PlayEnv \<Rightarrow> PlayState \<Rightarrow> bool" where
  "play_inv env s \<longleftrightarrow> config_stored env s \<and> enabled_stored env s \<and> messages_stored env s \<and> \<not> ps_cancelled s \<and>
     (ps_messagesSaveTimer s \<longrightarrow> ps_hasLoadedMessages s) \<and> ps_isLoadingMessages s = (\<not> ps_hasLoadedMessages s)"

lemma stored_messages:
  assumes "unlimited env" "accepts_messages env ms"
  shows "fst (fetch_messages env (store_messages env ms st)) = Some ms"
proof -
  have "fetch_messages env (store_messages env ms st) = (Some ms, store_messages env ms st)"
    using assms unfolding accepts_messages_def by (intro save_load_settled) simp_all
  then show ?thesis by simp
qed

text \<open>What is loaded once is loaded again.\<close>

lemma fetch_again:
  assumes "unlimited env" "fetch_messages env st = (loaded, st')" "accepts_messages env (nullish loaded [])"
  shows "nullish (fst (fetch_messages env st')) [] = nullish loaded []"
proof (cases loaded)
  case (Some ms)
  then obtain st'' where "st' = store_messages env ms st''"
    using assms(2) by (auto simp: loadMessages_def Let_def split: prod.splits option.splits sum.splits if_splits)
  then show ?thesis
    using stored_messages [OF assms(1), of ms st''] assms(3) Some by (simp add: nullish_def)
next
  case None
  have "fst (fetch_messages env st') = None"
    using assms(2) None
    by (auto simp: loadMessages_def readStoredMessagesValue_def Let_def split: option.splits sum.splits if_splits)
  then show ?thesis using None by simp
qed

text \<open>Steps that leave a key and the value it stores alone.\<close>

lemma config_stored_step:
  "config_stored env s \<Longrightarrow> ps_config s' = ps_config s \<Longrightarrow>
   ps_storage s' STORAGE_KEY_CONFIG = ps_storage s STORAGE_KEY_CONFIG \<Longrightarrow> config_stored env s'"
  using initial_config_cong [of "ps_storage s'" "ps_storage s"] by (simp add: config_stored_def)

lemma enabled_stored_step:
  "enabled_stored env s \<Longrightarrow> ps_parameterEnabled s' = ps_parameterEnabled s \<Longrightarrow>
   ps_storage s' STORAGE_KEY_PARAMETER_ENABLED = ps_storage s STORAGE_KEY_PARAMETER_ENABLED \<Longrightarrow> enabled_stored env s'"
  using initial_enabled_cong [of "ps_storage s'" "ps_storage s"] by (simp add: enabled_stored_def)

lemma messages_stored_step:
  "messages_stored env s \<Longrightarrow> ps_messages s' = ps_messages s \<Longrightarrow> ps_latestMessages s' = ps_latestMessages s \<Longrightarrow>
   ps_hasLoadedMessages s' = ps_hasLoadedMessages s \<Longrightarrow> ps_messagesSaveTimer s' = ps_messagesSaveTimer s \<Longrightarrow>
   ps_storage s' STORAGE_KEY_MESSAGES = ps_storage s STORAGE_KEY_MESSAGES \<Longrightarrow> messages_stored env s'"
  using load_messages_cong [of "ps_storage s'" "ps_storage s"] by (simp add: messages_stored_def)

lemmas stored_steps = config_stored_step enabled_stored_step messages_stored_step

lemma load_timer_inv:
  assumes "unlimited env" "play_inv env s"
  shows "play_inv env (on_load_timer env s)"
proof -
  obtain loaded st where f: "fetch_messages env (ps_storage s) = (loaded, st)" by (rule prod.exhaust)
  have k: "st k = ps_storage s k" if "k \<noteq> STORAGE_KEY_MESSAGES" for k
    using load_messages_other [OF that] f by (metis snd_conv)
  let ?s = "on_load_timer env s"
  have e: "?s = s\<lparr>ps_loadTimer := False, ps_storage := st, ps_latestMessages := nullish loaded [],
      ps_hasLoadedMessages := True, ps_messages := nullish loaded [], ps_isLoadingMessages := False\<rparr>"
    using assms(2) f by (simp add: on_load_timer_def play_inv_def Let_def)
  have "config_stored env ?s" "enabled_stored env ?s"
    using assms(2) by (auto intro!: config_stored_step [of env s] enabled_stored_step [of env s] simp: e k play_inv_def)
  moreover have "messages_stored env ?s"
    using fetch_again [OF assms(1) f] by (simp add: messages_stored_def e)
  ultimately show ?thesis using assms(2) by (simp add: play_inv_def e)
qed

lemma save_timer_inv:
  assumes "unlimited env" "play_inv env s"
  shows "play_inv env (on_save_timer env s)"
proof -
  let ?s = "on_save_timer env s"
  have "config_stored env ?s" "enabled_stored env ?s"
    using assms(2)
    by (auto intro!: config_stored_step [of env s] enabled_stored_step [of env s]
        simp: on_save_timer_def save_messages_other play_inv_def)
  moreover have "messages_stored env ?s"
    using assms stored_messages [OF assms(1)]
    by (auto simp: messages_stored_def on_save_timer_def play_inv_def nullish_def)
  ultimately show ?thesis using assms(2) by (simp add: play_inv_def on_save_timer_def)
qed

lemma config_inv:
  assumes "unlimited env" "play_inv env s"
  shows "play_inv env (s\<lparr>ps_config := c, ps_storage := store_config env c (ps_storage s)\<rparr>)"
proof -
  let ?s = "s\<lparr>ps_config := c, ps_storage := store_config env c (ps_storage s)\<rparr>"
  have "config_stored env ?s"
    using stored_config [OF assms(1)] by (simp add: config_stored_def)
  moreover have "enabled_stored env ?s" "messages_stored env ?s"
    using assms(2)
    by (auto intro!: enabled_stored_step [of env s] messages_stored_step [of env s]
        simp: saveConfig_def save_settings_other play_inv_def)
  ultimately show ?thesis using assms(2) by (simp add: play_inv_def)
qed

lemma enabled_inv:
  assumes "unlimited env" "play_inv env s"
  shows "play_inv env (s\<lparr>ps_parameterEnabled := p, ps_storage := store_enabled env p (ps_storage s)\<rparr>)"
proof -
  let ?s = "s\<lparr>ps_parameterEnabled := p, ps_storage := store_enabled env p (ps_storage s)\<rparr>"
  have "enabled_stored env ?s"
    using stored_enabled [OF assms(1)] by (simp add: enabled_stored_def)
  moreover have "config_stored env ?s" "messages_stored env ?s"
    using assms(2)
    by (auto intro!: config_stored_step [of env s] messages_stored_step [of env s]
        simp: saveParameterEnabled_def save_settings_other play_inv_def)
  ultimately show ?thesis using assms(2) by (simp add: play_inv_def)
qed

lemma reset_inv:
  assumes "unlimited env" "play_inv env s"
  shows "play_inv env (resetConfig env s)"
  using enabled_inv [OF assms(1) config_inv [OF assms, of DEFAULT_CONFIG], of DEFAULT_PARAMETER_ENABLED]
  by (simp add: resetConfig_def)

lemma messages_inv:
  assumes "play_inv env s"
  shows "play_inv env (updateMessages updater s)"
  using assms
  by (auto simp: play_inv_def updateMessages_def persistMessages_def Let_def config_stored_def enabled_stored_def
      messages_stored_def)

lemma options_inv:
  assumes "play_inv env s"
  shows "play_inv env (s\<lparr>ps_models := ms\<rparr>)" "play_inv env (s\<lparr>ps_groups := gs\<rparr>)"
  using assms by (simp_all add: play_inv_def config_stored_def enabled_stored_def messages_stored_def)

lemma mounted_inv: "play_inv env (usePlaygroundState env st)"
  by (simp add: play_inv_def usePlaygroundState_def config_stored_def enabled_stored_def messages_stored_def)

lemma play_reachable_inv: "play_reachable env s \<Longrightarrow> unlimited env \<Longrightarrow> play_inv env s"
proof (induction rule: play_reachable.induct)
  case (config s entry)
  then show ?case using config_inv by (simp add: updateConfig_def Let_def)
next
  case (enabled s key v)
  then show ?case using enabled_inv by (simp add: updateParameterEnabled_def Let_def)
qed (simp_all add: mounted_inv load_timer_inv save_timer_inv messages_inv clearMessages_def reset_inv options_inv)

text \<open>What the user sees of a state.\<close>

record PlayView =
  vw_config :: PlaygroundConfig
  vw_parameterEnabled :: ParameterEnabled
  vw_messages :: "Message list"

definition play_view :: "PlayState \<Rightarrow> PlayView" where
  "play_view s =
     \<lparr>vw_config = ps_config s, vw_parameterEnabled = ps_parameterEnabled s, vw_messages = ps_messages s\<rparr>"

lemma unmounted_storage:
  assumes "unlimited env" "play_inv env s" "ps_hasLoadedMessages s" "accepts_messages env (ps_messages s)"
  defines "st \<equiv> ps_storage (unmountPlayground env s)"
  shows "st STORAGE_KEY_CONFIG = ps_storage s STORAGE_KEY_CONFIG"
    and "st STORAGE_KEY_PARAMETER_ENABLED = ps_storage s STORAGE_KEY_PARAMETER_ENABLED"
    and "nullish (fst (fetch_messages env st)) [] = ps_messages s"
proof -
  show "st STORAGE_KEY_CONFIG = ps_storage s STORAGE_KEY_CONFIG"
    "st STORAGE_KEY_PARAMETER_ENABLED = ps_storage s STORAGE_KEY_PARAMETER_ENABLED"
    by (simp_all add: st_def unmountPlayground_def Let_def save_messages_other)
  show "nullish (fst (fetch_messages env st)) [] = ps_messages s"
    using assms(2-4) stored_messages [OF assms(1,4)]
    by (auto simp: st_def unmountPlayground_def Let_def play_inv_def messages_stored_def nullish_def)
qed


text \<open>An environment whose schemas accept one configuration, one set of switches and short conversations.\<close>

definition sample_play_env :: PlayEnv where
  "sample_play_env =
     \<lparr>pv_configSchema = (\<lambda>v. if v = JStr ''config'' then Some (full_config (DEFAULT_CONFIG\<lparr>cf_model := ''m''\<rparr>)) else None),
      pv_configJson = (\<lambda>_. JStr ''config''),
      pv_enabledSchema = (\<lambda>v. if v = JStr ''enabled'' then Some (full_enabled DEFAULT_PARAMETER_ENABLED) else None),
      pv_enabledJson = (\<lambda>_. JStr ''enabled''),
      pv_messagesSchema = (\<lambda>v. if v = JStr ''m'' then Some [createUserMessage ''k'' ''v'' ''hi'' 5] else None),
      pv_messagesJson = (\<lambda>_. JStr ''m''),
      pv_fits = (\<lambda>_ _ _. True), pv_t = (\<lambda>s. s), pv_clock = (\<lambda>_ _. 9)\<rparr>"

text \<open>The page is opened on an empty storage, the model is chosen, a message is typed, and the page is closed
  before the delayed save.\<close>

definition sample_play_state :: PlayState where
  "sample_play_state =
     updateMessages (NewMessages [createUserMessage ''k'' ''v'' ''hi'' 5])
       (updateConfig sample_play_env (CModel ''m'')
         (on_load_timer sample_play_env (usePlaygroundState sample_play_env (\<lambda>_. None))))"

lemma sample_play_reachable: "play_reachable sample_play_env sample_play_state"
  unfolding sample_play_state_def
  by (intro play_reachable.intros) (simp add: usePlaygroundState_def)

lemma sample_loaded:
  "on_load_timer sample_play_env (usePlaygroundState sample_play_env (\<lambda>_. None)) =
   (usePlaygroundState sample_play_env (\<lambda>_. None))
     \<lparr>ps_loadTimer := False, ps_hasLoadedMessages := True, ps_isLoadingMessages := False\<rparr>"
  by (simp add: on_load_timer_def usePlaygroundState_def loadMessages_def readStoredMessagesValue_def nullish_def Let_def)


end
