(* ===== verification/Flow.thy ===== *)
theory Flow
  imports Json
begin

text \<open>
  The usage-flow graph of the dashboard: \<open>features/dashboard/lib/flow.ts\<close> (rows of usage become paths
  through stages, paths become the nodes and links of a Sankey diagram) and \<open>flow-selection.ts\<close>.

  Metrics are exact rationals. What the host decides is in a record of parameters: \<open>localeCompare\<close> of
  the browser's locale, the colour schemes of the chart library, \<open>Intl.NumberFormat\<close> and
  \<open>Number.prototype.toFixed(2)\<close>. An array sorted with a comparator is sorted stably by
  \<open>cmp a b <= 0\<close>. A \<open>Map\<close> is the list of its entries in insertion order; an object that is read from
  a map, changed and set again is the replaced entry.
\<close>

section \<open>Types (features/dashboard/types.ts)\<close>

record FlowQuotaDataItem =
  fq_user_id :: "rat option"
  fq_username :: "string option"
  fq_node_name :: "string option"
  fq_use_group :: "string option"
  fq_token_id :: "rat option"
  fq_token_name :: "string option"
  fq_channel_id :: "rat option"
  fq_channel_name :: "string option"
  fq_model_name :: "string option"
  fq_token_used :: "rat option"
  fq_count :: "rat option"
  fq_quota :: "rat option"

datatype FlowMetric = QuotaMetric | TokensMetric | RequestsMetric
datatype FlowOverflowMode = AggregateOverflow | HideOverflow
datatype FlowRole = UserRole | AdminRole | RootRole
datatype FlowNodeKind = UserKind | NodeKind | TokenKind | GroupKind | ModelKind | ChannelKind

record FlowNodeFilter =
  nf_kind :: FlowNodeKind
  nf_id :: string

record FlowLinkSelection =
  ls_source :: string
  ls_target :: string

record DashboardFlowNode =
  fn_id :: string
  fn_label :: string
  fn_kind :: FlowNodeKind
  fn_value :: rat
  fn_requests :: rat
  fn_quota :: rat
  fn_tokens :: rat
  fn_color :: string
  fn_colorKey :: string
  fn_highlighted :: "bool option"
  fn_dimmed :: "bool option"

record DashboardFlowLink =
  fl_source :: string
  fl_target :: string
  fl_value :: rat
  fl_requests :: rat
  fl_quota :: rat
  fl_tokens :: rat
  fl_sourceLabel :: string
  fl_targetLabel :: string
  fl_color :: string
  fl_linkColor :: string
  fl_linkAlpha :: rat
  fl_hoverColor :: string
  fl_colorKey :: string
  fl_share :: rat
  fl_highlighted :: "bool option"
  fl_dimmed :: "bool option"

record DashboardFlowGraph =
  fg_nodes :: "DashboardFlowNode list"
  fg_links :: "DashboardFlowLink list"

record FlowMetrics =
  mt_quota :: rat
  mt_tokens :: rat
  mt_requests :: rat

record FlowPathNode =
  pn_id :: string
  pn_label :: string
  pn_kind :: FlowNodeKind

record PreparedFlowPath =
  pp_path :: "FlowPathNode list"
  pp_metrics :: FlowMetrics

record FlowGraphOptions =
  go_topNodeLimit :: "rat option"
  go_overflowMode :: "FlowOverflowMode option"
  go_otherNodeLabel :: "(FlowNodeKind \<Rightarrow> string) option"
  go_activeNode :: "FlowNodeFilter option"
  go_activeLink :: "FlowLinkSelection option"
  go_maskSensitive :: bool

text \<open>Parameters of the host.\<close>

record flow_env =
  fe_localeCompare :: "string \<Rightarrow> string \<Rightarrow> int"
  fe_schemes :: "(nat option \<times> string option list) list"
  fe_formatNumber :: "rat \<Rightarrow> string"
  fe_toFixed2 :: "rat \<Rightarrow> string"

type_synonym token_label = "(rat \<Rightarrow> string) option"

section \<open>Paths\<close>

definition OTHER_FLOW_NODE_IDS :: "FlowNodeKind \<Rightarrow> string" where
  "OTHER_FLOW_NODE_IDS kind =
     (case kind of
        UserKind \<Rightarrow> ''user:__other__''
      | NodeKind \<Rightarrow> ''node:__other__''
      | TokenKind \<Rightarrow> ''token:__other__''
      | GroupKind \<Rightarrow> ''group:__other__''
      | ModelKind \<Rightarrow> ''model:__other__''
      | ChannelKind \<Rightarrow> ''channel:__other__'')"

definition DEFAULT_OTHER_FLOW_NODE_LABELS :: "FlowNodeKind \<Rightarrow> string" where
  "DEFAULT_OTHER_FLOW_NODE_LABELS kind =
     (case kind of
        UserKind \<Rightarrow> ''Other users''
      | NodeKind \<Rightarrow> ''Other nodes''
      | TokenKind \<Rightarrow> ''Other tokens''
      | GroupKind \<Rightarrow> ''Other groups''
      | ModelKind \<Rightarrow> ''Other models''
      | ChannelKind \<Rightarrow> ''Other channels'')"

definition SENSITIVE_FLOW_KINDS :: "FlowNodeKind list" where
  "SENSITIVE_FLOW_KINDS = [UserKind, NodeKind, TokenKind, GroupKind, ChannelKind]"

definition OTHER_FLOW_NODE_ID_SET :: "string list" where
  "OTHER_FLOW_NODE_ID_SET =
     map OTHER_FLOW_NODE_IDS [UserKind, NodeKind, TokenKind, GroupKind, ModelKind, ChannelKind]"

definition DEFAULT_FLOW_CHART_COLOR :: string where
  "DEFAULT_FLOW_CHART_COLOR = ''#1664FF''"

definition numberValue :: "rat option \<Rightarrow> rat" where
  "numberValue value = nullish value 0"

definition rowMetrics :: "FlowQuotaDataItem \<Rightarrow> FlowMetrics" where
  "rowMetrics row =
     \<lparr>mt_quota = numberValue (fq_quota row), mt_tokens = numberValue (fq_token_used row),
      mt_requests = numberValue (fq_count row)\<rparr>"

definition metricValue :: "FlowMetrics \<Rightarrow> FlowMetric \<Rightarrow> rat" where
  "metricValue metrics metric =
     (if metric = RequestsMetric then mt_requests metrics
      else if metric = TokensMetric then mt_tokens metrics
      else mt_quota metrics)"

definition userNode :: "FlowQuotaDataItem \<Rightarrow> FlowPathNode" where
  "userNode row =
     (let userID = numberValue (fq_user_id row) in
      \<lparr>pn_id = (if userID > 0 then ''user:'' @ show_num userID
                else ''user:'' @ opt_str_or (fq_username row) ''unknown''),
       pn_label = opt_str_or (fq_username row)
         (if userID > 0 then ''user-'' @ show_num userID else ''Unknown User''),
       pn_kind = UserKind\<rparr>)"

definition nodeNameNode :: "FlowQuotaDataItem \<Rightarrow> FlowPathNode" where
  "nodeNameNode row =
     (let nodeName = opt_str_or (fq_node_name row) ''default-node'' in
      \<lparr>pn_id = ''node:'' @ nodeName, pn_label = nodeName, pn_kind = NodeKind\<rparr>)"

definition deletedTokenLabel :: "rat \<Rightarrow> token_label \<Rightarrow> string" where
  "deletedTokenLabel tokenID ctx =
     (if tokenID \<le> 0 then ''Unknown Token''
      else (case ctx of None \<Rightarrow> ''token-'' @ show_num tokenID | Some labeler \<Rightarrow> labeler tokenID))"

definition tokenNode :: "token_label \<Rightarrow> FlowQuotaDataItem \<Rightarrow> FlowPathNode" where
  "tokenNode ctx row =
     (let tokenID = numberValue (fq_token_id row) in
      \<lparr>pn_id = (if tokenID > 0 then ''token:'' @ show_num tokenID
                else ''token:'' @ opt_str_or (fq_token_name row) ''unknown''),
       pn_label = opt_str_or (fq_token_name row) (deletedTokenLabel tokenID ctx),
       pn_kind = TokenKind\<rparr>)"

definition groupNode :: "FlowQuotaDataItem \<Rightarrow> FlowPathNode" where
  "groupNode row =
     (let useGroup = opt_str_or (fq_use_group row) ''unknown'' in
      \<lparr>pn_id = ''group:'' @ useGroup, pn_label = useGroup, pn_kind = GroupKind\<rparr>)"

definition modelNode :: "FlowQuotaDataItem \<Rightarrow> FlowPathNode" where
  "modelNode row =
     \<lparr>pn_id = ''model:'' @ opt_str_or (fq_model_name row) ''unknown'',
      pn_label = opt_str_or (fq_model_name row) ''Unknown Model'', pn_kind = ModelKind\<rparr>"

definition channelNode :: "FlowQuotaDataItem \<Rightarrow> FlowPathNode" where
  "channelNode row =
     (let channelID = numberValue (fq_channel_id row) in
      \<lparr>pn_id = (if channelID > 0 then ''channel:'' @ show_num channelID
                else ''channel:'' @ opt_str_or (fq_channel_name row) ''unknown''),
       pn_label = opt_str_or (fq_channel_name row)
         (if channelID > 0 then ''channel-'' @ show_num channelID else ''Unknown''),
       pn_kind = ChannelKind\<rparr>)"

definition NODE_BUILDERS :: "token_label \<Rightarrow> FlowNodeKind \<Rightarrow> FlowQuotaDataItem \<Rightarrow> FlowPathNode" where
  "NODE_BUILDERS ctx kind =
     (case kind of
        UserKind \<Rightarrow> userNode
      | NodeKind \<Rightarrow> nodeNameNode
      | TokenKind \<Rightarrow> tokenNode ctx
      | GroupKind \<Rightarrow> groupNode
      | ModelKind \<Rightarrow> modelNode
      | ChannelKind \<Rightarrow> channelNode)"

definition getFlowStages :: "FlowRole \<Rightarrow> FlowNodeKind list" where
  "getFlowStages role =
     (case role of
        RootRole \<Rightarrow> [UserKind, NodeKind, TokenKind, GroupKind, ModelKind, ChannelKind]
      | AdminRole \<Rightarrow> [UserKind, GroupKind, ModelKind, ChannelKind]
      | UserRole \<Rightarrow> [TokenKind, GroupKind, ModelKind])"

definition resolveVisibleStages :: "FlowRole \<Rightarrow> FlowNodeKind list option \<Rightarrow> FlowNodeKind list" where
  "resolveVisibleStages role visibleStages =
     (let stages = getFlowStages role in
      case visibleStages of
        None \<Rightarrow> stages
      | Some vs \<Rightarrow>
          (let filtered = filter (\<lambda>stage. stage \<in> set vs) stages in
           if length filtered \<ge> 2 then filtered else stages))"

definition flowPathForStages ::
    "token_label \<Rightarrow> FlowNodeKind list \<Rightarrow> FlowQuotaDataItem \<Rightarrow> FlowPathNode list" where
  "flowPathForStages ctx stages row = map (\<lambda>stage. NODE_BUILDERS ctx stage row) stages"

section \<open>Colours\<close>

definition getDashboardChartColors :: "flow_env \<Rightarrow> nat \<Rightarrow> string list" where
  "getDashboardChartColors env domainLength =
     (let scheme =
        (case find (\<lambda>(maxDomain, _). case maxDomain of
                      None \<Rightarrow> True | Some m \<Rightarrow> m = 0 \<or> domainLength \<le> m) (fe_schemes env) of
           Some s \<Rightarrow> s
         | None \<Rightarrow> last (fe_schemes env)) in
      List.map_filter (\<lambda>c. c) (snd scheme))"

definition colorAt :: "flow_env \<Rightarrow> nat \<Rightarrow> string list option \<Rightarrow> string" where
  "colorAt env index palette =
     (let colors = (case palette of
            Some (c # cs) \<Rightarrow> c # cs
          | _ \<Rightarrow> getDashboardChartColors env (index + 1)) in
      if colors = [] then DEFAULT_FLOW_CHART_COLOR else colors ! (index mod length colors))"

definition colorPalette :: "flow_env \<Rightarrow> nat \<Rightarrow> string list option \<Rightarrow> string list" where
  "colorPalette env colorCount palette =
     (case palette of
        Some (c # cs) \<Rightarrow> c # cs
      | _ \<Rightarrow>
          (let colors = getDashboardChartColors env colorCount in
           if colors \<noteq> [] then colors else [DEFAULT_FLOW_CHART_COLOR]))"

definition hex_value :: "char \<Rightarrow> nat option" where
  "hex_value c =
     (let n = (of_char c :: nat) in
      if 48 \<le> n \<and> n \<le> 57 then Some (n - 48)
      else if 65 \<le> n \<and> n \<le> 70 then Some (n - 55)
      else if 97 \<le> n \<and> n \<le> 102 then Some (n - 87)
      else None)"

definition parse_hex :: "string \<Rightarrow> nat" where
  "parse_hex s = foldl (\<lambda>acc c. 16 * acc + nullish (hex_value c) 0) 0 s"

definition alphaColor :: "flow_env \<Rightarrow> string \<Rightarrow> rat \<Rightarrow> string \<times> rat" where
  "alphaColor env color alpha =
     (let normalized = trim color;
          hex = (if startsWith normalized ''#'' then drop 1 normalized else normalized) in
      if \<not> (length hex = 6 \<and> list_all (\<lambda>c. hex_value c \<noteq> None) hex) then (normalized, alpha)
      else
        (let value = parse_hex hex;
             red = value div 65536 mod 256; green = value div 256 mod 256; blue = value mod 256 in
         (''rgba('' @ show_nat red @ '', '' @ show_nat green @ '', '' @ show_nat blue @ '', ''
            @ fe_toFixed2 env alpha @ '')'', 1)))"

definition stableColorMap :: "flow_env \<Rightarrow> string list \<Rightarrow> string list option \<Rightarrow> (string \<times> string) list" where
  "stableColorMap env keys palette =
     (let uniqueKeys = js_set keys; colors = colorPalette env (length uniqueKeys) palette in
      foldl (\<lambda>m (index, key). map_set key (colorAt env index (Some colors)) m) []
        (List.enumerate 0 uniqueKeys))"

section \<open>Filters\<close>

definition filterRows :: "string list option \<Rightarrow> FlowQuotaDataItem list \<Rightarrow> FlowQuotaDataItem list" where
  "filterRows selectedUsers rows =
     (let selected = js_set (nullish selectedUsers []) in
      if selected = [] then rows else filter (\<lambda>row. pn_id (userNode row) \<in> set selected) rows)"

definition kind_text :: "FlowNodeKind \<Rightarrow> string" where
  "kind_text kind =
     (case kind of
        UserKind \<Rightarrow> ''user'' | NodeKind \<Rightarrow> ''node'' | TokenKind \<Rightarrow> ''token'' | GroupKind \<Rightarrow> ''group''
      | ModelKind \<Rightarrow> ''model'' | ChannelKind \<Rightarrow> ''channel'')"

definition nodeFilterKey :: "FlowNodeFilter \<Rightarrow> string" where
  "nodeFilterKey f = kind_text (nf_kind f) @ [CHR 0x00] @ nf_id f"

definition normalizeSelectedNodeFilters ::
    "FlowNodeFilter list option \<Rightarrow> FlowNodeKind list \<Rightarrow> (FlowNodeKind \<times> string list) list" where
  "normalizeSelectedNodeFilters selectedNodes stages =
     foldl (\<lambda>filters f.
        if nf_kind f \<notin> set stages then filters
        else map_set (nf_kind f) (set_add (nullish (map_of filters (nf_kind f)) []) (nf_id f)) filters)
      [] (nullish selectedNodes [])"

definition pathMatchesNodeFilters ::
    "FlowPathNode list \<Rightarrow> (FlowNodeKind \<times> string list) list \<Rightarrow> bool" where
  "pathMatchesNodeFilters path filters =
     (if filters = [] then True
      else
        (let pathNodesByKind =
           foldl (\<lambda>m node. map_set (pn_kind node)
                    (set_add (nullish (map_of m (pn_kind node)) []) (pn_id node)) m) [] path in
         list_all (\<lambda>(kind, selectedIds).
           (case map_of pathNodesByKind kind of
              None \<Rightarrow> False
            | Some pathIds \<Rightarrow> list_ex (\<lambda>nid. nid \<in> set pathIds) selectedIds)) filters))"

definition filterRowsByNodes ::
    "token_label \<Rightarrow> FlowNodeKind list \<Rightarrow> FlowNodeFilter list option \<Rightarrow> FlowQuotaDataItem list
     \<Rightarrow> FlowQuotaDataItem list" where
  "filterRowsByNodes ctx stages selectedNodes rows =
     (let filters = normalizeSelectedNodeFilters selectedNodes stages in
      if filters = [] then rows
      else filter (\<lambda>row. pathMatchesNodeFilters (flowPathForStages ctx stages row) filters) rows)"

definition selectedNodeFiltersExceptKind ::
    "FlowNodeFilter list option \<Rightarrow> FlowNodeKind \<Rightarrow> FlowNodeFilter list option" where
  "selectedNodeFiltersExceptKind selectedNodes kind =
     (let filtered = filter (\<lambda>f. nf_kind f \<noteq> kind) (nullish selectedNodes []) in
      if length filtered > 0 then Some filtered else None)"

section \<open>Nodes and links\<close>

text \<open>The arguments that \<open>addNode\<close> and \<open>addLink\<close> get besides the map.\<close>

record node_item =
  ni_node :: FlowPathNode
  ni_metrics :: FlowMetrics
  ni_color :: string
  ni_colorKey :: string

record link_item =
  li_source :: FlowPathNode
  li_target :: FlowPathNode
  li_metrics :: FlowMetrics
  li_color :: string
  li_colorKey :: string

definition new_node :: "node_item \<Rightarrow> DashboardFlowNode" where
  "new_node it =
     \<lparr>fn_id = pn_id (ni_node it), fn_label = pn_label (ni_node it), fn_kind = pn_kind (ni_node it),
      fn_value = 0, fn_requests = 0, fn_quota = 0, fn_tokens = 0, fn_color = ni_color it,
      fn_colorKey = ni_colorKey it, fn_highlighted = None, fn_dimmed = None\<rparr>"

definition bump_node :: "FlowMetric \<Rightarrow> node_item \<Rightarrow> DashboardFlowNode \<Rightarrow> DashboardFlowNode" where
  "bump_node metric it previous =
     previous\<lparr>fn_value := fn_value previous + metricValue (ni_metrics it) metric,
              fn_requests := fn_requests previous + mt_requests (ni_metrics it),
              fn_quota := fn_quota previous + mt_quota (ni_metrics it),
              fn_tokens := fn_tokens previous + mt_tokens (ni_metrics it)\<rparr>"

definition addNode ::
    "FlowMetric \<Rightarrow> (string \<times> DashboardFlowNode) list \<Rightarrow> node_item \<Rightarrow> (string \<times> DashboardFlowNode) list" where
  "addNode metric m it =
     (let previous = nullish (map_of m (pn_id (ni_node it))) (new_node it) in
      map_set (pn_id (ni_node it)) (bump_node metric it previous) m)"

definition link_key :: "string \<Rightarrow> string \<Rightarrow> string" where
  "link_key source target = source @ [CHR 0x00] @ target"

definition linkStableKey :: "DashboardFlowLink \<Rightarrow> string" where
  "linkStableKey link = link_key (fl_source link) (fl_target link)"

definition pathLinkKey :: "FlowPathNode \<Rightarrow> FlowPathNode \<Rightarrow> string" where
  "pathLinkKey source target = link_key (pn_id source) (pn_id target)"

definition new_link :: "link_item \<Rightarrow> DashboardFlowLink" where
  "new_link it =
     \<lparr>fl_source = pn_id (li_source it), fl_target = pn_id (li_target it), fl_value = 0,
      fl_requests = 0, fl_quota = 0, fl_tokens = 0, fl_sourceLabel = pn_label (li_source it),
      fl_targetLabel = pn_label (li_target it), fl_color = li_color it, fl_linkColor = li_color it,
      fl_linkAlpha = 1, fl_hoverColor = li_color it, fl_colorKey = li_colorKey it, fl_share = 0,
      fl_highlighted = None, fl_dimmed = None\<rparr>"

definition bump_link :: "FlowMetric \<Rightarrow> link_item \<Rightarrow> DashboardFlowLink \<Rightarrow> DashboardFlowLink" where
  "bump_link metric it previous =
     previous\<lparr>fl_value := fl_value previous + metricValue (li_metrics it) metric,
              fl_requests := fl_requests previous + mt_requests (li_metrics it),
              fl_quota := fl_quota previous + mt_quota (li_metrics it),
              fl_tokens := fl_tokens previous + mt_tokens (li_metrics it)\<rparr>"

definition addLink ::
    "FlowMetric \<Rightarrow> (string \<times> DashboardFlowLink) list \<Rightarrow> link_item \<Rightarrow> (string \<times> DashboardFlowLink) list" where
  "addLink metric m it =
     (let key = pathLinkKey (li_source it) (li_target it);
          previous = nullish (map_of m key) (new_link it) in
      map_set key (bump_link metric it previous) m)"

text \<open>Comparators: \<open>d || e\<close> is the first difference that is not zero; a difference is given by its sign.\<close>

definition or_else :: "int \<Rightarrow> int \<Rightarrow> int" where
  "or_else d e = (if d \<noteq> 0 then d else e)"

definition sign_diff :: "rat \<Rightarrow> rat \<Rightarrow> int" where
  "sign_diff a b = (if a < b then -1 else if b < a then 1 else 0)"

definition sort_cmp :: "('a \<Rightarrow> 'a \<Rightarrow> int) \<Rightarrow> 'a list \<Rightarrow> 'a list" where
  "sort_cmp cmp = sort_by (\<lambda>a b. cmp a b \<le> 0)"

definition byValueThenLabel :: "flow_env \<Rightarrow> DashboardFlowNode \<Rightarrow> DashboardFlowNode \<Rightarrow> int" where
  "byValueThenLabel env a b =
     or_else (sign_diff (fn_value b) (fn_value a)) (fe_localeCompare env (fn_label a) (fn_label b))"

definition link_display_cmp :: "flow_env \<Rightarrow> DashboardFlowLink \<Rightarrow> DashboardFlowLink \<Rightarrow> int" where
  "link_display_cmp env a b =
     or_else (sign_diff (fl_value b) (fl_value a))
       (fe_localeCompare env (linkStableKey a) (linkStableKey b))"

text \<open>\<open>Number(undefined)\<close> is \<open>NaN\<close>, and a difference with it falls through.\<close>

definition flag_diff :: "bool option \<Rightarrow> bool option \<Rightarrow> int" where
  "flag_diff a b =
     (case (a, b) of
        (Some x, Some y) \<Rightarrow> (if x then 1 else 0) - (if y then 1 else 0)
      | _ \<Rightarrow> 0)"

definition byLinkDrawPriority :: "flow_env \<Rightarrow> DashboardFlowLink \<Rightarrow> DashboardFlowLink \<Rightarrow> int" where
  "byLinkDrawPriority env a b =
     or_else (flag_diff (fl_dimmed a) (fl_dimmed b))
       (or_else (flag_diff (fl_highlighted b) (fl_highlighted a)) (link_display_cmp env a b))"

text \<open>The colour of the \<open>index\<close>-th of the \<open>n\<close> links that leave a node, by decreasing value.\<close>

definition link_alpha :: "nat \<Rightarrow> nat \<Rightarrow> rat" where
  "link_alpha n index =
     (if n = 1 then 34 / 100
      else 24 / 100 + (of_nat index / of_nat (max (n - 1) 1)) * (2 / 10))"

definition display_link :: "flow_env \<Rightarrow> nat \<Rightarrow> nat \<Rightarrow> DashboardFlowLink \<Rightarrow> DashboardFlowLink" where
  "display_link env n index link =
     (case alphaColor env (fl_color link) (link_alpha n index) of
        (color, alpha) \<Rightarrow>
          link\<lparr>fl_linkColor := color, fl_linkAlpha := alpha, fl_hoverColor := fl_color link\<rparr>)"

text \<open>The links are objects shared between the array and the groups; a link's key identifies it, so the
  update of its group is found by the key.\<close>

definition group_display :: "flow_env \<Rightarrow> DashboardFlowLink list \<Rightarrow> (string \<times> DashboardFlowLink) list" where
  "group_display env sourceLinks =
     (let sortedLinks = sort_cmp (link_display_cmp env) sourceLinks in
      map (\<lambda>(index, link). (linkStableKey link, display_link env (length sortedLinks) index link))
        (List.enumerate 0 sortedLinks))"

definition links_by_source :: "DashboardFlowLink list \<Rightarrow> (string \<times> DashboardFlowLink list) list" where
  "links_by_source links =
     foldl (\<lambda>m link. map_set (fl_source link) (nullish (map_of m (fl_source link)) [] @ [link]) m) [] links"

definition assignLinkDisplayColors :: "flow_env \<Rightarrow> DashboardFlowLink list \<Rightarrow> DashboardFlowLink list" where
  "assignLinkDisplayColors env links =
     (let updates = concat (map (\<lambda>(_, sourceLinks). group_display env sourceLinks) (links_by_source links)) in
      map (\<lambda>link. nullish (map_of updates (linkStableKey link)) link) links)"

record FlowSummary =
  fs_quota :: rat
  fs_tokens :: rat
  fs_requests :: rat

definition buildSummary :: "FlowQuotaDataItem list \<Rightarrow> FlowSummary" where
  "buildSummary rows =
     foldl (\<lambda>summary row.
        (let metrics = rowMetrics row in
         \<lparr>fs_quota = fs_quota summary + mt_quota metrics, fs_tokens = fs_tokens summary + mt_tokens metrics,
          fs_requests = fs_requests summary + mt_requests metrics\<rparr>))
      \<lparr>fs_quota = 0, fs_tokens = 0, fs_requests = 0\<rparr> rows"

section \<open>Top nodes\<close>

definition normalizeTopNodeLimit :: "rat option \<Rightarrow> nat option" where
  "normalizeTopNodeLimit limit =
     (case limit of
        None \<Rightarrow> None
      | Some l \<Rightarrow> if \<lfloor>l\<rfloor> > 0 then Some (nat \<lfloor>l\<rfloor>) else None)"

definition otherFlowNode :: "(FlowNodeKind \<Rightarrow> string) option \<Rightarrow> FlowNodeKind \<Rightarrow> FlowPathNode" where
  "otherFlowNode labeler kind =
     \<lparr>pn_id = OTHER_FLOW_NODE_IDS kind,
      pn_label = (case labeler of None \<Rightarrow> DEFAULT_OTHER_FLOW_NODE_LABELS kind | Some f \<Rightarrow> f kind),
      pn_kind = kind\<rparr>"

record FlowNodeRank =
  rk_node :: FlowPathNode
  rk_value :: rat

definition rank_cmp :: "flow_env \<Rightarrow> FlowNodeRank \<Rightarrow> FlowNodeRank \<Rightarrow> int" where
  "rank_cmp env a b =
     or_else (sign_diff (rk_value b) (rk_value a))
       (or_else (fe_localeCompare env (pn_label (rk_node a)) (pn_label (rk_node b)))
         (fe_localeCompare env (pn_id (rk_node a)) (pn_id (rk_node b))))"

text \<open>One step of the totals: \<open>rank\<close> for a path node and the value of its row.\<close>

definition add_rank ::
    "(string \<times> FlowNodeRank) list \<Rightarrow> FlowPathNode \<times> rat \<Rightarrow> (string \<times> FlowNodeRank) list" where
  "add_rank m it =
     (case it of (node, value) \<Rightarrow>
        (let current = nullish (map_of m (pn_id node)) \<lparr>rk_node = node, rk_value = 0\<rparr> in
         map_set (pn_id node) (current\<lparr>rk_value := rk_value current + value\<rparr>) m))"

type_synonym stage_totals = "(FlowNodeKind \<times> (string \<times> FlowNodeRank) list) list"

definition add_stage_rank :: "stage_totals \<Rightarrow> FlowPathNode \<times> rat \<Rightarrow> stage_totals" where
  "add_stage_rank totals it =
     (case map_of totals (pn_kind (fst it)) of
        None \<Rightarrow> totals
      | Some stageTotals \<Rightarrow> map_set (pn_kind (fst it)) (add_rank stageTotals it) totals)"

definition rank_items ::
    "FlowMetric \<Rightarrow> FlowNodeKind list \<Rightarrow> token_label \<Rightarrow> FlowQuotaDataItem \<Rightarrow> (FlowPathNode \<times> rat) list" where
  "rank_items metric stages ctx row =
     map (\<lambda>node. (node, metricValue (rowMetrics row) metric)) (flowPathForStages ctx stages row)"

definition stage_top_ids :: "flow_env \<Rightarrow> nat \<Rightarrow> (string \<times> FlowNodeRank) list \<Rightarrow> string list" where
  "stage_top_ids env limit stageTotals =
     js_set (map (\<lambda>rank. pn_id (rk_node rank)) (take limit (sort_cmp (rank_cmp env) (map snd stageTotals))))"

definition buildTopNodeSets ::
    "flow_env \<Rightarrow> FlowMetric \<Rightarrow> FlowNodeKind list \<Rightarrow> nat option \<Rightarrow> token_label \<Rightarrow> FlowQuotaDataItem list
     \<Rightarrow> (FlowNodeKind \<times> string list) list option" where
  "buildTopNodeSets env metric stages limit ctx rows =
     (case limit of
        None \<Rightarrow> None
      | Some n \<Rightarrow>
          if n = 0 then None
          else
            (let none = foldl (\<lambda>m stage. map_set stage [] m) [] stages;
                 totals = foldl add_stage_rank none (concat (map (rank_items metric stages ctx) rows)) in
             Some (foldl (\<lambda>m (kind, stageTotals). map_set kind (stage_top_ids env n stageTotals) m) [] totals)))"

definition isTopFlowNode :: "(FlowNodeKind \<times> string list) list option \<Rightarrow> FlowPathNode \<Rightarrow> bool" where
  "isTopFlowNode topNodeSets node =
     (case Option.bind topNodeSets (\<lambda>m. map_of m (pn_kind node)) of
        None \<Rightarrow> True
      | Some topNodes \<Rightarrow> pn_id node \<in> set topNodes)"

definition applyTopNodeLimit ::
    "(FlowNodeKind \<times> string list) list option \<Rightarrow> FlowOverflowMode \<Rightarrow> (FlowNodeKind \<Rightarrow> string) option
     \<Rightarrow> FlowPathNode list \<Rightarrow> FlowPathNode list option" where
  "applyTopNodeLimit topNodeSets mode labeler path =
     (if topNodeSets = None then Some path
      else if \<not> list_ex (\<lambda>node. \<not> isTopFlowNode topNodeSets node) path then Some path
      else if mode = HideOverflow then None
      else Some (map (\<lambda>node. if isTopFlowNode topNodeSets node then node
                             else otherFlowNode labeler (pn_kind node)) path))"

section \<open>Highlights and masks\<close>

definition pathContainsFlowNode :: "FlowPathNode list \<Rightarrow> FlowNodeFilter \<Rightarrow> bool" where
  "pathContainsFlowNode path f = list_ex (\<lambda>node. pn_kind node = nf_kind f \<and> pn_id node = nf_id f) path"

fun path_links :: "FlowPathNode list \<Rightarrow> (FlowPathNode \<times> FlowPathNode) list" where
  "path_links (a # b # path) = (a, b) # path_links (b # path)"
| "path_links _ = []"

definition pathContainsFlowLink :: "FlowPathNode list \<Rightarrow> FlowLinkSelection \<Rightarrow> bool" where
  "pathContainsFlowLink path link =
     list_ex (\<lambda>(a, b). pn_id a = ls_source link \<and> pn_id b = ls_target link) (path_links path)"

record FlowHighlightSets =
  hs_nodes :: "string list"
  hs_links :: "string list"

definition path_active :: "FlowNodeFilter option \<Rightarrow> FlowLinkSelection option \<Rightarrow> FlowPathNode list \<Rightarrow> bool" where
  "path_active activeNode activeLink path =
     (case activeLink of
        Some l \<Rightarrow> pathContainsFlowLink path l
      | None \<Rightarrow> (case activeNode of Some n \<Rightarrow> pathContainsFlowNode path n | None \<Rightarrow> False))"

definition buildFlowHighlightSets ::
    "PreparedFlowPath list \<Rightarrow> FlowNodeFilter option \<Rightarrow> FlowLinkSelection option \<Rightarrow> FlowNodeKind list
     \<Rightarrow> FlowHighlightSets option" where
  "buildFlowHighlightSets preparedPaths activeNode activeLink stages =
     (let nodeActive = (case activeNode of None \<Rightarrow> False | Some n \<Rightarrow> nf_kind n \<in> set stages) in
      if \<not> nodeActive \<and> activeLink = None then None
      else
        (let active = filter (path_active activeNode activeLink) (map pp_path preparedPaths);
             highlightedNodes = foldl set_add [] (concat (map (map pn_id) active));
             highlightedLinks = foldl set_add []
               (concat (map (\<lambda>path. map (\<lambda>(a, b). pathLinkKey a b) (path_links path)) active)) in
         if highlightedNodes = [] then None
         else Some \<lparr>hs_nodes = highlightedNodes, hs_links = highlightedLinks\<rparr>))"

definition FLOW_MASK_TEXT :: string where
  "FLOW_MASK_TEXT = concat (replicate 4 [CHR 0xE2, CHR 0x80, CHR 0xA2])"

definition maskFlowLabel :: "string \<Rightarrow> string" where
  "maskFlowLabel label = (if label = [] then label else FLOW_MASK_TEXT)"

definition masks_node :: "DashboardFlowNode \<Rightarrow> bool" where
  "masks_node node \<longleftrightarrow>
     fn_kind node \<in> set SENSITIVE_FLOW_KINDS \<and> fn_id node \<notin> set OTHER_FLOW_NODE_ID_SET"

definition mask_node :: "DashboardFlowNode \<Rightarrow> DashboardFlowNode" where
  "mask_node node =
     (if masks_node node then node\<lparr>fn_label := maskFlowLabel (fn_label node)\<rparr> else node)"

definition mask_link :: "(string \<times> string) list \<Rightarrow> DashboardFlowLink \<Rightarrow> DashboardFlowLink" where
  "mask_link maskedById link =
     link\<lparr>fl_sourceLabel := nullish (map_of maskedById (fl_source link)) (fl_sourceLabel link),
          fl_targetLabel := nullish (map_of maskedById (fl_target link)) (fl_targetLabel link)\<rparr>"

definition maskFlowGraphLabels ::
    "(string \<times> DashboardFlowNode) list \<Rightarrow> (string \<times> DashboardFlowLink) list
     \<Rightarrow> (string \<times> DashboardFlowNode) list \<times> (string \<times> DashboardFlowLink) list" where
  "maskFlowGraphLabels nodes links =
     (let maskedById =
        foldl (\<lambda>m node. map_set (fn_id node) (maskFlowLabel (fn_label node)) m) []
          (filter masks_node (map snd nodes));
          nodes' = map (\<lambda>(k, node). (k, mask_node node)) nodes in
      if maskedById = [] then (nodes', links)
      else (nodes', map (\<lambda>(k, link). (k, mask_link maskedById link)) links))"

definition highlight_node :: "FlowHighlightSets \<Rightarrow> DashboardFlowNode \<Rightarrow> DashboardFlowNode" where
  "highlight_node sets node =
     (let highlighted = (fn_id node \<in> set (hs_nodes sets)) in
      node\<lparr>fn_highlighted := Some highlighted, fn_dimmed := Some (\<not> highlighted)\<rparr>)"

definition highlight_link :: "FlowHighlightSets \<Rightarrow> DashboardFlowLink \<Rightarrow> DashboardFlowLink" where
  "highlight_link sets link =
     (let highlighted = (linkStableKey link \<in> set (hs_links sets)) in
      link\<lparr>fl_highlighted := Some highlighted, fl_dimmed := Some (\<not> highlighted)\<rparr>)"

definition applyFlowHighlights ::
    "FlowHighlightSets option \<Rightarrow> DashboardFlowNode list \<Rightarrow> DashboardFlowLink list
     \<Rightarrow> DashboardFlowNode list \<times> DashboardFlowLink list" where
  "applyFlowHighlights highlightSets nodes links =
     (case highlightSets of
        None \<Rightarrow> (nodes, links)
      | Some sets \<Rightarrow> (map (highlight_node sets) nodes, map (highlight_link sets) links))"

section \<open>The graph\<close>

definition prepare_row ::
    "token_label \<Rightarrow> FlowNodeKind list \<Rightarrow> (FlowNodeKind \<times> string list) list option \<Rightarrow> FlowOverflowMode
     \<Rightarrow> (FlowNodeKind \<Rightarrow> string) option \<Rightarrow> FlowQuotaDataItem \<Rightarrow> PreparedFlowPath option" where
  "prepare_row ctx stages topNodeSets mode labeler row =
     map_option (\<lambda>path. \<lparr>pp_path = path, pp_metrics = rowMetrics row\<rparr>)
       (applyTopNodeLimit topNodeSets mode labeler (flowPathForStages ctx stages row))"

definition prepare_paths ::
    "flow_env \<Rightarrow> FlowMetric \<Rightarrow> FlowNodeKind list \<Rightarrow> token_label \<Rightarrow> FlowGraphOptions \<Rightarrow> FlowQuotaDataItem list
     \<Rightarrow> PreparedFlowPath list" where
  "prepare_paths env metric stages ctx options rows =
     (let topNodeSets =
            buildTopNodeSets env metric stages (normalizeTopNodeLimit (go_topNodeLimit options)) ctx rows;
          overflowMode = nullish (go_overflowMode options) AggregateOverflow in
      List.map_filter (prepare_row ctx stages topNodeSets overflowMode (go_otherNodeLabel options)) rows)"

definition root_ids :: "PreparedFlowPath list \<Rightarrow> string list" where
  "root_ids preparedPaths =
     List.map_filter (\<lambda>p. case pp_path p of [] \<Rightarrow> None | n # _ \<Rightarrow> if pn_id n = [] then None else Some (pn_id n))
       preparedPaths"

definition path_node_items :: "(string \<Rightarrow> string) \<Rightarrow> PreparedFlowPath \<Rightarrow> node_item list" where
  "path_node_items color_of p =
     (case pp_path p of
        [] \<Rightarrow> []
      | origin # _ \<Rightarrow>
          map (\<lambda>node. \<lparr>ni_node = node, ni_metrics = pp_metrics p, ni_color = color_of (pn_id origin),
                        ni_colorKey = pn_id origin\<rparr>) (pp_path p))"

definition path_link_items :: "(string \<Rightarrow> string) \<Rightarrow> PreparedFlowPath \<Rightarrow> link_item list" where
  "path_link_items color_of p =
     (case pp_path p of
        [] \<Rightarrow> []
      | origin # _ \<Rightarrow>
          map (\<lambda>(a, b). \<lparr>li_source = a, li_target = b, li_metrics = pp_metrics p,
                          li_color = color_of (pn_id origin), li_colorKey = pn_id origin\<rparr>)
            (path_links (pp_path p)))"

text \<open>The loop over the prepared paths: the nodes of a path, then its links.\<close>

definition add_path ::
    "FlowMetric \<Rightarrow> (string \<Rightarrow> string)
     \<Rightarrow> (string \<times> DashboardFlowNode) list \<times> (string \<times> DashboardFlowLink) list \<Rightarrow> PreparedFlowPath
     \<Rightarrow> (string \<times> DashboardFlowNode) list \<times> (string \<times> DashboardFlowLink) list" where
  "add_path metric color_of maps p =
     (case maps of (nodes, links) \<Rightarrow>
        (foldl (addNode metric) nodes (path_node_items color_of p),
         foldl (addLink metric) links (path_link_items color_of p)))"

definition flow_total :: "string list \<Rightarrow> DashboardFlowLink list \<Rightarrow> rat" where
  "flow_total firstStepSources flowLinks =
     foldl (\<lambda>sum link. sum + fl_value link) 0
       (filter (\<lambda>link. fl_source link \<in> set firstStepSources) flowLinks)"

definition link_order :: "flow_env \<Rightarrow> DashboardFlowLink \<Rightarrow> DashboardFlowLink \<Rightarrow> int" where
  "link_order env a b =
     or_else (fe_localeCompare env (fl_source a) (fl_source b))
       (fe_localeCompare env (fl_target a) (fl_target b))"

definition buildFlowGraph ::
    "flow_env \<Rightarrow> FlowMetric \<Rightarrow> FlowRole \<Rightarrow> string list option \<Rightarrow> FlowNodeKind list option \<Rightarrow> token_label
     \<Rightarrow> FlowGraphOptions \<Rightarrow> FlowQuotaDataItem list \<Rightarrow> DashboardFlowGraph" where
  "buildFlowGraph env metric role palette visibleStages ctx options rows =
     (let stages = resolveVisibleStages role visibleStages;
          preparedPaths = prepare_paths env metric stages ctx options rows;
          colors = stableColorMap env (sort_cmp (fe_localeCompare env) (root_ids preparedPaths)) palette;
          color_of = (\<lambda>r. nullish (map_of colors r) (colorAt env 0 palette));
          maps = foldl (add_path metric color_of) ([], []) preparedPaths;
          masked = (if go_maskSensitive options then maskFlowGraphLabels (fst maps) (snd maps) else maps);
          shown = applyFlowHighlights
            (buildFlowHighlightSets preparedPaths (go_activeNode options) (go_activeLink options) stages)
            (map snd (fst masked)) (map snd (snd masked));
          flowLinks = sort_cmp (link_order env) (snd shown);
          firstStepSources = js_set (root_ids preparedPaths);
          total = flow_total firstStepSources flowLinks;
          shared = map (\<lambda>link. link\<lparr>fl_share := (if total > 0 then fl_value link / total else 0)\<rparr>) flowLinks in
      \<lparr>fg_nodes = sort_cmp (byValueThenLabel env) (fst shown),
       fg_links = assignLinkDisplayColors env shared\<rparr>)"

section \<open>Filter options\<close>

record FlowUserFilterOption =
  uf_value :: string
  uf_label :: string
  uf_valueLabel :: string
  uf_valueRaw :: rat
  uf_color :: string

record FlowNodeFilterOption =
  nfo_kind :: FlowNodeKind
  nfo_value :: string
  nfo_label :: string
  nfo_valueLabel :: string
  nfo_valueRaw :: rat
  nfo_color :: string

definition row_has_user :: "FlowQuotaDataItem \<Rightarrow> bool" where
  "row_has_user row \<longleftrightarrow> numberValue (fq_user_id row) \<noteq> 0 \<or> opt_str_or (fq_username row) [] \<noteq> []"

definition buildUserFilterOptions ::
    "flow_env \<Rightarrow> FlowMetric \<Rightarrow> string list option \<Rightarrow> FlowQuotaDataItem list \<Rightarrow> FlowUserFilterOption list" where
  "buildUserFilterOptions env metric palette rows =
     (let colors = stableColorMap env
            (sort_cmp (fe_localeCompare env) (map (\<lambda>row. pn_id (userNode row)) rows)) palette;
          users = foldl add_rank []
            (map (\<lambda>row. (userNode row, metricValue (rowMetrics row) metric)) (filter row_has_user rows)) in
      sort_cmp (\<lambda>a b. or_else (sign_diff (uf_valueRaw b) (uf_valueRaw a))
                        (fe_localeCompare env (uf_label a) (uf_label b)))
        (map (\<lambda>(value, user).
           \<lparr>uf_value = value, uf_label = pn_label (rk_node user),
            uf_valueLabel = fe_formatNumber env (rk_value user), uf_valueRaw = rk_value user,
            uf_color = nullish (map_of colors value) (colorAt env 0 palette)\<rparr>) users))"

definition node_option ::
    "flow_env \<Rightarrow> (string \<times> string) list \<Rightarrow> string list option \<Rightarrow> FlowNodeRank \<Rightarrow> FlowNodeFilterOption" where
  "node_option env colors palette rank =
     \<lparr>nfo_kind = pn_kind (rk_node rank), nfo_value = pn_id (rk_node rank),
      nfo_label = pn_label (rk_node rank), nfo_valueLabel = fe_formatNumber env (rk_value rank),
      nfo_valueRaw = rk_value rank,
      nfo_color = nullish (map_of colors (pn_id (rk_node rank))) (colorAt env 0 palette)\<rparr>"

definition add_keyed_rank ::
    "(string \<times> FlowNodeRank) list \<Rightarrow> FlowPathNode \<times> rat \<Rightarrow> (string \<times> FlowNodeRank) list" where
  "add_keyed_rank m it =
     (case it of (node, value) \<Rightarrow>
        (let key = nodeFilterKey \<lparr>nf_kind = pn_kind node, nf_id = pn_id node\<rparr>;
             current = nullish (map_of m key) \<lparr>rk_node = node, rk_value = 0\<rparr> in
         map_set key (current\<lparr>rk_value := rk_value current + value\<rparr>) m))"

definition stage_options ::
    "flow_env \<Rightarrow> FlowMetric \<Rightarrow> FlowNodeKind list \<Rightarrow> (string \<times> string) list \<Rightarrow> string list option \<Rightarrow> token_label
     \<Rightarrow> FlowNodeFilter list option \<Rightarrow> FlowQuotaDataItem list \<Rightarrow> FlowNodeKind \<Rightarrow> FlowNodeFilterOption list" where
  "stage_options env metric stages colors palette ctx selectedNodes rows stage =
     (let candidateRows =
            filterRowsByNodes ctx stages (selectedNodeFiltersExceptKind selectedNodes stage) rows;
          totals = foldl add_keyed_rank []
            (map (\<lambda>row. (NODE_BUILDERS ctx stage row, metricValue (rowMetrics row) metric)) candidateRows) in
      map (\<lambda>(_, rank). node_option env colors palette rank) totals)"

definition stage_index :: "FlowNodeKind list \<Rightarrow> FlowNodeKind \<Rightarrow> int" where
  "stage_index stages kind = int (length (takeWhile (\<lambda>s. s \<noteq> kind) stages))"

definition buildNodeFilterOptions ::
    "flow_env \<Rightarrow> FlowMetric \<Rightarrow> FlowRole \<Rightarrow> FlowNodeKind list option \<Rightarrow> string list option \<Rightarrow> token_label
     \<Rightarrow> FlowNodeFilter list option \<Rightarrow> FlowQuotaDataItem list \<Rightarrow> FlowNodeFilterOption list" where
  "buildNodeFilterOptions env metric role visibleStages palette ctx selectedNodes rows =
     (let stages = resolveVisibleStages role visibleStages;
          colorIds = js_set (concat (map (\<lambda>row. map pn_id (flowPathForStages ctx stages row)) rows));
          colors = stableColorMap env (sort_cmp (fe_localeCompare env) colorIds) palette;
          options = concat (map (stage_options env metric stages colors palette ctx selectedNodes rows) stages) in
      sort_cmp (\<lambda>a b.
          or_else (stage_index stages (nfo_kind a) - stage_index stages (nfo_kind b))
            (or_else (sign_diff (nfo_valueRaw b) (nfo_valueRaw a))
              (or_else (fe_localeCompare env (nfo_label a) (nfo_label b))
                (fe_localeCompare env (nfo_value a) (nfo_value b))))) options)"

record FlowFilterOptions =
  ff_users :: "FlowUserFilterOption list"
  ff_nodes :: "FlowNodeFilterOption list"

definition buildFlowFilterOptions ::
    "flow_env \<Rightarrow> FlowMetric \<Rightarrow> string list option \<Rightarrow> FlowRole \<Rightarrow> FlowNodeKind list option
     \<Rightarrow> FlowNodeFilter list option \<Rightarrow> FlowQuotaDataItem list \<Rightarrow> FlowFilterOptions" where
  "buildFlowFilterOptions env metric palette role visibleStages selectedNodes rows =
     \<lparr>ff_users = buildUserFilterOptions env metric palette rows,
      ff_nodes = buildNodeFilterOptions env metric role visibleStages palette None selectedNodes rows\<rparr>"

record FlowBuildOptions =
  fb_role :: "FlowRole option"
  fb_selectedUsers :: "string list option"
  fb_selectedNodes :: "FlowNodeFilter list option"
  fb_colorPalette :: "string list option"
  fb_visibleStages :: "FlowNodeKind list option"
  fb_deletedTokenLabel :: token_label
  fb_graph :: FlowGraphOptions

record ProcessedFlowData =
  pf_summary :: FlowSummary
  pf_flow :: DashboardFlowGraph
  pf_filterOptions :: FlowFilterOptions

definition flow_rows :: "FlowBuildOptions \<Rightarrow> FlowQuotaDataItem list \<Rightarrow> FlowQuotaDataItem list" where
  "flow_rows options rows =
     filterRowsByNodes (fb_deletedTokenLabel options)
       (resolveVisibleStages (nullish (fb_role options) UserRole) (fb_visibleStages options))
       (fb_selectedNodes options) (filterRows (fb_selectedUsers options) rows)"

definition buildDashboardFlowData ::
    "flow_env \<Rightarrow> FlowMetric \<Rightarrow> FlowBuildOptions \<Rightarrow> FlowQuotaDataItem list \<Rightarrow> ProcessedFlowData" where
  "buildDashboardFlowData env metric options rows =
     (let role = nullish (fb_role options) UserRole;
          palette = fb_colorPalette options;
          ctx = fb_deletedTokenLabel options;
          filteredRows = flow_rows options rows in
      \<lparr>pf_summary = buildSummary filteredRows,
       pf_flow = buildFlowGraph env metric role palette (fb_visibleStages options) ctx (fb_graph options)
         filteredRows,
       pf_filterOptions =
         \<lparr>ff_users = buildUserFilterOptions env metric palette rows,
          ff_nodes = buildNodeFilterOptions env metric role (fb_visibleStages options) palette ctx
            (fb_selectedNodes options) (filterRows (fb_selectedUsers options) rows)\<rparr>\<rparr>)"

section \<open>Selection (flow-selection.ts)\<close>

datatype FlowDisplayState = FlowLoading | FlowError | FlowEmpty | FlowChart

text \<open>\<open>Inl\<close> is the message of the thrown \<open>Error\<close>.\<close>

record FlowResponse =
  fr_success :: bool
  fr_data :: "FlowQuotaDataItem list option"
  fr_message :: "string option"

definition requireSuccessfulFlowRows :: "FlowResponse \<Rightarrow> string \<Rightarrow> string + FlowQuotaDataItem list" where
  "requireSuccessfulFlowRows response fallbackMessage =
     (if \<not> fr_success response then Inl (opt_str_or (fr_message response) fallbackMessage)
      else Inr (nullish (fr_data response) []))"

definition flowDisplayState :: "bool \<Rightarrow> bool \<Rightarrow> nat \<Rightarrow> bool \<Rightarrow> FlowDisplayState" where
  "flowDisplayState isLoading isError linkCount themeReady =
     (if isLoading then FlowLoading
      else if isError then FlowError
      else if linkCount = 0 then FlowEmpty
      else if \<not> themeReady then FlowLoading
      else FlowChart)"

definition compactFlowSelectionLabel :: "nat \<Rightarrow> string" where
  "compactFlowSelectionLabel n = (if n > 0 then show_nat n else ''*'')"

definition visibleFlowUsers :: "FlowUserFilterOption list \<Rightarrow> string list \<Rightarrow> FlowUserFilterOption list" where
  "visibleFlowUsers users selectedUsers =
     (if length selectedUsers = 0 then users
      else filter (\<lambda>user. uf_value user \<in> set selectedUsers) users)"

end
