(* ===== verification/Accumulator.thy ===== *)
theory Accumulator
  imports Prelude Complex_Main
begin

text \<open>
  The pattern \<open>const current = map.get(key) ?? initial; current.value += weight; map.set(key, current)\<close>,
  by which the sources sum up rows in a \<open>Map\<close>, as an interface: a step that looks up the entry of an
  item, or creates it, and adds the weight of the item to it. What a client may rely on is that the map
  has one entry per key, in the order in which the keys first occur, and that it holds exactly the sums
  of the weights.
\<close>

section \<open>Sums over the entries of a map\<close>

definition map_total :: "('v \<Rightarrow> 'n::comm_monoid_add) \<Rightarrow> ('k \<Rightarrow> bool) \<Rightarrow> ('k \<times> 'v) list \<Rightarrow> 'n" where
  "map_total val P m = sum_list (map (\<lambda>(k, v). if P k then val v else 0) m)"

definition item_total :: "('x \<Rightarrow> 'n::comm_monoid_add) \<Rightarrow> ('x \<Rightarrow> bool) \<Rightarrow> 'x list \<Rightarrow> 'n" where
  "item_total w P xs = sum_list (map (\<lambda>x. if P x then w x else 0) xs)"

lemma item_total_simps [simp]:
  "item_total w P [] = 0"
  "item_total w P (x # xs) = (if P x then w x else 0) + item_total w P xs"
  "item_total w P (xs @ ys) = item_total w P xs + item_total w P ys"
  by (simp_all add: item_total_def)

lemma item_total_filter: "item_total w P xs = sum_list (map w (filter P xs))"
  by (induction xs) auto

lemma item_total_concat: "item_total w P (concat xss) = sum_list (map (item_total w P) xss)"
  by (induction xss) auto

lemma map_total_map_set:
  assumes "distinct (map fst m)"
    and "val new = (case map_of m k of None \<Rightarrow> 0 | Some old \<Rightarrow> val old) + d"
  shows "map_total val P (map_set k new m) = map_total val P m + (if P k then d else 0)"
  using assms
proof (induction k new m rule: map_set.induct)
  case (2 k v k' v' m)
  show ?case
  proof (cases "k = k'")
    case True
    then show ?thesis using 2 by (simp add: map_total_def add_ac)
  next
    case False
    then have "map_of ((k', v') # m) k = map_of m k" by simp
    with 2 False show ?thesis by (simp add: map_total_def add.assoc)
  qed
qed (simp add: map_total_def)

lemma map_of_map_total:
  "distinct (map fst m) \<Longrightarrow> map_of m k = Some v \<Longrightarrow> map_total val (\<lambda>k'. k' = k) m = val v"
proof (induction m)
  case (Cons e m)
  obtain k' v' where e: "e = (k', v')" by (cases e)
  have no: "map_total val (\<lambda>k'. k' = k) m = 0" if "k \<notin> set (map fst m)" for m :: "('a \<times> 'b) list"
    using that by (induction m) (auto simp: map_total_def)
  show ?case using Cons e no [of m] by (cases "k = k'") (auto simp: map_total_def)
qed simp

section \<open>The interface\<close>

locale accumulator =
  fixes step :: "('k \<times> 'v) list \<Rightarrow> 'x \<Rightarrow> ('k \<times> 'v) list"
    and key :: "'x \<Rightarrow> 'k"
    and initial :: "'x \<Rightarrow> 'v"
    and bump :: "'x \<Rightarrow> 'v \<Rightarrow> 'v"
    and val :: "'v \<Rightarrow> 'n::comm_monoid_add"
    and weight :: "'x \<Rightarrow> 'n"
  assumes step: "step m x = map_set (key x) (bump x (nullish (map_of m (key x)) (initial x))) m"
    and val_initial: "val (initial x) = 0"
    and val_bump: "val (bump x v) = val v + weight x"
begin

lemma fold_keys: "map fst (foldl step m xs) = foldl set_add (map fst m) (map key xs)"
  by (induction xs arbitrary: m) (simp_all add: step key_list_map_set)

lemma fold_distinct: "distinct (map fst m) \<Longrightarrow> distinct (map fst (foldl step m xs))"
  by (induction xs arbitrary: m) (simp_all add: step distinct_map_set)

lemma fold_total:
  "distinct (map fst m) \<Longrightarrow>
   map_total val P (foldl step m xs) = map_total val P m + item_total weight (\<lambda>x. P (key x)) xs"
proof (induction xs arbitrary: m)
  case (Cons x xs)
  have "val (bump x (nullish (map_of m (key x)) (initial x))) =
      (case map_of m (key x) of None \<Rightarrow> 0 | Some old \<Rightarrow> val old) + weight x"
    by (simp add: val_bump nullish_def val_initial split: option.splits)
  then have "map_total val P (step m x) = map_total val P m + (if P (key x) then weight x else 0)"
    unfolding step by (rule map_total_map_set [OF Cons.prems])
  moreover have "distinct (map fst (step m x))" using Cons.prems by (simp add: step distinct_map_set)
  ultimately show ?case using Cons.IH [of "step m x"] by (simp add: add.assoc)
qed simp

lemma collect_distinct: "distinct (map fst (foldl step [] xs))"
  by (rule fold_distinct) simp

lemma collect_keys: "map fst (foldl step [] xs) = js_set (map key xs)"
  by (simp add: fold_keys js_set_def)

lemma collect_total: "map_total val P (foldl step [] xs) = item_total weight (\<lambda>x. P (key x)) xs"
  by (simp add: fold_total) (simp add: map_total_def)

lemma collect_value:
  "map_of (foldl step [] xs) k = Some v \<Longrightarrow> val v = sum_list (map weight (filter (\<lambda>x. key x = k) xs))"
  using map_of_map_total [OF collect_distinct, of xs k v val] collect_total [of "\<lambda>k'. k' = k" xs]
  by (simp add: item_total_filter)

text \<open>A part of an entry that an addition does not change is the one an item with its key created it
  with.\<close>

lemma collect_origin:
  assumes "\<And>x v. part (bump x v) = part v" and "(k, v) \<in> set (foldl step [] xs)"
  shows "\<exists>x \<in> set xs. key x = k \<and> part v = part (initial x)"
proof -
  have "(k, v) \<in> set (foldl step m xs) \<Longrightarrow>
      (\<exists>x \<in> set xs. key x = k \<and> part v = part (initial x)) \<or> (\<exists>v'. (k, v') \<in> set m \<and> part v = part v')" for m
  proof (induction xs arbitrary: m)
    case (Cons x xs)
    let ?new = "bump x (nullish (map_of m (key x)) (initial x))"
    from Cons.IH [of "step m x"] Cons.prems
    consider "\<exists>x' \<in> set xs. key x' = k \<and> part v = part (initial x')"
      | v' where "(k, v') \<in> set (step m x)" "part v = part v'" by auto
    then show ?case
    proof cases
      case (2 v')
      then have "(k, v') = (key x, ?new) \<or> (k, v') \<in> set m" unfolding step by (blast dest: set_map_set)
      then show ?thesis
      proof
        assume e: "(k, v') = (key x, ?new)"
        show ?thesis
        proof (cases "map_of m (key x)")
          case None
          then show ?thesis using e 2 by (auto simp: nullish_def assms(1))
        next
          case (Some w)
          then show ?thesis using e 2 map_of_SomeD [OF Some] by (auto simp: nullish_def assms(1))
        qed
      qed (use 2 in auto)
    qed auto
  qed auto
  from this [of "[]"] assms(2) show ?thesis by auto
qed

lemma collect_fixed:
  assumes "\<And>x v. part (bump x v) = part v" and "\<And>x. x \<in> set xs \<Longrightarrow> part (initial x) = of_key (key x)"
    and "(k, v) \<in> set (foldl step [] xs)"
  shows "part v = of_key k"
  using collect_origin [OF assms(1,3)] assms(2) by auto

end

end
