(* ===== verification/FlowGraph.thy ===== *)
theory FlowGraph
  imports Flow Accumulator
begin

text \<open>
  What the flow graph promises: every unit of usage of the rows enters the diagram once, passes every
  stage and leaves it at the last one. The node and link maps are accumulators; the statements about the
  drawn graph follow from the sums they hold, since the later passes of \<open>buildFlowGraph\<close> (masking,
  highlighting, shares, colours, sorting) do not touch identities and values.
\<close>

section \<open>Accumulators\<close>

interpretation node_acc: accumulator "addNode metric" "\<lambda>it. pn_id (ni_node it)" new_node "bump_node metric"
    fn_value "\<lambda>it. metricValue (ni_metrics it) metric" for metric
  by unfold_locales (simp_all add: addNode_def Let_def new_node_def bump_node_def)

interpretation link_acc: accumulator "addLink metric" "\<lambda>it. pathLinkKey (li_source it) (li_target it)"
    new_link "bump_link metric" fl_value "\<lambda>it. metricValue (li_metrics it) metric" for metric
  by unfold_locales (simp_all add: addLink_def Let_def new_link_def bump_link_def)

interpretation rank_acc: accumulator add_rank "\<lambda>it. pn_id (fst it)" "\<lambda>it. \<lparr>rk_node = fst it, rk_value = 0\<rparr>"
    "\<lambda>it r. r\<lparr>rk_value := rk_value r + snd it\<rparr>" rk_value snd
  by unfold_locales (simp_all add: add_rank_def Let_def split: prod.splits)

interpretation option_acc: accumulator add_keyed_rank
    "\<lambda>it. nodeFilterKey \<lparr>nf_kind = pn_kind (fst it), nf_id = pn_id (fst it)\<rparr>"
    "\<lambda>it. \<lparr>rk_node = fst it, rk_value = 0\<rparr>" "\<lambda>it r. r\<lparr>rk_value := rk_value r + snd it\<rparr>" rk_value snd
  by unfold_locales (simp_all add: add_keyed_rank_def Let_def split: prod.splits)

section \<open>Identities of nodes\<close>

text \<open>The part of an identifier before the colon names the kind of the node.\<close>

definition id_stage :: "string \<Rightarrow> string" where
  "id_stage nid = takeWhile (\<lambda>c. c \<noteq> CHR '':'') nid"

lemma id_stage_append: "id_stage (kind_text k @ CHR '':'' # rest) = kind_text k"
  by (cases k) (simp_all add: id_stage_def kind_text_def)

lemma kind_text_inj: "kind_text a = kind_text b \<longleftrightarrow> a = b"
  by (cases a; cases b) (simp_all add: kind_text_def)

lemma builder_id: "\<exists>rest. pn_id (NODE_BUILDERS ctx k row) = kind_text k @ CHR '':'' # rest"
  by (cases k) (auto simp: NODE_BUILDERS_def userNode_def nodeNameNode_def tokenNode_def groupNode_def
      modelNode_def channelNode_def kind_text_def Let_def)

lemma builder_kind [simp]: "pn_kind (NODE_BUILDERS ctx k row) = k"
  by (cases k) (simp_all add: NODE_BUILDERS_def userNode_def nodeNameNode_def tokenNode_def groupNode_def
      modelNode_def channelNode_def Let_def)

lemma builder_stage [simp]: "id_stage (pn_id (NODE_BUILDERS ctx k row)) = kind_text k"
  using builder_id [of ctx k row] id_stage_append by metis

lemma other_id: "OTHER_FLOW_NODE_IDS k = kind_text k @ CHR '':'' # ''__other__''"
  by (cases k) (simp_all add: OTHER_FLOW_NODE_IDS_def kind_text_def)

lemma other_node [simp]:
  "pn_kind (otherFlowNode labeler k) = k"
  "id_stage (pn_id (otherFlowNode labeler k)) = kind_text k"
  by (simp_all add: otherFlowNode_def other_id id_stage_append)

definition path_wf :: "FlowNodeKind list \<Rightarrow> FlowPathNode list \<Rightarrow> bool" where
  "path_wf stages path \<longleftrightarrow>
     map pn_kind path = stages \<and> list_all (\<lambda>n. id_stage (pn_id n) = kind_text (pn_kind n)) path"

lemma row_path_wf: "path_wf stages (flowPathForStages ctx stages row)"
  by (simp add: path_wf_def flowPathForStages_def comp_def list_all_iff)

lemma limited_path_wf:
  "path_wf stages path \<Longrightarrow> applyTopNodeLimit tops mode labeler path = Some path' \<Longrightarrow> path_wf stages path'"
  by (auto simp: applyTopNodeLimit_def path_wf_def list_all_iff comp_def split: if_splits)

lemma prepared_wf:
  "p \<in> set (prepare_paths env metric stages ctx options rows) \<Longrightarrow> path_wf stages (pp_path p)"
  using limited_path_wf [OF row_path_wf]
  by (auto simp: prepare_paths_def Let_def set_map_filter prepare_row_def)

lemma stages_distinct: "distinct (resolveVisibleStages role vs)"
  by (cases role) (auto simp: resolveVisibleStages_def getFlowStages_def Let_def split: option.splits)

lemma stages_length: "2 \<le> length (resolveVisibleStages role vs)"
  by (cases role) (auto simp: resolveVisibleStages_def getFlowStages_def Let_def split: option.splits)

text \<open>A node of another stage than the first (the last) is not at the start (the end) of a path.\<close>

lemma stage_of_member:
  "path_wf stages path \<Longrightarrow> n \<in> set path \<Longrightarrow> id_stage (pn_id n) = kind_text (pn_kind n)"
  by (auto simp: path_wf_def list_all_iff)

lemma hd_kind: "path_wf stages path \<Longrightarrow> path \<noteq> [] \<Longrightarrow> pn_kind (hd path) = hd stages"
  by (auto simp: path_wf_def hd_map)

lemma last_kind: "path_wf stages path \<Longrightarrow> path \<noteq> [] \<Longrightarrow> pn_kind (last path) = last stages"
  by (auto simp: path_wf_def last_map)

lemma path_links_fst: "map fst (path_links path) = butlast path"
  by (induction path rule: path_links.induct) auto

lemma path_links_snd: "map snd (path_links path) = tl path"
  by (induction path rule: path_links.induct) auto

lemma filter_butlast: "xs \<noteq> [] \<Longrightarrow> \<not> P (last xs) \<Longrightarrow> filter P (butlast xs) = filter P xs"
  by (cases xs rule: rev_cases) auto

lemma filter_tl: "xs \<noteq> [] \<Longrightarrow> \<not> P (hd xs) \<Longrightarrow> filter P (tl xs) = filter P xs"
  by (cases xs) auto

section \<open>Sums over paths\<close>

lemma add_path_fold:
  "foldl (add_path metric c) (ns, ls) ps =
     (foldl (addNode metric) ns (concat (map (path_node_items c) ps)),
      foldl (addLink metric) ls (concat (map (path_link_items c) ps)))"
  by (induction ps arbitrary: ns ls) (simp_all add: add_path_def)

lemma const_total: "item_total (\<lambda>_. w) P xs = of_nat (length (filter P xs)) * (w::rat)"
  by (induction xs) (auto simp: algebra_simps)

lemma item_total_map: "item_total w P (map f xs) = item_total (\<lambda>x. w (f x)) (\<lambda>x. P (f x)) xs"
  by (induction xs) auto

lemma length_filter_map: "length (filter (\<lambda>x. P (f x)) xs) = length (filter P (map f xs))"
  by (induction xs) auto

text \<open>The weight that a path gives to the nodes and to the links that satisfy a property of the
  identifier.\<close>

lemma path_node_total:
  "item_total (\<lambda>it. metricValue (ni_metrics it) metric) (\<lambda>it. P (pn_id (ni_node it))) (path_node_items c p) =
   of_nat (length (filter (\<lambda>n. P (pn_id n)) (pp_path p))) * metricValue (pp_metrics p) metric"
  by (cases "pp_path p") (auto simp: path_node_items_def item_total_map const_total algebra_simps)

lemma path_source_total:
  "item_total (\<lambda>it. metricValue (li_metrics it) metric) (\<lambda>it. P (pn_id (li_source it))) (path_link_items c p) =
   of_nat (length (filter (\<lambda>n. P (pn_id n)) (butlast (pp_path p)))) * metricValue (pp_metrics p) metric"
proof (cases "pp_path p")
  case (Cons a path)
  have "length (filter (\<lambda>x. P (pn_id (fst x))) (path_links (pp_path p))) =
      length (filter (\<lambda>n. P (pn_id n)) (butlast (pp_path p)))"
    using length_filter_map [of "\<lambda>n. P (pn_id n)" fst "path_links (pp_path p)"] unfolding path_links_fst .
  then show ?thesis using Cons by (simp add: path_link_items_def item_total_map const_total case_prod_unfold)
qed (simp add: path_link_items_def)

lemma path_target_total:
  "item_total (\<lambda>it. metricValue (li_metrics it) metric) (\<lambda>it. P (pn_id (li_target it))) (path_link_items c p) =
   of_nat (length (filter (\<lambda>n. P (pn_id n)) (tl (pp_path p)))) * metricValue (pp_metrics p) metric"
proof (cases "pp_path p")
  case (Cons a path)
  have "length (filter (\<lambda>x. P (pn_id (snd x))) (path_links (pp_path p))) =
      length (filter (\<lambda>n. P (pn_id n)) (tl (pp_path p)))"
    using length_filter_map [of "\<lambda>n. P (pn_id n)" snd "path_links (pp_path p)"] unfolding path_links_snd .
  then show ?thesis using Cons by (simp add: path_link_items_def item_total_map const_total case_prod_unfold)
qed (simp add: path_link_items_def)

abbreviation node_items :: "(string \<Rightarrow> string) \<Rightarrow> PreparedFlowPath list \<Rightarrow> node_item list" where
  "node_items c ps \<equiv> concat (map (path_node_items c) ps)"

abbreviation link_items :: "(string \<Rightarrow> string) \<Rightarrow> PreparedFlowPath list \<Rightarrow> link_item list" where
  "link_items c ps \<equiv> concat (map (path_link_items c) ps)"

lemma outflow_items:
  assumes "list_all (\<lambda>p. path_wf stages (pp_path p)) ps" and "stages \<noteq> []" and "id_stage x \<noteq> kind_text (last stages)"
  shows "item_total (\<lambda>it. metricValue (li_metrics it) metric) (\<lambda>it. pn_id (li_source it) = x) (link_items c ps) =
         item_total (\<lambda>it. metricValue (ni_metrics it) metric) (\<lambda>it. pn_id (ni_node it) = x) (node_items c ps)"
proof -
  have "filter (\<lambda>n. pn_id n = x) (butlast (pp_path p)) = filter (\<lambda>n. pn_id n = x) (pp_path p)" if "p \<in> set ps" for p
  proof (cases "pp_path p = []")
    case False
    have wf: "path_wf stages (pp_path p)" using assms(1) that by (simp add: list_all_iff)
    have "pn_id (last (pp_path p)) \<noteq> x"
      using assms(3) stage_of_member [OF wf last_in_set [OF False]] last_kind [OF wf False] by auto
    with False show ?thesis by (rule filter_butlast)
  qed simp
  then have "item_total (\<lambda>it. metricValue (li_metrics it) metric) (\<lambda>it. pn_id (li_source it) = x) (path_link_items c p) =
      item_total (\<lambda>it. metricValue (ni_metrics it) metric) (\<lambda>it. pn_id (ni_node it) = x) (path_node_items c p)"
    if "p \<in> set ps" for p
    using that path_source_total [of metric "\<lambda>y. y = x" c p] path_node_total [of metric "\<lambda>y. y = x" c p] by simp
  then show ?thesis by (simp add: item_total_concat comp_def cong: map_cong)
qed

lemma inflow_items:
  assumes "list_all (\<lambda>p. path_wf stages (pp_path p)) ps" and "stages \<noteq> []" and "id_stage x \<noteq> kind_text (hd stages)"
  shows "item_total (\<lambda>it. metricValue (li_metrics it) metric) (\<lambda>it. pn_id (li_target it) = x) (link_items c ps) =
         item_total (\<lambda>it. metricValue (ni_metrics it) metric) (\<lambda>it. pn_id (ni_node it) = x) (node_items c ps)"
proof -
  have "filter (\<lambda>n. pn_id n = x) (tl (pp_path p)) = filter (\<lambda>n. pn_id n = x) (pp_path p)" if "p \<in> set ps" for p
  proof (cases "pp_path p = []")
    case False
    have wf: "path_wf stages (pp_path p)" using assms(1) that by (simp add: list_all_iff)
    have "pn_id (hd (pp_path p)) \<noteq> x"
      using assms(3) stage_of_member [OF wf hd_in_set [OF False]] hd_kind [OF wf False] by auto
    with False show ?thesis by (rule filter_tl)
  qed simp
  then have "item_total (\<lambda>it. metricValue (li_metrics it) metric) (\<lambda>it. pn_id (li_target it) = x) (path_link_items c p) =
      item_total (\<lambda>it. metricValue (ni_metrics it) metric) (\<lambda>it. pn_id (ni_node it) = x) (path_node_items c p)"
    if "p \<in> set ps" for p
    using that path_target_total [of metric "\<lambda>y. y = x" c p] path_node_total [of metric "\<lambda>y. y = x" c p] by simp
  then show ?thesis by (simp add: item_total_concat comp_def cong: map_cong)
qed

section \<open>Later passes keep identities and values\<close>

definition link_core :: "DashboardFlowLink \<Rightarrow> string \<times> string \<times> rat" where
  "link_core l = (fl_source l, fl_target l, fl_value l)"

definition node_core :: "DashboardFlowNode \<Rightarrow> string \<times> FlowNodeKind \<times> rat" where
  "node_core n = (fn_id n, fn_kind n, fn_value n)"

lemma core_passes [simp]:
  "node_core (mask_node n) = node_core n"
  "node_core (highlight_node h n) = node_core n"
  "link_core (mask_link m l) = link_core l"
  "link_core (highlight_link h l) = link_core l"
  "link_core (l\<lparr>fl_share := x\<rparr>) = link_core l"
  "link_core (display_link env k i l) = link_core l"
  by (simp_all add: node_core_def link_core_def mask_node_def highlight_node_def mask_link_def
      highlight_link_def display_link_def Let_def split: prod.splits)

lemma stable_key_core: "link_core l = link_core l' \<Longrightarrow> linkStableKey l = linkStableKey l'"
  by (simp add: link_core_def linkStableKey_def)

lemma mask_cores:
  assumes "maskFlowGraphLabels ns ls = (ns', ls')"
  shows "map node_core (map snd ns') = map node_core (map snd ns)"
    and "map link_core (map snd ls') = map link_core (map snd ls)"
  using assms by (auto simp: maskFlowGraphLabels_def Let_def split: if_splits)

lemma highlight_cores:
  "map node_core (fst (applyFlowHighlights h ns ls)) = map node_core ns"
  "map link_core (snd (applyFlowHighlights h ns ls)) = map link_core ls"
  by (auto simp: applyFlowHighlights_def split: option.splits)

lemma links_by_source_members:
  "(src, ls) \<in> set (links_by_source links) \<Longrightarrow> set ls \<subseteq> set links"
proof -
  have "\<forall>(src, ls) \<in> set (foldl (\<lambda>m link. map_set (fl_source link)
          (nullish (map_of m (fl_source link)) [] @ [link]) m) m xs). set ls \<subseteq> set links"
    if "\<forall>(src, ls) \<in> set m. set ls \<subseteq> set links" and "set xs \<subseteq> set links" for m xs
    using that
  proof (induction xs arbitrary: m)
    case (Cons x xs)
    have old: "set (nullish (map_of m (fl_source x)) []) \<subseteq> set links"
    proof (cases "map_of m (fl_source x)")
      case (Some ls)
      then show ?thesis using bspec [OF Cons.prems(1) map_of_SomeD [OF Some]] by (simp add: nullish_def)
    qed (simp add: nullish_def)
    have "\<forall>(src, ls) \<in> set (map_set (fl_source x) (nullish (map_of m (fl_source x)) [] @ [x]) m).
        set ls \<subseteq> set links"
    proof
      fix e assume "e \<in> set (map_set (fl_source x) (nullish (map_of m (fl_source x)) [] @ [x]) m)"
      then have "e = (fl_source x, nullish (map_of m (fl_source x)) [] @ [x]) \<or> e \<in> set m"
        by (rule set_map_set)
      then show "case e of (src, ls) \<Rightarrow> set ls \<subseteq> set links"
        using Cons.prems old by (elim disjE) simp_all
    qed
    then show ?case using Cons by simp
  qed simp
  from this [of "[]" links] show "(src, ls) \<in> set (links_by_source links) \<Longrightarrow> set ls \<subseteq> set links"
    by (auto simp: links_by_source_def)
qed

lemma group_display_member:
  assumes "(k, l') \<in> set (group_display env ls)"
  shows "\<exists>l n i. l \<in> set ls \<and> k = linkStableKey l \<and> l' = display_link env n i l"
proof -
  obtain i l where l: "(i, l) \<in> set (List.enumerate 0 (sort_cmp (link_display_cmp env) ls))"
    and e: "k = linkStableKey l" "\<exists>n. l' = display_link env n i l"
    using assms by (auto simp: group_display_def Let_def)
  from l have "l \<in> set (sort_cmp (link_display_cmp env) ls)" by (metis in_set_enumerate_eq nth_mem snd_conv add_0_right diff_zero fst_conv)
  with e show ?thesis by (auto simp: sort_cmp_def set_sort_by)
qed

lemma assign_colors_core:
  assumes "distinct (map linkStableKey links)" and "\<And>n i l. core (display_link env n i l) = core l"
  shows "map core (assignLinkDisplayColors env links) = map core links"
proof -
  have "core (nullish (map_of updates (linkStableKey l)) l) = core l"
    if l: "l \<in> set links" and u: "updates = concat (map (\<lambda>(_, ls). group_display env ls) (links_by_source links))"
    for l updates
  proof (cases "map_of updates (linkStableKey l)")
    case (Some l')
    then have "(linkStableKey l, l') \<in> set updates" by (rule map_of_SomeD)
    then obtain src ls where g: "(src, ls) \<in> set (links_by_source links)"
      "(linkStableKey l, l') \<in> set (group_display env ls)" by (auto simp: u)
    obtain l0 n i where l0: "l0 \<in> set ls" "linkStableKey l = linkStableKey l0" "l' = display_link env n i l0"
      using group_display_member [OF g(2)] by blast
    have "l0 \<in> set links" using l0(1) links_by_source_members [OF g(1)] by blast
    with l l0(2) assms(1) have "l0 = l" by (auto simp: distinct_map dest: inj_onD)
    with l0 Some show ?thesis by (simp add: nullish_def assms(2))
  qed (simp add: nullish_def)
  then show ?thesis by (simp add: assignLinkDisplayColors_def Let_def)
qed

section \<open>The cores of the graph\<close>

lemma link_map_keys:
  "(k, l) \<in> set (foldl (addLink metric) [] its) \<Longrightarrow> linkStableKey l = k"
  by (rule link_acc.collect_fixed [where of_key = "\<lambda>k. k"])
     (auto simp: linkStableKey_def bump_link_def new_link_def pathLinkKey_def)

lemma link_map_distinct: "distinct (map linkStableKey (map snd (foldl (addLink metric) [] its)))"
proof -
  have "map linkStableKey (map snd (foldl (addLink metric) [] its)) = map fst (foldl (addLink metric) [] its)"
    using link_map_keys [of _ _ metric its] by auto
  then show ?thesis using link_acc.collect_distinct [of metric its] by (simp only:)
qed

lemma map_core_keys: "map link_core ls = map link_core ls' \<Longrightarrow> map linkStableKey ls = map linkStableKey ls'"
proof -
  have "map linkStableKey ls = map (\<lambda>(a, b, c). link_key a b) (map link_core ls)" for ls
    by (simp add: link_core_def linkStableKey_def)
  then show "map link_core ls = map link_core ls' \<Longrightarrow> map linkStableKey ls = map linkStableKey ls'" by metis
qed

definition link_sum :: "(string \<Rightarrow> string \<Rightarrow> bool) \<Rightarrow> DashboardFlowLink list \<Rightarrow> rat" where
  "link_sum P ls = sum_list (map (\<lambda>(s, t, v). if P s t then v else 0) (map link_core ls))"

lemma link_sum_filter: "link_sum P ls = sum_list (map fl_value (filter (\<lambda>l. P (fl_source l) (fl_target l)) ls))"
  by (induction ls) (simp_all add: link_sum_def link_core_def)

lemma link_sum_mset:
  "mset (map link_core ls) = mset (map link_core ls') \<Longrightarrow> link_sum P ls = link_sum P ls'"
proof -
  assume m: "mset (map link_core ls) = mset (map link_core ls')"
  have sums: "sum_list (map f xs) = sum_mset (image_mset f (mset xs))"
    for f :: "string \<times> string \<times> rat \<Rightarrow> rat" and xs
    by (induction xs) simp_all
  show ?thesis unfolding link_sum_def sums m ..
qed

lemma flow_total_sum: "flow_total roots ls = link_sum (\<lambda>s t. s \<in> set roots) ls"
proof -
  have "foldl (\<lambda>sum link. sum + fl_value link) a xs = a + sum_list (map fl_value xs)"
    for a :: rat and xs :: "DashboardFlowLink list"
    by (induction xs arbitrary: a) (simp_all add: add.assoc)
  then show ?thesis by (simp add: flow_total_def link_sum_filter)
qed

text \<open>The prepared paths and the colours of a graph, as \<open>buildFlowGraph\<close> computes them.\<close>

definition graph_paths ::
    "flow_env \<Rightarrow> FlowMetric \<Rightarrow> FlowRole \<Rightarrow> FlowNodeKind list option \<Rightarrow> token_label \<Rightarrow> FlowGraphOptions
     \<Rightarrow> FlowQuotaDataItem list \<Rightarrow> PreparedFlowPath list" where
  "graph_paths env metric role visibleStages ctx options rows =
     prepare_paths env metric (resolveVisibleStages role visibleStages) ctx options rows"

definition graph_colors ::
    "flow_env \<Rightarrow> string list option \<Rightarrow> PreparedFlowPath list \<Rightarrow> string \<Rightarrow> string" where
  "graph_colors env palette ps r =
     nullish (map_of (stableColorMap env (sort_cmp (fe_localeCompare env) (root_ids ps)) palette) r)
       (colorAt env 0 palette)"

abbreviation link_map :: "FlowMetric \<Rightarrow> (string \<Rightarrow> string) \<Rightarrow> PreparedFlowPath list \<Rightarrow> (string \<times> DashboardFlowLink) list" where
  "link_map metric c ps \<equiv> foldl (addLink metric) [] (link_items c ps)"

abbreviation node_map :: "FlowMetric \<Rightarrow> (string \<Rightarrow> string) \<Rightarrow> PreparedFlowPath list \<Rightarrow> (string \<times> DashboardFlowNode) list" where
  "node_map metric c ps \<equiv> foldl (addNode metric) [] (node_items c ps)"

text \<open>The maps after masking, before they are highlighted, sorted, shared and coloured.\<close>

definition graph_maps ::
    "FlowMetric \<Rightarrow> FlowGraphOptions \<Rightarrow> (string \<Rightarrow> string) \<Rightarrow> PreparedFlowPath list
     \<Rightarrow> (string \<times> DashboardFlowNode) list \<times> (string \<times> DashboardFlowLink) list" where
  "graph_maps metric options c ps =
     (if go_maskSensitive options then maskFlowGraphLabels (node_map metric c ps) (link_map metric c ps)
      else (node_map metric c ps, link_map metric c ps))"

lemma graph_maps_cores:
  "map node_core (map snd (fst (graph_maps metric options c ps))) = map node_core (map snd (node_map metric c ps))"
  "map link_core (map snd (snd (graph_maps metric options c ps))) = map link_core (map snd (link_map metric c ps))"
  unfolding graph_maps_def
  using mask_cores [of "node_map metric c ps" "link_map metric c ps", OF surjective_pairing]
  by (auto simp del: map_map)

definition with_share :: "rat \<Rightarrow> DashboardFlowLink \<Rightarrow> DashboardFlowLink" where
  "with_share t link = link\<lparr>fl_share := (if t > 0 then fl_value link / t else 0)\<rparr>"

lemma share_core [simp]: "link_core (with_share t l) = link_core l"
  by (simp add: with_share_def)

lemma graph_stages:
  assumes "g = buildFlowGraph env metric role palette vs ctx options rows"
    and "ps = graph_paths env metric role vs ctx options rows"
    and "c = graph_colors env palette ps"
  shows "\<exists>h fls. fg_nodes g = sort_cmp (byValueThenLabel env)
        (fst (applyFlowHighlights h (map snd (fst (graph_maps metric options c ps)))
          (map snd (snd (graph_maps metric options c ps))))) \<and>
      mset fls = mset (snd (applyFlowHighlights h (map snd (fst (graph_maps metric options c ps)))
          (map snd (snd (graph_maps metric options c ps))))) \<and>
      fg_links g = assignLinkDisplayColors env (map (with_share (flow_total (js_set (root_ids ps)) fls)) fls)"
proof -
  let ?maps = "graph_maps metric options c ps"
  let ?shown = "applyFlowHighlights
    (buildFlowHighlightSets ps (go_activeNode options) (go_activeLink options) (resolveVisibleStages role vs))
    (map snd (fst ?maps)) (map snd (snd ?maps))"
  have "foldl (add_path metric c) ([], []) ps = (node_map metric c ps, link_map metric c ps)"
    by (rule add_path_fold)
  then have m: "(if go_maskSensitive options
       then maskFlowGraphLabels (fst (foldl (add_path metric c) ([], []) ps)) (snd (foldl (add_path metric c) ([], []) ps))
       else foldl (add_path metric c) ([], []) ps) = ?maps"
    by (simp only: graph_maps_def fst_conv snd_conv)
  have c: "(\<lambda>r. nullish (map_of (stableColorMap env (sort_cmp (fe_localeCompare env) (root_ids ps)) palette) r)
      (colorAt env 0 palette)) = c"
    by (simp add: assms(3) graph_colors_def fun_eq_iff)
  have g: "g = \<lparr>fg_nodes = sort_cmp (byValueThenLabel env) (fst ?shown),
      fg_links = assignLinkDisplayColors env (map (with_share (flow_total (js_set (root_ids ps))
        (sort_cmp (link_order env) (snd ?shown)))) (sort_cmp (link_order env) (snd ?shown)))\<rparr>"
    unfolding assms(1) buildFlowGraph_def Let_def with_share_def graph_paths_def [symmetric] assms(2) [symmetric] c m ..
  show ?thesis
    by (rule exI, rule exI [of _ "sort_cmp (link_order env) (snd ?shown)"]) (simp add: g sort_cmp_def)
qed

text \<open>A part of the nodes and links that the later passes keep is the one of the maps.\<close>

lemma graph_node_parts:
  assumes "g = buildFlowGraph env metric role palette vs ctx options rows"
    and "ps = graph_paths env metric role vs ctx options rows" and "c = graph_colors env palette ps"
    and "\<And>h n. part (highlight_node h n) = part n"
  shows "mset (map part (fg_nodes g)) = mset (map part (map snd (fst (graph_maps metric options c ps))))"
proof -
  have keep: "map part (fst (applyFlowHighlights h ns ls)) = map part ns" for h ns ls
    by (simp add: applyFlowHighlights_def assms(4) comp_def split: option.splits)
  obtain h where g: "fg_nodes g = sort_cmp (byValueThenLabel env)
      (fst (applyFlowHighlights h (map snd (fst (graph_maps metric options c ps)))
        (map snd (snd (graph_maps metric options c ps)))))"
    using graph_stages [OF assms(1-3)] by blast
  show ?thesis unfolding g sort_cmp_def mset_map [of part] mset_sort_by
    unfolding mset_map [of part, symmetric] keep ..
qed

lemma shown_keys:
  assumes "mset fls = mset (snd (applyFlowHighlights h ns (map snd (snd (graph_maps metric options c ps)))))"
  shows "distinct (map linkStableKey (map (with_share t) fls))"
proof -
  let ?ls = "snd (applyFlowHighlights h ns (map snd (snd (graph_maps metric options c ps))))"
  have "map link_core ?ls = map link_core (map snd (link_map metric c ps))"
    unfolding highlight_cores graph_maps_cores ..
  from map_core_keys [OF this] have d: "distinct (map linkStableKey ?ls)"
    using link_map_distinct [of metric "link_items c ps"] by simp
  have "map linkStableKey (map (with_share t) fls) = map linkStableKey fls"
    by (simp add: with_share_def linkStableKey_def)
  moreover have "mset (map linkStableKey fls) = mset (map linkStableKey ?ls)" using assms by simp
  ultimately show ?thesis using d by (metis mset_eq_imp_distinct_iff)
qed

lemma graph_link_parts:
  assumes "g = buildFlowGraph env metric role palette vs ctx options rows"
    and "ps = graph_paths env metric role vs ctx options rows" and "c = graph_colors env palette ps"
    and "\<And>h l. part (highlight_link h l) = part l" and "\<And>t l. part (with_share t l) = part l"
    and "\<And>n i l. part (display_link env n i l) = part l"
  shows "mset (map part (fg_links g)) = mset (map part (map snd (snd (graph_maps metric options c ps))))"
proof -
  obtain h fls t where fls: "mset fls = mset (snd (applyFlowHighlights h (map snd (fst (graph_maps metric options c ps)))
          (map snd (snd (graph_maps metric options c ps)))))"
    and g: "fg_links g = assignLinkDisplayColors env (map (with_share t) fls)"
    using graph_stages [OF assms(1-3)] by blast
  have "map part (fg_links g) = map part (map (with_share t) fls)"
    unfolding g by (rule assign_colors_core [OF shown_keys [OF fls] assms(6)])
  also have "\<dots> = map part fls" by (simp add: assms(5))
  finally have "mset (map part (fg_links g)) = image_mset part (mset fls)" by simp
  also have "\<dots> = mset (map part (snd (applyFlowHighlights h (map snd (fst (graph_maps metric options c ps)))
          (map snd (snd (graph_maps metric options c ps))))))" unfolding fls by simp
  also have "map part (snd (applyFlowHighlights h ns ls)) = map part ls" for h ns ls
    by (simp add: applyFlowHighlights_def assms(4) comp_def split: option.splits)
  finally show ?thesis .
qed

lemma graph_shares:
  assumes "g = buildFlowGraph env metric role palette vs ctx options rows"
    and "ps = graph_paths env metric role vs ctx options rows" and "l \<in> set (fg_links g)"
  shows "fl_share l = (let total = link_sum (\<lambda>s t. s \<in> set (root_ids ps)) (fg_links g) in
    if total > 0 then fl_value l / total else 0)"
proof -
  obtain h fls t c where fls: "mset fls = mset (snd (applyFlowHighlights h (map snd (fst (graph_maps metric options c ps)))
          (map snd (snd (graph_maps metric options c ps)))))"
    and g: "fg_links g = assignLinkDisplayColors env (map (with_share t) fls)"
    and t: "t = flow_total (js_set (root_ids ps)) fls"
    using graph_stages [OF assms(1,2) refl] by blast
  note dk = shown_keys [OF fls, of t]
  have lc: "map link_core (fg_links g) = map link_core fls"
    unfolding g assign_colors_core [OF dk, of link_core env, OF core_passes(6)] by (simp add: comp_def)
  have t: "t = link_sum (\<lambda>s t. s \<in> set (root_ids ps)) (fg_links g)"
    unfolding t flow_total_sum set_js_set by (rule link_sum_mset) (simp only: lc)
  let ?core = "\<lambda>l. (fl_value l, fl_share l)"
  have "?core (display_link env n i l) = ?core l" for n i l
    by (simp add: display_link_def split: prod.splits)
  then have eq: "map ?core (fg_links g) = map ?core (map (with_share t) fls)"
    unfolding g by (rule assign_colors_core [OF dk])
  have "?core l \<in> set (map ?core (fg_links g))" unfolding set_map using assms(3) by (rule imageI)
  then have "?core l \<in> set (map ?core (map (with_share t) fls))" unfolding eq .
  then show ?thesis unfolding Let_def t [symmetric] by (auto simp: with_share_def)
qed

lemma graph_cores:
  assumes "g = buildFlowGraph env metric role palette vs ctx options rows"
    and "ps = graph_paths env metric role vs ctx options rows"
  shows "\<exists>c. mset (map node_core (fg_nodes g)) = mset (map node_core (map snd (node_map metric c ps))) \<and>
    mset (map link_core (fg_links g)) = mset (map link_core (map snd (link_map metric c ps)))"
  using graph_node_parts [OF assms refl, of node_core] graph_link_parts [OF assms refl, of link_core]
  unfolding graph_maps_cores by (intro exI conjI) simp_all

section \<open>Conservation\<close>

definition key_source :: "string \<Rightarrow> string" where
  "key_source k = takeWhile (\<lambda>c. c \<noteq> CHR 0x00) k"

definition key_target :: "string \<Rightarrow> string" where
  "key_target k = drop 1 (dropWhile (\<lambda>c. c \<noteq> CHR 0x00) k)"

lemma key_parts:
  assumes "CHR 0x00 \<notin> set a"
  shows "key_source (link_key a b) = a" and "key_target (link_key a b) = b"
proof -
  have t: "takeWhile (\<lambda>c. c \<noteq> CHR 0x00) (a @ CHR 0x00 # b) = a"
    using assms by (subst takeWhile_append2) auto
  have d: "dropWhile (\<lambda>c. c \<noteq> CHR 0x00) (a @ CHR 0x00 # b) = CHR 0x00 # b"
    using assms by (subst dropWhile_append2) auto
  show "key_source (link_key a b) = a" and "key_target (link_key a b) = b"
    by (simp_all add: key_source_def key_target_def link_key_def t d)
qed

text \<open>No identifier holds the character that separates the two ends of a link key.\<close>

definition clean_path :: "FlowPathNode list \<Rightarrow> bool" where
  "clean_path path \<longleftrightarrow> list_all (\<lambda>n. CHR 0x00 \<notin> set (pn_id n)) path"

definition clean_rows :: "token_label \<Rightarrow> FlowNodeKind list \<Rightarrow> FlowQuotaDataItem list \<Rightarrow> bool" where
  "clean_rows ctx stages rows \<longleftrightarrow> list_all (\<lambda>row. clean_path (flowPathForStages ctx stages row)) rows"

lemma limited_clean:
  "clean_path path \<Longrightarrow> applyTopNodeLimit tops mode labeler path = Some path' \<Longrightarrow> clean_path path'"
proof -
  have "CHR 0x00 \<notin> set (pn_id (otherFlowNode labeler k))" for k
    by (cases k) (simp_all add: otherFlowNode_def OTHER_FLOW_NODE_IDS_def)
  then show "clean_path path \<Longrightarrow> applyTopNodeLimit tops mode labeler path = Some path' \<Longrightarrow> clean_path path'"
    by (auto simp: applyTopNodeLimit_def clean_path_def list_all_iff split: if_splits)
qed

lemma prepared_clean:
  "clean_rows ctx stages rows \<Longrightarrow> p \<in> set (prepare_paths env metric stages ctx options rows) \<Longrightarrow>
   clean_path (pp_path p)"
  using limited_clean
  by (fastforce simp: prepare_paths_def Let_def set_map_filter prepare_row_def clean_rows_def list_all_iff)

lemma path_links_members: "(a, b) \<in> set (path_links path) \<Longrightarrow> a \<in> set path \<and> b \<in> set path"
  by (induction path rule: path_links.induct) auto

lemma link_item_clean:
  assumes "list_all (\<lambda>p. clean_path (pp_path p)) ps" and "it \<in> set (link_items c ps)"
  shows "CHR 0x00 \<notin> set (pn_id (li_source it))"
  using assms path_links_members
  by (fastforce simp: path_link_items_def clean_path_def list_all_iff split: list.splits)

lemma link_map_ends:
  assumes "list_all (\<lambda>p. clean_path (pp_path p)) ps" and "(k, l) \<in> set (link_map metric c ps)"
  shows "(fl_source l, fl_target l) = (key_source k, key_target k)"
  by (rule link_acc.collect_fixed [where part = "\<lambda>l. (fl_source l, fl_target l)" and
        of_key = "\<lambda>k. (key_source k, key_target k)", OF _ _ assms(2)])
     (use link_item_clean [OF assms(1)] in
       \<open>simp_all add: bump_link_def new_link_def pathLinkKey_def key_parts\<close>)

lemma link_sum_items:
  assumes "list_all (\<lambda>p. clean_path (pp_path p)) ps"
  shows "link_sum P (map snd (link_map metric c ps)) =
    item_total (\<lambda>it. metricValue (li_metrics it) metric) (\<lambda>it. P (pn_id (li_source it)) (pn_id (li_target it)))
      (link_items c ps)"
proof -
  have "link_sum P (map snd (link_map metric c ps)) =
      map_total fl_value (\<lambda>k. P (key_source k) (key_target k)) (link_map metric c ps)"
    unfolding link_sum_def map_total_def map_map
    by (rule arg_cong [of _ _ sum_list], rule map_cong [OF refl])
      (use link_map_ends [OF assms] in \<open>fastforce simp: link_core_def\<close>)
  also have "\<dots> = item_total (\<lambda>it. metricValue (li_metrics it) metric)
      (\<lambda>it. P (key_source (pathLinkKey (li_source it) (li_target it)))
              (key_target (pathLinkKey (li_source it) (li_target it)))) (link_items c ps)"
    by (rule link_acc.collect_total)
  also have "\<dots> = item_total (\<lambda>it. metricValue (li_metrics it) metric)
      (\<lambda>it. P (pn_id (li_source it)) (pn_id (li_target it))) (link_items c ps)"
    unfolding item_total_def
    by (rule arg_cong [of _ _ sum_list], rule map_cong [OF refl])
      (simp add: pathLinkKey_def key_parts link_item_clean [OF assms])
  finally show ?thesis .
qed

lemma node_map_entry:
  assumes "list_all (\<lambda>p. path_wf stages (pp_path p)) ps" and "(k, n) \<in> set (node_map metric c ps)"
  shows "fn_id n = k" and "id_stage k = kind_text (fn_kind n)"
    and "fn_value n = item_total (\<lambda>it. metricValue (ni_metrics it) metric) (\<lambda>it. pn_id (ni_node it) = k) (node_items c ps)"
proof -
  show "fn_id n = k"
    by (rule node_acc.collect_fixed [where part = fn_id and of_key = "\<lambda>k. k", OF _ _ assms(2)])
      (simp_all add: bump_node_def new_node_def)
  have st: "id_stage (pn_id (ni_node it)) = kind_text (pn_kind (ni_node it))" if "it \<in> set (node_items c ps)" for it
    using assms(1) that
    by (auto simp: path_node_items_def list_all_iff path_wf_def split: list.splits)
  have "kind_text (fn_kind n) = id_stage k"
    by (rule node_acc.collect_fixed [where part = "\<lambda>n. kind_text (fn_kind n)" and of_key = id_stage, OF _ _ assms(2)])
      (simp_all add: bump_node_def new_node_def st)
  then show "id_stage k = kind_text (fn_kind n)" ..
  have "map_of (node_map metric c ps) k = Some n"
    using assms(2) node_acc.collect_distinct by (simp add: map_of_is_SomeI)
  from node_acc.collect_value [OF this] show "fn_value n =
      item_total (\<lambda>it. metricValue (ni_metrics it) metric) (\<lambda>it. pn_id (ni_node it) = k) (node_items c ps)"
    by (simp add: item_total_filter)
qed

lemma graph_paths_wf:
  "list_all (\<lambda>p. path_wf (resolveVisibleStages role vs) (pp_path p)) (graph_paths env metric role vs ctx options rows)"
  by (simp add: list_all_iff graph_paths_def prepared_wf)

lemma graph_paths_clean:
  "clean_rows ctx (resolveVisibleStages role vs) rows \<Longrightarrow>
   list_all (\<lambda>p. clean_path (pp_path p)) (graph_paths env metric role vs ctx options rows)"
  by (auto simp: list_all_iff graph_paths_def dest: prepared_clean)

lemma stages_nonempty: "resolveVisibleStages role vs \<noteq> []"
  using stages_length [of role vs] by auto

text \<open>C15: flow is conserved. At every node that is not of the first stage, the values of the links that
  arrive add up to the value of the node, and at every node that is not of the last stage the values of
  the links that leave do, whatever stages are visible, whatever nodes are aggregated or hidden, and
  with masking, highlighting and colouring applied.\<close>

theorem flow_conserved:
  assumes "clean_rows ctx (resolveVisibleStages role vs) rows"
    and "n \<in> set (fg_nodes (buildFlowGraph env metric role palette vs ctx options rows))"
  shows "(fn_kind n \<noteq> hd (resolveVisibleStages role vs) \<longrightarrow>
      sum_list (map fl_value (filter (\<lambda>l. fl_target l = fn_id n)
        (fg_links (buildFlowGraph env metric role palette vs ctx options rows)))) = fn_value n) \<and>
    (fn_kind n \<noteq> last (resolveVisibleStages role vs) \<longrightarrow>
      sum_list (map fl_value (filter (\<lambda>l. fl_source l = fn_id n)
        (fg_links (buildFlowGraph env metric role palette vs ctx options rows)))) = fn_value n)"
proof -
  let ?st = "resolveVisibleStages role vs"
  let ?g = "buildFlowGraph env metric role palette vs ctx options rows"
  let ?ps = "graph_paths env metric role vs ctx options rows"
  obtain c where nodes: "mset (map node_core (fg_nodes ?g)) = mset (map node_core (map snd (node_map metric c ?ps)))"
    and links: "mset (map link_core (fg_links ?g)) = mset (map link_core (map snd (link_map metric c ?ps)))"
    using graph_cores [OF refl refl, of env metric role palette vs ctx options rows] by blast
  have "node_core n \<in> set (map node_core (map snd (node_map metric c ?ps)))"
    using assms(2) nodes by (metis image_eqI list.set_map set_mset_mset)
  then obtain k v where v: "(k, v) \<in> set (node_map metric c ?ps)" and core: "node_core n = node_core v" by auto
  note wf = graph_paths_wf [of role vs env metric ctx options rows]
  note e = node_map_entry [OF wf v]
  note cl = graph_paths_clean [OF assms(1), of env metric options]
  have k: "fn_id n = k" "fn_kind n = fn_kind v" "fn_value n = fn_value v" using core e(1) by (auto simp: node_core_def)
  have sums: "sum_list (map fl_value (filter (\<lambda>l. P (fl_source l) (fl_target l)) (fg_links ?g))) =
      item_total (\<lambda>it. metricValue (li_metrics it) metric) (\<lambda>it. P (pn_id (li_source it)) (pn_id (li_target it)))
        (link_items c ?ps)" for P
    using link_sum_mset [OF links, of P] link_sum_items [OF cl, of P metric c] by (simp add: link_sum_filter)
  show ?thesis
  proof (intro conjI impI)
    assume "fn_kind n \<noteq> hd ?st"
    then have "id_stage k \<noteq> kind_text (hd ?st)" using e(2) k by (simp add: kind_text_inj)
    from inflow_items [OF wf stages_nonempty this] sums [of "\<lambda>a b. b = k"] e(3) k
    show "sum_list (map fl_value (filter (\<lambda>l. fl_target l = fn_id n) (fg_links ?g))) = fn_value n" by simp
  next
    assume "fn_kind n \<noteq> last ?st"
    then have "id_stage k \<noteq> kind_text (last ?st)" using e(2) k by (simp add: kind_text_inj)
    from outflow_items [OF wf stages_nonempty this] sums [of "\<lambda>a b. a = k"] e(3) k
    show "sum_list (map fl_value (filter (\<lambda>l. fl_source l = fn_id n) (fg_links ?g))) = fn_value n" by simp
  qed
qed

section \<open>Totals of the stages\<close>

lemma path_stage_count:
  assumes "path_wf stages path" and "distinct stages" and "K \<in> set stages"
  shows "length (filter (\<lambda>n. id_stage (pn_id n) = kind_text K) path) = 1"
proof -
  have "filter (\<lambda>n. id_stage (pn_id n) = kind_text K) path = filter (\<lambda>n. pn_kind n = K) path"
    using assms(1) by (intro filter_cong) (auto simp: path_wf_def list_all_iff kind_text_inj)
  also have "length \<dots> = length (filter (\<lambda>k. k = K) (map pn_kind path))" by (simp add: filter_map comp_def)
  also have "\<dots> = 1"
    using assms by (simp add: path_wf_def distinct_length_filter conj_commute Collect_conv_if)
  finally show ?thesis .
qed

lemma stage_item_total:
  assumes "list_all (\<lambda>p. path_wf stages (pp_path p)) ps" and "distinct stages" and "K \<in> set stages"
  shows "item_total (\<lambda>it. metricValue (ni_metrics it) metric) (\<lambda>it. id_stage (pn_id (ni_node it)) = kind_text K)
      (node_items c ps) = sum_list (map (\<lambda>p. metricValue (pp_metrics p) metric) ps)"
  unfolding item_total_concat map_map
  by (rule arg_cong [of _ _ sum_list], rule map_cong [OF refl])
    (use assms path_stage_count [OF _ assms(2,3)] in
      \<open>auto simp: path_node_total [where P = "\<lambda>y. id_stage y = kind_text K"] list_all_iff\<close>)

definition node_sum :: "(FlowNodeKind \<Rightarrow> bool) \<Rightarrow> DashboardFlowNode list \<Rightarrow> rat" where
  "node_sum P ns = sum_list (map (\<lambda>(i, k, v). if P k then v else 0) (map node_core ns))"

lemma node_sum_filter: "node_sum P ns = sum_list (map fn_value (filter (\<lambda>n. P (fn_kind n)) ns))"
  by (induction ns) (simp_all add: node_sum_def node_core_def)

lemma node_sum_mset:
  "mset (map node_core ns) = mset (map node_core ns') \<Longrightarrow> node_sum P ns = node_sum P ns'"
proof -
  assume m: "mset (map node_core ns) = mset (map node_core ns')"
  have sums: "sum_list (map f xs) = sum_mset (image_mset f (mset xs))"
    for f :: "string \<times> FlowNodeKind \<times> rat \<Rightarrow> rat" and xs
    by (induction xs) simp_all
  show ?thesis unfolding node_sum_def sums m ..
qed

lemma stage_sum_paths:
  assumes "K \<in> set (resolveVisibleStages role vs)"
  shows "sum_list (map fn_value (filter (\<lambda>n. fn_kind n = K)
      (fg_nodes (buildFlowGraph env metric role palette vs ctx options rows)))) =
    sum_list (map (\<lambda>p. metricValue (pp_metrics p) metric) (graph_paths env metric role vs ctx options rows))"
proof -
  let ?ps = "graph_paths env metric role vs ctx options rows"
  obtain c where nodes: "mset (map node_core (fg_nodes (buildFlowGraph env metric role palette vs ctx options rows))) =
      mset (map node_core (map snd (node_map metric c ?ps)))"
    using graph_cores [OF refl refl, of env metric role palette vs ctx options rows] by blast
  note wf = graph_paths_wf [of role vs env metric ctx options rows]
  have "node_sum (\<lambda>k. k = K) (map snd (node_map metric c ?ps)) =
      map_total fn_value (\<lambda>k. id_stage k = kind_text K) (node_map metric c ?ps)"
    unfolding node_sum_def map_total_def map_map
    by (rule arg_cong [of _ _ sum_list], rule map_cong [OF refl])
      (use node_map_entry [OF wf] in \<open>fastforce simp: node_core_def kind_text_inj\<close>)
  also have "\<dots> = sum_list (map (\<lambda>p. metricValue (pp_metrics p) metric) ?ps)"
    unfolding node_acc.collect_total by (rule stage_item_total [OF wf stages_distinct assms])
  finally show ?thesis using node_sum_mset [OF nodes, of "\<lambda>k. k = K"] by (simp add: node_sum_filter)
qed

lemma map_filter_all: "(\<And>x. x \<in> set xs \<Longrightarrow> f x = Some (h x)) \<Longrightarrow> List.map_filter f xs = map h xs"
  by (induction xs) (simp_all add: List.map_filter_def)

lemma aggregate_metrics:
  assumes "go_overflowMode options \<noteq> Some HideOverflow"
  shows "map pp_metrics (prepare_paths env metric stages ctx options rows) = map rowMetrics rows"
proof -
  let ?mode = "nullish (go_overflowMode options) AggregateOverflow"
  have mode: "?mode \<noteq> HideOverflow"
    using assms by (cases "go_overflowMode options") (simp_all add: nullish_def)
  have ex: "\<exists>path. applyTopNodeLimit tops ?mode lab p = Some path" for tops lab p
    using mode by (simp add: applyTopNodeLimit_def)
  have "map pp_metrics (List.map_filter (prepare_row ctx stages tops ?mode lab) rows) = map rowMetrics rows" for tops lab
  proof -
    have "prepare_row ctx stages tops ?mode lab row = Some \<lparr>pp_path = the (applyTopNodeLimit tops ?mode lab
        (flowPathForStages ctx stages row)), pp_metrics = rowMetrics row\<rparr>" for row
      using ex [of tops lab "flowPathForStages ctx stages row"] by (auto simp: prepare_row_def)
    then show ?thesis by (simp add: map_filter_all)
  qed
  then show ?thesis by (simp add: prepare_paths_def Let_def)
qed

definition summary_metric :: "FlowSummary \<Rightarrow> FlowMetric \<Rightarrow> rat" where
  "summary_metric s metric =
     (case metric of QuotaMetric \<Rightarrow> fs_quota s | TokensMetric \<Rightarrow> fs_tokens s | RequestsMetric \<Rightarrow> fs_requests s)"

lemma summary_sum:
  "summary_metric (buildSummary rows) metric = sum_list (map (\<lambda>row. metricValue (rowMetrics row) metric) rows)"
proof -
  have "summary_metric (foldl (\<lambda>summary row.
        (let metrics = rowMetrics row in
         \<lparr>fs_quota = fs_quota summary + mt_quota metrics, fs_tokens = fs_tokens summary + mt_tokens metrics,
          fs_requests = fs_requests summary + mt_requests metrics\<rparr>)) s rows) metric =
      summary_metric s metric + sum_list (map (\<lambda>row. metricValue (rowMetrics row) metric) rows)" for s
    by (induction rows arbitrary: s) (cases metric; simp add: summary_metric_def metricValue_def Let_def)+
  then show ?thesis by (cases metric) (simp_all add: buildSummary_def summary_metric_def)
qed

text \<open>C16: nothing is lost or counted twice. Unless overflowing nodes are hidden, the values of the nodes of
  every visible stage add up to the total that the summary of the same rows shows.\<close>

theorem stage_totals_match_summary:
  assumes "K \<in> set (resolveVisibleStages role vs)" and "go_overflowMode options \<noteq> Some HideOverflow"
  shows "sum_list (map fn_value (filter (\<lambda>n. fn_kind n = K)
      (fg_nodes (buildFlowGraph env metric role palette vs ctx options rows)))) =
    summary_metric (buildSummary rows) metric"
proof -
  have "map (\<lambda>p. metricValue (pp_metrics p) metric) (graph_paths env metric role vs ctx options rows) =
      map (\<lambda>m. metricValue m metric) (map pp_metrics (graph_paths env metric role vs ctx options rows))" by simp
  also have "\<dots> = map (\<lambda>row. metricValue (rowMetrics row) metric) rows"
    unfolding graph_paths_def aggregate_metrics [OF assms(2)] by simp
  finally show ?thesis unfolding stage_sum_paths [OF assms(1)] summary_sum by simp
qed

section \<open>Shares\<close>

lemma id_nonempty: "id_stage x = kind_text k \<Longrightarrow> x \<noteq> []"
  by (cases k) (auto simp: id_stage_def kind_text_def)

lemma root_ids_set:
  assumes "list_all (\<lambda>p. path_wf stages (pp_path p)) ps" and "stages \<noteq> []"
  shows "set (root_ids ps) = (\<lambda>p. pn_id (hd (pp_path p))) ` set ps"
proof -
  have "(case pp_path p of [] \<Rightarrow> None | n # _ \<Rightarrow> if pn_id n = [] then None else Some (pn_id n)) =
      Some (pn_id (hd (pp_path p)))" if "p \<in> set ps" for p
  proof -
    have wf: "path_wf stages (pp_path p)" using assms(1) that by (simp add: list_all_iff)
    with assms(2) have ne: "pp_path p \<noteq> []" by (auto simp: path_wf_def)
    then show ?thesis
      using id_nonempty [OF stage_of_member [OF wf hd_in_set [OF ne]]] by (cases "pp_path p") auto
  qed
  then show ?thesis by (simp add: root_ids_def map_filter_all)
qed

lemma first_stage_count:
  assumes "path_wf stages path" and "distinct stages" and "2 \<le> length stages"
    and "\<And>x. P x \<Longrightarrow> id_stage x = kind_text (hd stages)" and "P (pn_id (hd path))"
  shows "length (filter (\<lambda>n. P (pn_id n)) (butlast path)) = 1"
proof -
  have len: "length path = length stages" using assms(1) by (auto simp: path_wf_def)
  with assms(3) obtain a b rest where p: "path = a # b # rest"
    by (cases path; cases "tl path") auto
  have k: "stages = pn_kind a # pn_kind b # map pn_kind rest" using assms(1) p by (auto simp: path_wf_def)
  have "\<not> P (pn_id n)" if "n \<in> set (butlast (b # rest))" for n
  proof
    assume "P (pn_id n)"
    then have "id_stage (pn_id n) = kind_text (pn_kind a)" using assms(4) k by simp
    moreover have n: "n \<in> set (b # rest)" using that by (rule in_set_butlastD)
    ultimately have "pn_kind n = pn_kind a"
      using stage_of_member [OF assms(1), of n] p by (auto simp: kind_text_inj)
    moreover have "pn_kind n \<in> pn_kind ` set (b # rest)" using n by (rule imageI)
    ultimately show False using assms(2) k by simp
  qed
  then have "filter (\<lambda>n. P (pn_id n)) (butlast (b # rest)) = []" by (auto simp: filter_empty_conv)
  with assms(5) p show ?thesis by simp
qed

lemma first_stage_total:
  assumes "list_all (\<lambda>p. path_wf stages (pp_path p)) ps" and "distinct stages" and "2 \<le> length stages"
    and "\<And>x. P x \<Longrightarrow> id_stage x = kind_text (hd stages)" and "\<And>p. p \<in> set ps \<Longrightarrow> P (pn_id (hd (pp_path p)))"
  shows "item_total (\<lambda>it. metricValue (li_metrics it) metric) (\<lambda>it. P (pn_id (li_source it))) (link_items c ps) =
         sum_list (map (\<lambda>p. metricValue (pp_metrics p) metric) ps)"
proof -
  have "item_total (\<lambda>it. metricValue (li_metrics it) metric) (\<lambda>it. P (pn_id (li_source it))) (path_link_items c p) =
      metricValue (pp_metrics p) metric" if "p \<in> set ps" for p
    using path_source_total [of metric P c p] that assms(1)
      first_stage_count [where P = P, OF _ assms(2-4) assms(5) [OF that]] by (simp add: list_all_iff)
  then show ?thesis by (simp add: item_total_concat comp_def cong: map_cong)
qed

definition drawn_total ::
    "flow_env \<Rightarrow> FlowMetric \<Rightarrow> FlowRole \<Rightarrow> FlowNodeKind list option \<Rightarrow> token_label \<Rightarrow> FlowGraphOptions
     \<Rightarrow> FlowQuotaDataItem list \<Rightarrow> rat" where
  "drawn_total env metric role vs ctx options rows =
     sum_list (map (\<lambda>p. metricValue (pp_metrics p) metric) (graph_paths env metric role vs ctx options rows))"

text \<open>C17: the shares shown on the links are shares of the whole. When the total of the drawn paths is
  positive, the shares of the links that leave the first stage add up to one, and every link has as
  share its value divided by that total.\<close>

theorem link_shares:
  assumes "clean_rows ctx (resolveVisibleStages role vs) rows"
    and "0 < drawn_total env metric role vs ctx options rows"
    and "g = buildFlowGraph env metric role palette vs ctx options rows"
  shows "(\<forall>l \<in> set (fg_links g).
      fl_share l = fl_value l / drawn_total env metric role vs ctx options rows) \<and>
    sum_list (map fl_share (filter (\<lambda>l. id_stage (fl_source l) =
      kind_text (hd (resolveVisibleStages role vs))) (fg_links g))) = 1"
proof -
  let ?st = "resolveVisibleStages role vs"
  let ?ps = "graph_paths env metric role vs ctx options rows"
  obtain c where links: "mset (map link_core (fg_links g)) = mset (map link_core (map snd (link_map metric c ?ps)))"
    using graph_cores [OF assms(3) refl] by blast
  note wf = graph_paths_wf [of role vs env metric ctx options rows]
  note cl = graph_paths_clean [OF assms(1), of env metric options]
  let ?total = "drawn_total env metric role vs ctx options rows"
  have hd_stage: "id_stage (pn_id (hd (pp_path p))) = kind_text (hd ?st)" if "p \<in> set ?ps" for p
  proof -
    have w: "path_wf ?st (pp_path p)" using wf that by (simp add: list_all_iff)
    then have ne: "pp_path p \<noteq> []" using stages_nonempty [of role vs] by (auto simp: path_wf_def)
    show ?thesis using stage_of_member [OF w hd_in_set [OF ne]] hd_kind [OF w ne] by simp
  qed
  have sum: "link_sum (\<lambda>s t. P s) (fg_links g) = ?total"
    if "\<And>x. P x \<Longrightarrow> id_stage x = kind_text (hd ?st)" and "\<And>p. p \<in> set ?ps \<Longrightarrow> P (pn_id (hd (pp_path p)))" for P
    using link_sum_mset [OF links, of "\<lambda>s t. P s"] link_sum_items [OF cl, of "\<lambda>s t. P s" metric c]
      first_stage_total [where P = P, OF wf stages_distinct stages_length that] by (simp add: drawn_total_def)
  have roots: "set (root_ids ?ps) = (\<lambda>p. pn_id (hd (pp_path p))) ` set ?ps"
    by (rule root_ids_set [OF wf stages_nonempty])
  have t: "link_sum (\<lambda>s t. s \<in> set (root_ids ?ps)) (fg_links g) = ?total"
    by (rule sum) (use roots hd_stage in auto)
  have sh: "fl_share l = fl_value l / ?total" if "l \<in> set (fg_links g)" for l
    using graph_shares [OF assms(3) refl that] assms(2) t by (simp add: Let_def)
  have "sum_list (map fl_share ls) = sum_list (map fl_value ls) / ?total" if "set ls \<subseteq> set (fg_links g)" for ls
    using that sh by (induction ls) (simp_all add: add_divide_distrib)
  from this [of "filter (\<lambda>l. id_stage (fl_source l) = kind_text (hd ?st)) (fg_links g)"]
  show ?thesis using sh sum [of "\<lambda>s. id_stage s = kind_text (hd ?st)"] hd_stage assms(2)
    by (auto simp: link_sum_filter)
qed

section \<open>A sample graph\<close>

text \<open>Three rows of one user, two tokens and two models, with one node kept per stage.\<close>

definition sample_flow_env :: flow_env where
  "sample_flow_env = \<lparr>fe_localeCompare = (\<lambda>_ _. 0), fe_schemes = [(None, [Some ''teal''])],
     fe_formatNumber = (\<lambda>_. ''n''), fe_toFixed2 = (\<lambda>_. ''0.34'')\<rparr>"

definition sample_row :: "string \<Rightarrow> string \<Rightarrow> rat \<Rightarrow> FlowQuotaDataItem" where
  "sample_row token model quota =
     \<lparr>fq_user_id = Some 1, fq_username = Some ''ann'', fq_node_name = None, fq_use_group = Some ''vip'',
      fq_token_id = None, fq_token_name = Some token, fq_channel_id = Some 2, fq_channel_name = None,
      fq_model_name = Some model, fq_token_used = Some 10, fq_count = Some 1, fq_quota = Some quota\<rparr>"

definition sample_rows :: "FlowQuotaDataItem list" where
  "sample_rows = [sample_row ''t1'' ''m1'' 5, sample_row ''t2'' ''m1'' 3, sample_row ''t1'' ''m2'' 2]"

definition sample_options :: FlowGraphOptions where
  "sample_options = \<lparr>go_topNodeLimit = Some 1, go_overflowMode = None, go_otherNodeLabel = None,
     go_activeNode = None, go_activeLink = None, go_maskSensitive = True\<rparr>"

definition sample_graph :: DashboardFlowGraph where
  "sample_graph = buildFlowGraph sample_flow_env QuotaMetric UserRole None None None sample_options sample_rows"

lemma sample_clean: "clean_rows None (resolveVisibleStages UserRole None) sample_rows"
  by code_simp

lemma sample_nodes:
  "map node_core (fg_nodes sample_graph) =
     [(''group:vip'', GroupKind, 10), (''model:m1'', ModelKind, 8), (''token:t1'', TokenKind, 7),
      (''token:__other__'', TokenKind, 3), (''model:__other__'', ModelKind, 2)]"
  by code_simp

theorem flow_conserved_witness:
  "sum_list (map fl_value (filter (\<lambda>l. fl_target l = ''group:vip'') (fg_links sample_graph))) = 10 \<and>
   sum_list (map fl_value (filter (\<lambda>l. fl_source l = ''group:vip'') (fg_links sample_graph))) = 10"
proof -
  obtain n where n: "n \<in> set (fg_nodes sample_graph)" "node_core n = (''group:vip'', GroupKind, 10)"
    using sample_nodes by (cases "fg_nodes sample_graph") auto
  then have core: "fn_id n = ''group:vip''" "fn_kind n = GroupKind" "fn_value n = 10" by (simp_all add: node_core_def)
  have st: "resolveVisibleStages UserRole None = [TokenKind, GroupKind, ModelKind]" by code_simp
  from flow_conserved [OF sample_clean n(1) [unfolded sample_graph_def]] show ?thesis
    by (simp add: core st sample_graph_def)
qed

theorem stage_totals_match_summary_witness:
  "sum_list (map fn_value (filter (\<lambda>n. fn_kind n = ModelKind) (fg_nodes sample_graph))) =
     summary_metric (buildSummary sample_rows) QuotaMetric \<and>
   summary_metric (buildSummary sample_rows) QuotaMetric = 10"
proof -
  have "ModelKind \<in> set (resolveVisibleStages UserRole None)" "go_overflowMode sample_options \<noteq> Some HideOverflow"
    by code_simp+
  from stage_totals_match_summary [OF this, of sample_flow_env QuotaMetric None None sample_rows]
  show ?thesis unfolding sample_graph_def by (rule conjI) code_simp
qed

theorem link_shares_witness:
  "list_all (\<lambda>l. fl_share l = fl_value l / 10) (fg_links sample_graph) \<and>
   sum_list (map fl_share (filter (\<lambda>l. id_stage (fl_source l) = ''token'') (fg_links sample_graph))) = 1"
proof -
  have t: "drawn_total sample_flow_env QuotaMetric UserRole None None sample_options sample_rows = 10" by code_simp
  have st: "kind_text (hd (resolveVisibleStages UserRole None)) = ''token''" by code_simp
  from link_shares [OF sample_clean _ sample_graph_def, unfolded t st] show ?thesis by (simp add: list_all_iff)
qed

end
