(* ===== verification/FlowLimits.thy ===== *)
theory FlowLimits
  imports FlowGraph
begin

text \<open>
  What the limits, masks and filters of the flow graph promise: the kept nodes of a stage are the largest
  ones, a masked graph shows no sensitive label, and the filters select rows by kind.
\<close>

section \<open>Comparators\<close>

text \<open>The contract of a comparator that \<open>Array.prototype.sort\<close> gets, \<open>localeCompare\<close> among them: exchanging
  the arguments exchanges the order, and the order is transitive.\<close>

locale collation =
  fixes cmp :: "'a \<Rightarrow> 'a \<Rightarrow> int"
  assumes swap: "cmp a b \<le> 0 \<longleftrightarrow> 0 \<le> cmp b a"
    and order: "cmp a b \<le> 0 \<Longrightarrow> cmp b c \<le> 0 \<Longrightarrow> cmp a c \<le> 0"
begin

sublocale sorting: comparator "\<lambda>a b. cmp a b \<le> 0"
proof
  fix x y z
  show "cmp x y \<le> 0 \<or> cmp y x \<le> 0" using swap [of x y] by linarith
  show "cmp x y \<le> 0 \<Longrightarrow> cmp y z \<le> 0 \<Longrightarrow> cmp x z \<le> 0" by (rule order)
qed

lemma sorted_sort_cmp: "sorted_wrt (\<lambda>a b. cmp a b \<le> 0) (sort_cmp cmp xs)"
  unfolding sort_cmp_def by (rule sorting.sorted_sort_by)

lemma equal_swap: "cmp a b = 0 \<longleftrightarrow> cmp b a = 0"
  using swap [of a b] swap [of b a] by linarith

lemma strict_left: "cmp a b < 0 \<Longrightarrow> cmp b c \<le> 0 \<Longrightarrow> cmp a c < 0"
  using order [of a b c] order [of b c a] swap [of b a] swap [of c a] by linarith

lemma strict_right: "cmp a b \<le> 0 \<Longrightarrow> cmp b c < 0 \<Longrightarrow> cmp a c < 0"
  using order [of a b c] order [of c a b] swap [of c b] swap [of c a] by linarith

lemma pulled_back: "collation (\<lambda>x y. cmp (f x) (f y))"
  by unfold_locales (rule swap, rule order)

text \<open>A comparison that breaks the ties of another one.\<close>

lemma then_by:
  assumes "collation other"
  shows "collation (\<lambda>a b. or_else (cmp a b) (other a b))"
proof -
  have le: "or_else (cmp a b) (other a b) \<le> 0 \<longleftrightarrow> cmp a b < 0 \<or> cmp a b = 0 \<and> other a b \<le> 0" for a b
    by (auto simp: or_else_def)
  show ?thesis
  proof
    fix a b c
    show "or_else (cmp a b) (other a b) \<le> 0 \<longleftrightarrow> 0 \<le> or_else (cmp b a) (other b a)"
      using swap [of a b] swap [of b a] collation.swap [OF assms, of a b] unfolding or_else_def by auto
    assume ab: "or_else (cmp a b) (other a b) \<le> 0" and bc: "or_else (cmp b c) (other b c) \<le> 0"
    consider "cmp a b < 0" "cmp b c \<le> 0" | "cmp a b = 0" "cmp b c < 0"
      | "cmp a b = 0" "cmp b c = 0" "other a b \<le> 0" "other b c \<le> 0"
      using ab bc unfolding le by linarith
    then show "or_else (cmp a c) (other a c) \<le> 0"
    proof cases
      case 3
      then have "cmp c b = 0" "cmp b a = 0" using equal_swap [of b c] equal_swap [of a b] by simp_all
      then have "cmp a c = 0" using 3 order [of a b c] order [of c b a] swap [of c a] by linarith
      then show ?thesis using collation.order [OF assms 3(3,4)] unfolding le by simp
    qed (use strict_left [of a b c] strict_right [of a b c] in \<open>simp_all add: le\<close>)
  qed
qed

end

interpretation decreasing: collation "\<lambda>a b. sign_diff b a"
  by unfold_locales (auto simp: sign_diff_def split: if_splits)

lemma rank_collation:
  assumes "collation (fe_localeCompare env)"
  shows "collation (rank_cmp env)"
proof -
  have labels: "collation (\<lambda>a b. fe_localeCompare env (pn_label (rk_node a)) (pn_label (rk_node b)))"
    and ids: "collation (\<lambda>a b. fe_localeCompare env (pn_id (rk_node a)) (pn_id (rk_node b)))"
    by (rule collation.pulled_back [OF assms])+
  have "collation (\<lambda>a b. sign_diff (rk_value b) (rk_value a))" by (rule decreasing.pulled_back)
  from collation.then_by [OF this collation.then_by [OF labels ids]] show ?thesis
    by (simp only: rank_cmp_def [abs_def])
qed

lemma sorted_take_first:
  assumes "sorted_wrt le xs" and "x \<in> set (take n xs)" and "y \<in> set xs" and "y \<notin> set (take n xs)"
  shows "le x y"
proof -
  have "sorted_wrt le (take n xs @ drop n xs)" using assms(1) by simp
  moreover have "y \<in> set (drop n xs)" using assms(3,4) by (metis Un_iff append_take_drop_id set_append)
  ultimately show ?thesis using assms(2) by (auto simp only: sorted_wrt_append)
qed

section \<open>Top nodes\<close>

lemma fold_new_entries:
  "map_of (foldl (\<lambda>m x. map_set x v m) m xs) k = (if k \<in> set xs then Some v else map_of m k)"
  by (induction xs arbitrary: m) (auto simp: map_of_map_set)

lemma fold_stage_rank:
  "map_of (foldl add_stage_rank m its) K =
     map_option (\<lambda>t. foldl add_rank t (filter (\<lambda>it. pn_kind (fst it) = K) its)) (map_of m K)"
proof (induction its arbitrary: m)
  case (Cons it its)
  have "map_of (add_stage_rank m it) K =
      map_option (\<lambda>t. if pn_kind (fst it) = K then add_rank t it else t) (map_of m K)"
    by (cases "map_of m (pn_kind (fst it))"; cases "map_of m K") (auto simp: add_stage_rank_def map_of_map_set)
  then show ?case by (simp add: Cons.IH option.map_comp comp_def cong: option.map_cong)
qed (simp add: option.map_ident)

lemma distinct_stage_rank:
  "distinct (map fst m) \<Longrightarrow> distinct (map fst (foldl add_stage_rank m its))"
proof (induction its arbitrary: m)
  case (Cons it its)
  have "distinct (map fst (add_stage_rank m it))"
    using Cons.prems by (cases "map_of m (pn_kind (fst it))") (simp_all add: add_stage_rank_def distinct_map_set)
  with Cons.IH show ?case by simp
qed simp

lemma fold_entries:
  "distinct (map fst xs) \<Longrightarrow>
   map_of (foldl (\<lambda>m (k, v). map_set k (f v) m) m xs) K =
     (case map_of xs K of Some v \<Rightarrow> Some (f v) | None \<Rightarrow> map_of m K)"
proof (induction xs arbitrary: m)
  case (Cons x xs)
  have "map_of xs (fst x) = None" using Cons.prems by (simp add: map_of_eq_None_iff)
  with Cons show ?case by (cases x) (auto simp: map_of_map_set split: option.splits)
qed simp

definition stage_ranks ::
    "FlowMetric \<Rightarrow> token_label \<Rightarrow> FlowQuotaDataItem list \<Rightarrow> FlowNodeKind \<Rightarrow> (string \<times> FlowNodeRank) list" where
  "stage_ranks metric ctx rows K =
     foldl add_rank [] (map (\<lambda>row. (NODE_BUILDERS ctx K row, metricValue (rowMetrics row) metric)) rows)"

lemma stage_rank_items:
  assumes "distinct stages" and "K \<in> set stages"
  shows "filter (\<lambda>it. pn_kind (fst it) = K) (concat (map (rank_items metric stages ctx) rows)) =
    map (\<lambda>row. (NODE_BUILDERS ctx K row, metricValue (rowMetrics row) metric)) rows"
proof -
  have "filter (\<lambda>stage. stage = K) stages = [K]"
    using assms by (induction stages) (auto simp: filter_empty_conv)
  then have "filter (\<lambda>it. pn_kind (fst it) = K) (rank_items metric stages ctx row) =
      [(NODE_BUILDERS ctx K row, metricValue (rowMetrics row) metric)]" for row
    by (simp add: rank_items_def flowPathForStages_def filter_map comp_def)
  then show ?thesis by (simp add: filter_concat comp_def)
qed

lemma top_node_sets:
  assumes "distinct stages" and "K \<in> set stages" and "0 < k"
  shows "\<exists>tops. buildTopNodeSets env metric stages (Some k) ctx rows = Some tops \<and>
    map_of tops K = Some (stage_top_ids env k (stage_ranks metric ctx rows K))"
proof -
  let ?none = "foldl (\<lambda>m stage. map_set stage [] m) [] stages :: stage_totals"
  let ?totals = "foldl add_stage_rank ?none (concat (map (rank_items metric stages ctx) rows))"
  have "distinct (map fst (foldl (\<lambda>m stage. map_set stage v m) m xs))" if "distinct (map fst m)"
    for v :: "(string \<times> FlowNodeRank) list" and m and xs :: "FlowNodeKind list"
    using that by (induction xs arbitrary: m) (simp_all add: distinct_map_set)
  from distinct_stage_rank [OF this [of "[]" "[]" stages]] have d: "distinct (map fst ?totals)" by simp
  have "map_of ?none K = Some []" using assms(2) by (simp add: fold_new_entries)
  then have "map_of ?totals K = Some (stage_ranks metric ctx rows K)"
    unfolding fold_stage_rank stage_rank_items [OF assms(1,2)] stage_ranks_def by simp
  with fold_entries [OF d, of "stage_top_ids env k" "[]" K] assms(3) show ?thesis
    by (simp add: buildTopNodeSets_def Let_def)
qed

text \<open>The usage of one node of a stage.\<close>

definition node_usage :: "FlowMetric \<Rightarrow> token_label \<Rightarrow> FlowNodeKind \<Rightarrow> FlowQuotaDataItem list \<Rightarrow> string \<Rightarrow> rat" where
  "node_usage metric ctx K rows nid =
     sum_list (map (\<lambda>row. metricValue (rowMetrics row) metric)
       (filter (\<lambda>row. pn_id (NODE_BUILDERS ctx K row) = nid) rows))"

lemma stage_rank_entry:
  assumes "(nid, r) \<in> set (stage_ranks metric ctx rows K)"
  shows "pn_id (rk_node r) = nid" and "rk_value r = node_usage metric ctx K rows nid"
    and "\<exists>row \<in> set rows. pn_id (NODE_BUILDERS ctx K row) = nid"
proof -
  let ?its = "map (\<lambda>row. (NODE_BUILDERS ctx K row, metricValue (rowMetrics row) metric)) rows"
  have mem: "(nid, r) \<in> set (foldl add_rank [] ?its)" using assms by (simp add: stage_ranks_def)
  show "pn_id (rk_node r) = nid"
    by (rule rank_acc.collect_fixed [where part = "\<lambda>r. pn_id (rk_node r)" and of_key = "\<lambda>k. k", OF _ _ mem]) simp_all
  have "map_of (foldl add_rank [] ?its) nid = Some r"
    using mem rank_acc.collect_distinct by (simp add: map_of_is_SomeI)
  from rank_acc.collect_value [OF this] show "rk_value r = node_usage metric ctx K rows nid"
    by (simp add: node_usage_def item_total_def sum_list_map_filter' comp_def cong: if_cong)
  show "\<exists>row \<in> set rows. pn_id (NODE_BUILDERS ctx K row) = nid"
    using rank_acc.collect_origin [where part = "\<lambda>_. ()", OF refl mem] by auto
qed

lemma stage_rank_member:
  assumes "row \<in> set rows"
  shows "\<exists>r. (pn_id (NODE_BUILDERS ctx K row), r) \<in> set (stage_ranks metric ctx rows K)"
proof -
  have "pn_id (NODE_BUILDERS ctx K row) \<in> set (map fst (stage_ranks metric ctx rows K))"
    using assms unfolding stage_ranks_def rank_acc.collect_keys by (auto simp: image_iff)
  then show ?thesis by auto
qed

lemma top_ids_length: "length (stage_top_ids env k t) \<le> k"
proof -
  have "length (js_set xs) \<le> length xs" for xs :: "string list"
    by (metis card_length distinct_card distinct_js_set set_js_set)
  from this [of "map (\<lambda>rank. pn_id (rk_node rank)) (take k (sort_cmp (rank_cmp env) (map snd t)))"]
  show ?thesis by (simp add: stage_top_ids_def)
qed

lemma top_ids_largest:
  assumes "collation (fe_localeCompare env)" and "nid \<in> set (stage_top_ids env k (stage_ranks metric ctx rows K))"
    and "row \<in> set rows" and "pn_id (NODE_BUILDERS ctx K row) \<notin> set (stage_top_ids env k (stage_ranks metric ctx rows K))"
  shows "node_usage metric ctx K rows (pn_id (NODE_BUILDERS ctx K row)) \<le> node_usage metric ctx K rows nid"
proof -
  let ?t = "stage_ranks metric ctx rows K"
  let ?sorted = "sort_cmp (rank_cmp env) (map snd ?t)"
  obtain r where r: "r \<in> set (take k ?sorted)" "pn_id (rk_node r) = nid"
    using assms(2) by (auto simp: stage_top_ids_def)
  from in_set_takeD [OF r(1)] obtain n where n: "(n, r) \<in> set ?t" by (auto simp: sort_cmp_def)
  obtain r' where r': "(pn_id (NODE_BUILDERS ctx K row), r') \<in> set ?t" using stage_rank_member [OF assms(3)] by blast
  have "r' \<notin> set (take k ?sorted)"
    using assms(4) imageI [of r' _ "\<lambda>r. pn_id (rk_node r)"] unfolding stage_rank_entry(1) [OF r'] stage_top_ids_def
    by auto
  moreover have "r' \<in> set ?sorted" using r' by (force simp: sort_cmp_def)
  ultimately have "rank_cmp env r r' \<le> 0"
    using sorted_take_first [OF collation.sorted_sort_cmp [OF rank_collation [OF assms(1)]] r(1)] by blast
  then have "rk_value r' \<le> rk_value r"
    by (auto simp: rank_cmp_def or_else_def sign_diff_def split: if_splits)
  then show ?thesis
    using stage_rank_entry [OF n] stage_rank_entry [OF r'] r(2) by simp
qed

section \<open>Kept nodes\<close>

lemma limited_nodes:
  assumes "applyTopNodeLimit tops mode labeler (flowPathForStages ctx stages row) = Some path" and "n \<in> set path"
  shows "(n = NODE_BUILDERS ctx (pn_kind n) row \<and> isTopFlowNode tops n) \<or>
    (n = otherFlowNode labeler (pn_kind n) \<and> mode \<noteq> HideOverflow)"
proof -
  have built: "x = NODE_BUILDERS ctx (pn_kind x) row" if "x \<in> set (flowPathForStages ctx stages row)" for x
    using that by (auto simp: flowPathForStages_def)
  have none: "isTopFlowNode None x" for x by (simp add: isTopFlowNode_def)
  from assms built none show ?thesis
    by (auto simp: applyTopNodeLimit_def list_ex_iff split: if_splits)
qed

lemma prepared_from_row:
  assumes "p \<in> set (prepare_paths env metric stages ctx options rows)"
  shows "\<exists>row \<in> set rows. pp_metrics p = rowMetrics row \<and>
    applyTopNodeLimit (buildTopNodeSets env metric stages (normalizeTopNodeLimit (go_topNodeLimit options)) ctx rows)
      (nullish (go_overflowMode options) AggregateOverflow) (go_otherNodeLabel options)
      (flowPathForStages ctx stages row) = Some (pp_path p)"
  using assms by (auto simp: prepare_paths_def Let_def set_map_filter prepare_row_def)

lemma prepared_kind:
  "p \<in> set (prepare_paths env metric stages ctx options rows) \<Longrightarrow> n \<in> set (pp_path p) \<Longrightarrow> pn_kind n \<in> set stages"
  by (drule prepared_wf) (auto simp: path_wf_def)

lemma node_item_origin:
  assumes "it \<in> set (node_items c ps)"
  shows "\<exists>p \<in> set ps. ni_node it \<in> set (pp_path p)"
  using assms by (auto simp: path_node_items_def split: list.splits)

lemma node_items_member:
  assumes "p \<in> set ps" and "n \<in> set (pp_path p)"
  shows "\<exists>it \<in> set (node_items c ps). ni_node it = n"
proof -
  have "map ni_node (path_node_items c p) = pp_path p"
    by (simp add: path_node_items_def comp_def split: list.splits)
  with assms(2) have "n \<in> ni_node ` set (path_node_items c p)" by (metis list.set_map)
  with assms(1) show ?thesis by auto
qed

lemma graph_node_origin:
  assumes "m \<in> set (fg_nodes (buildFlowGraph env metric role palette vs ctx options rows))"
  shows "\<exists>p \<in> set (graph_paths env metric role vs ctx options rows).
    \<exists>n \<in> set (pp_path p). pn_id n = fn_id m \<and> pn_kind n = fn_kind m"
proof -
  let ?ps = "graph_paths env metric role vs ctx options rows"
  obtain c where nodes: "mset (map node_core (fg_nodes (buildFlowGraph env metric role palette vs ctx options rows))) =
      mset (map node_core (map snd (node_map metric c ?ps)))"
    using graph_cores [OF refl refl, of env metric role palette vs ctx options rows] by blast
  have "node_core m \<in> set (map node_core (map snd (node_map metric c ?ps)))"
    using assms nodes by (metis image_eqI list.set_map set_mset_mset)
  then obtain k v where v: "(k, v) \<in> set (node_map metric c ?ps)" and core: "node_core m = node_core v" by auto
  obtain it where "it \<in> set (node_items c ?ps)" "pn_id (ni_node it) = k"
      "(fn_id v, fn_kind v) = (pn_id (ni_node it), pn_kind (ni_node it))"
    using node_acc.collect_origin [where part = "\<lambda>v. (fn_id v, fn_kind v)", OF _ v]
    by (auto simp: bump_node_def new_node_def)
  with core node_item_origin show ?thesis by (fastforce simp: node_core_def)
qed

lemma graph_node_ids:
  "mset (map fn_id (fg_nodes (buildFlowGraph env metric role palette vs ctx options rows))) =
   mset (map fst (node_map metric (graph_colors env palette (graph_paths env metric role vs ctx options rows))
     (graph_paths env metric role vs ctx options rows)))"
proof -
  let ?ps = "graph_paths env metric role vs ctx options rows"
  let ?c = "graph_colors env palette ?ps"
  have "map fn_id (map snd (node_map metric ?c ?ps)) = map fst (node_map metric ?c ?ps)"
    using node_map_entry(1) [OF graph_paths_wf] by (auto simp: case_prod_unfold)
  moreover have "map fn_id xs = map fst (map node_core xs)" for xs by (simp add: node_core_def)
  ultimately show ?thesis
    using graph_node_parts [OF refl refl refl, of node_core env metric role palette vs ctx options rows]
    unfolding graph_maps_cores by (metis core_passes(2) mset_map)
qed

lemma graph_node_ids_distinct:
  "distinct (map fn_id (fg_nodes (buildFlowGraph env metric role palette vs ctx options rows)))"
  using graph_node_ids node_acc.collect_distinct by (metis mset_eq_imp_distinct_iff)

lemma graph_node_member:
  assumes "p \<in> set (graph_paths env metric role vs ctx options rows)" and "n \<in> set (pp_path p)"
  shows "pn_id n \<in> fn_id ` set (fg_nodes (buildFlowGraph env metric role palette vs ctx options rows))"
proof -
  let ?ps = "graph_paths env metric role vs ctx options rows"
  let ?c = "graph_colors env palette ?ps"
  obtain it where "it \<in> set (node_items ?c ?ps)" "ni_node it = n" using node_items_member [OF assms] by blast
  then have "pn_id n \<in> set (map fst (node_map metric ?c ?ps))"
    unfolding node_acc.collect_keys by (auto simp: image_iff)
  then have "pn_id n \<in># mset (map fst (node_map metric ?c ?ps))" by (simp only: set_mset_mset)
  then show ?thesis unfolding graph_node_ids [symmetric] set_mset_mset by simp
qed

lemma limit_positive: "normalizeTopNodeLimit l = Some k \<Longrightarrow> 0 < k"
  by (auto simp: normalizeTopNodeLimit_def split: option.splits if_splits)

text \<open>With a limit, a node of the graph is one of the top nodes of its stage or the node of the others.\<close>

lemma limited_graph_node:
  assumes "normalizeTopNodeLimit (go_topNodeLimit options) = Some k"
    and "m \<in> set (fg_nodes (buildFlowGraph env metric role palette vs ctx options rows))"
  shows "fn_id m \<in> set (stage_top_ids env k (stage_ranks metric ctx rows (fn_kind m))) \<or>
    fn_id m = OTHER_FLOW_NODE_IDS (fn_kind m) \<and> go_overflowMode options \<noteq> Some HideOverflow"
proof -
  let ?st = "resolveVisibleStages role vs"
  obtain p n where p: "p \<in> set (graph_paths env metric role vs ctx options rows)" and n: "n \<in> set (pp_path p)"
    "pn_id n = fn_id m" "pn_kind n = fn_kind m"
    using graph_node_origin [OF assms(2)] by blast
  have "pn_kind n \<in> set ?st"
    by (rule prepared_kind [OF p [unfolded graph_paths_def] n(1)])
  then obtain tops where tops: "buildTopNodeSets env metric ?st (Some k) ctx rows = Some tops"
    "map_of tops (pn_kind n) = Some (stage_top_ids env k (stage_ranks metric ctx rows (pn_kind n)))"
    using top_node_sets [OF stages_distinct _ limit_positive [OF assms(1)]] by blast
  obtain row where "applyTopNodeLimit (Some tops)
      (nullish (go_overflowMode options) AggregateOverflow) (go_otherNodeLabel options)
      (flowPathForStages ctx ?st row) = Some (pp_path p)"
    using prepared_from_row [OF p [unfolded graph_paths_def]] by (auto simp: assms(1) tops(1))
  from limited_nodes [OF this n(1)] show ?thesis
  proof
    assume "n = NODE_BUILDERS ctx (pn_kind n) row \<and> isTopFlowNode (Some tops) n"
    then have "isTopFlowNode (Some tops) n" ..
    then show ?thesis using tops(2) n by (simp add: isTopFlowNode_def)
  next
    assume o: "n = otherFlowNode (go_otherNodeLabel options) (pn_kind n) \<and>
      nullish (go_overflowMode options) AggregateOverflow \<noteq> HideOverflow"
    then have "pn_id n = OTHER_FLOW_NODE_IDS (pn_kind n)" by (metis FlowPathNode.select_convs(1) otherFlowNode_def)
    with o n show ?thesis by (auto simp: nullish_def)
  qed
qed

text \<open>The limit holds. With a limit of \<open>k\<close> nodes, the graph has at most \<open>k\<close> nodes of each kind and
  one for all the others, and no such node when the others are hidden.\<close>

theorem top_nodes_bounded:
  assumes "normalizeTopNodeLimit (go_topNodeLimit options) = Some k"
  shows "length (filter (\<lambda>m. fn_kind m = K) (fg_nodes (buildFlowGraph env metric role palette vs ctx options rows)))
    \<le> k + (if go_overflowMode options = Some HideOverflow then 0 else 1)"
proof -
  let ?nodes = "filter (\<lambda>m. fn_kind m = K) (fg_nodes (buildFlowGraph env metric role palette vs ctx options rows))"
  let ?top = "stage_top_ids env k (stage_ranks metric ctx rows K)"
  let ?other = "if go_overflowMode options = Some HideOverflow then [] else [OTHER_FLOW_NODE_IDS K]"
  have "distinct (map fn_id ?nodes)" using graph_node_ids_distinct by (rule distinct_map_filter)
  then have "length ?nodes = card (set (map fn_id ?nodes))" by (metis distinct_card length_map)
  also have "\<dots> \<le> card (set (?top @ ?other))"
  proof (rule card_mono)
    show "set (map fn_id ?nodes) \<subseteq> set (?top @ ?other)"
      using limited_graph_node [OF assms] by fastforce
  qed simp
  also have "\<dots> \<le> length (?top @ ?other)" by (rule card_length)
  also have "\<dots> \<le> k + (if go_overflowMode options = Some HideOverflow then 0 else 1)"
    using top_ids_length [of env k] by simp
  finally show ?thesis .
qed

lemma limited_path_form:
  assumes "applyTopNodeLimit tops mode labeler (flowPathForStages ctx stages row) = Some path"
  shows "path = map (\<lambda>s. if isTopFlowNode tops (NODE_BUILDERS ctx s row) then NODE_BUILDERS ctx s row
    else otherFlowNode labeler s) stages"
proof -
  have all: "flowPathForStages ctx stages row = map (\<lambda>s. if isTopFlowNode tops (NODE_BUILDERS ctx s row)
      then NODE_BUILDERS ctx s row else otherFlowNode labeler s) stages"
    if "\<not> list_ex (\<lambda>node. \<not> isTopFlowNode tops node) (flowPathForStages ctx stages row)"
    using that by (auto simp: flowPathForStages_def list_ex_iff)
  have none: "isTopFlowNode None x" for x by (simp add: isTopFlowNode_def)
  show ?thesis
  proof (cases "tops = None \<or> \<not> list_ex (\<lambda>node. \<not> isTopFlowNode tops node) (flowPathForStages ctx stages row)")
    case True
    then have "path = flowPathForStages ctx stages row" using assms by (auto simp: applyTopNodeLimit_def split: if_splits)
    with True all show ?thesis using none by (auto simp: list_ex_iff)
  next
    case False
    then show ?thesis using assms
      by (auto simp: applyTopNodeLimit_def flowPathForStages_def comp_def split: if_splits)
  qed
qed

lemma other_ids: "nid \<notin> set OTHER_FLOW_NODE_ID_SET \<Longrightarrow> pn_id (otherFlowNode labeler s) \<noteq> nid"
  by (cases s) (auto simp: OTHER_FLOW_NODE_ID_SET_def otherFlowNode_def)

lemma limited_count:
  assumes "applyTopNodeLimit (Some tops) mode labeler (flowPathForStages ctx stages row) = Some path"
    and "distinct stages" and "K \<in> set stages"
    and "map_of tops K = Some ids" and "nid \<in> set ids" and "nid \<notin> set OTHER_FLOW_NODE_ID_SET"
    and "id_stage nid = kind_text K"
  shows "length (filter (\<lambda>n. pn_id n = nid) path) = (if pn_id (NODE_BUILDERS ctx K row) = nid then 1 else 0)"
proof -
  let ?h = "\<lambda>s. if isTopFlowNode (Some tops) (NODE_BUILDERS ctx s row) then NODE_BUILDERS ctx s row
    else otherFlowNode labeler s"
  have st: "id_stage (pn_id (?h s)) = kind_text s" for s by simp
  have "pn_id (?h s) = nid \<longleftrightarrow> s = K \<and> pn_id (NODE_BUILDERS ctx K row) = nid" for s
  proof (cases "s = K")
    case True
    then show ?thesis using assms(4,5) other_ids [OF assms(6)] by (auto simp: isTopFlowNode_def)
  next
    case False
    then show ?thesis using st [of s] assms(7) by (auto simp: kind_text_inj)
  qed
  then have "length (filter (\<lambda>n. pn_id n = nid) path) =
      length (filter (\<lambda>s. s = K \<and> pn_id (NODE_BUILDERS ctx K row) = nid) stages)"
    unfolding limited_path_form [OF assms(1)] filter_map length_map comp_def by (simp only:)
  also have "\<dots> = (if pn_id (NODE_BUILDERS ctx K row) = nid then 1 else 0)"
    using assms(2,3) by (induction stages) (auto simp: filter_empty_conv)
  finally show ?thesis .
qed

lemma item_total_paths:
  "item_total (\<lambda>it. metricValue (ni_metrics it) metric) (\<lambda>it. pn_id (ni_node it) = nid) (node_items c ps) =
   sum_list (map (\<lambda>p. of_nat (length (filter (\<lambda>n. pn_id n = nid) (pp_path p))) * metricValue (pp_metrics p) metric) ps)"
  unfolding item_total_concat map_map comp_def path_node_total [where P = "\<lambda>y. y = nid"] ..

lemma aggregate_limit: "mode \<noteq> HideOverflow \<Longrightarrow> \<exists>path. applyTopNodeLimit tops mode labeler p = Some path"
  by (simp add: applyTopNodeLimit_def)

lemma aggregated_row:
  assumes "go_overflowMode options \<noteq> Some HideOverflow" and "row \<in> set rows"
  shows "\<exists>p \<in> set (prepare_paths env metric stages ctx options rows). pp_metrics p = rowMetrics row \<and>
    applyTopNodeLimit (buildTopNodeSets env metric stages (normalizeTopNodeLimit (go_topNodeLimit options)) ctx rows)
      (nullish (go_overflowMode options) AggregateOverflow) (go_otherNodeLabel options)
      (flowPathForStages ctx stages row) = Some (pp_path p)"
proof -
  have mode: "nullish (go_overflowMode options) AggregateOverflow \<noteq> HideOverflow"
    using assms(1) by (cases "go_overflowMode options") (simp_all add: nullish_def)
  obtain path where path: "applyTopNodeLimit
      (buildTopNodeSets env metric stages (normalizeTopNodeLimit (go_topNodeLimit options)) ctx rows)
      (nullish (go_overflowMode options) AggregateOverflow) (go_otherNodeLabel options)
      (flowPathForStages ctx stages row) = Some path"
    using aggregate_limit [OF mode] by blast
  then have "\<lparr>pp_path = path, pp_metrics = rowMetrics row\<rparr> \<in> set (prepare_paths env metric stages ctx options rows)"
    using assms(2) by (auto simp: prepare_paths_def Let_def set_map_filter prepare_row_def intro!: bexI [of _ row])
  with path show ?thesis by (intro bexI [of _ "\<lparr>pp_path = path, pp_metrics = rowMetrics row\<rparr>"]) simp_all
qed

lemma kept_node_value:
  assumes "go_overflowMode options \<noteq> Some HideOverflow" and "K \<in> set stages" and "distinct stages"
    and "buildTopNodeSets env metric stages (normalizeTopNodeLimit (go_topNodeLimit options)) ctx rows = Some tops"
    and "map_of tops K = Some ids" and "nid \<in> set ids" and "nid \<notin> set OTHER_FLOW_NODE_ID_SET"
    and "id_stage nid = kind_text K"
  shows "item_total (\<lambda>it. metricValue (ni_metrics it) metric) (\<lambda>it. pn_id (ni_node it) = nid)
    (node_items c (prepare_paths env metric stages ctx options rows)) = node_usage metric ctx K rows nid"
proof -
  let ?mode = "nullish (go_overflowMode options) AggregateOverflow"
  let ?limit = "\<lambda>row. applyTopNodeLimit (Some tops) ?mode (go_otherNodeLabel options) (flowPathForStages ctx stages row)"
  have mode: "?mode \<noteq> HideOverflow" using assms(1) by (cases "go_overflowMode options") (simp_all add: nullish_def)
  have lim: "?limit row = Some (the (?limit row))" for row
    using aggregate_limit [OF mode] by (metis option.sel)
  then have "prepare_row ctx stages (Some tops) ?mode (go_otherNodeLabel options) row =
      Some \<lparr>pp_path = the (?limit row), pp_metrics = rowMetrics row\<rparr>" for row
    unfolding prepare_row_def by (metis option.simps(9))
  then have "prepare_paths env metric stages ctx options rows =
      map (\<lambda>row. \<lparr>pp_path = the (?limit row), pp_metrics = rowMetrics row\<rparr>) rows"
    by (simp add: prepare_paths_def Let_def assms(4) map_filter_all)
  then show ?thesis
    unfolding item_total_paths node_usage_def
    by (simp add: comp_def limited_count [OF lim assms(3,2,5-8)] sum_list_map_filter' cong: if_cong)
       (simp add: if_distrib [of "\<lambda>x. of_nat x * _"] if_distrib [of "\<lambda>x. x * _"] cong: if_cong)
qed


section \<open>Masked labels\<close>

text \<open>An identifier whose label must not be shown, and the labels that show nothing.\<close>

definition hidden_id :: "string \<Rightarrow> bool" where
  "hidden_id nid \<longleftrightarrow>
     list_ex (\<lambda>kind. id_stage nid = kind_text kind) SENSITIVE_FLOW_KINDS \<and> nid \<notin> set OTHER_FLOW_NODE_ID_SET"

definition shows_nothing :: "string \<Rightarrow> bool" where
  "shows_nothing label \<longleftrightarrow> label = [] \<or> label = FLOW_MASK_TEXT"

lemma masked_label: "shows_nothing (maskFlowLabel label)"
  by (simp add: shows_nothing_def maskFlowLabel_def)

lemma masks_hidden: "id_stage (fn_id n) = kind_text (fn_kind n) \<Longrightarrow> masks_node n \<longleftrightarrow> hidden_id (fn_id n)"
  by (auto simp: masks_node_def hidden_id_def list_ex_iff kind_text_inj)

lemma fold_values:
  "k \<in> key ` set xs \<or> (\<exists>v. map_of m k = Some v \<and> P v) \<Longrightarrow> (\<And>x. P (f x)) \<Longrightarrow>
   \<exists>v. map_of (foldl (\<lambda>m x. map_set (key x) (f x) m) m xs) k = Some v \<and> P v"
proof (induction xs arbitrary: m)
  case (Cons x xs)
  have "k \<in> key ` set xs \<or> (\<exists>v. map_of (map_set (key x) (f x) m) k = Some v \<and> P v)"
    using Cons.prems by (auto simp: map_of_map_set)
  from Cons.IH [OF this Cons.prems(2)] show ?case by simp
qed simp

lemma masked_maps:
  assumes "maskFlowGraphLabels ns ls = (ns', ls')"
    and "\<forall>(k, n) \<in> set ns. fn_id n = k \<and> id_stage k = kind_text (fn_kind n)"
  shows "(k, n) \<in> set ns' \<Longrightarrow> hidden_id (fn_id n) \<Longrightarrow> shows_nothing (fn_label n)"
    and "(j, l) \<in> set ls' \<Longrightarrow> hidden_id (fl_source l) \<Longrightarrow> fl_source l \<in> fst ` set ns \<Longrightarrow> shows_nothing (fl_sourceLabel l)"
    and "(j, l) \<in> set ls' \<Longrightarrow> hidden_id (fl_target l) \<Longrightarrow> fl_target l \<in> fst ` set ns \<Longrightarrow> shows_nothing (fl_targetLabel l)"
proof -
  let ?by = "foldl (\<lambda>m node. map_set (fn_id node) (maskFlowLabel (fn_label node)) m) []
          (filter masks_node (map snd ns))"
  have nodes: "ns' = map (\<lambda>(k, node). (k, mask_node node)) ns"
    and links: "ls' = (if ?by = [] then ls else map (\<lambda>(k, link). (k, mask_link ?by link)) ls)"
    using assms(1) by (auto simp: maskFlowGraphLabels_def Let_def split: if_splits)
  show "shows_nothing (fn_label n)" if "(k, n) \<in> set ns'" "hidden_id (fn_id n)"
  proof -
    obtain n0 where n0: "(k, n0) \<in> set ns" "n = mask_node n0" using \<open>(k, n) \<in> set ns'\<close> nodes by auto
    have "fn_id n = fn_id n0" using n0 by (simp add: mask_node_def)
    then have "masks_node n0" using that(2) bspec [OF assms(2) n0(1)] masks_hidden by simp
    then show ?thesis using n0(2) by (simp add: mask_node_def masked_label)
  qed
  have found: "\<exists>v. map_of ?by nid = Some v \<and> shows_nothing v" if "hidden_id nid" "nid \<in> fst ` set ns" for nid
  proof (rule fold_values)
    obtain n0 where n0: "(nid, n0) \<in> set ns" using \<open>nid \<in> fst ` set ns\<close> by auto
    then have "masks_node n0" "fn_id n0 = nid" using \<open>hidden_id nid\<close> bspec [OF assms(2) n0] masks_hidden [of n0] by auto
    then show "nid \<in> fn_id ` set (filter masks_node (map snd ns)) \<or>
        (\<exists>v. map_of [] nid = Some v \<and> shows_nothing v)" using n0 by force
  qed (rule masked_label)
  have ends: "shows_nothing (fl_sourceLabel l)" if "(j, l) \<in> set ls'" "hidden_id (fl_source l)" "fl_source l \<in> fst ` set ns"
    using that found [OF that(2,3)] unfolding links
    by (auto simp: mask_link_def nullish_def split: if_splits)
  show "(j, l) \<in> set ls' \<Longrightarrow> hidden_id (fl_source l) \<Longrightarrow> fl_source l \<in> fst ` set ns \<Longrightarrow> shows_nothing (fl_sourceLabel l)"
    by (rule ends)
  show "shows_nothing (fl_targetLabel l)" if "(j, l) \<in> set ls'" "hidden_id (fl_target l)" "fl_target l \<in> fst ` set ns"
    using that found [OF that(2,3)] unfolding links
    by (auto simp: mask_link_def nullish_def split: if_splits)
qed

lemma link_map_ends_drawn:
  assumes "(j, l) \<in> set (link_map metric c ps)"
  shows "fl_source l \<in> set (map fst (node_map metric c ps))" and "fl_target l \<in> set (map fst (node_map metric c ps))"
proof -
  obtain it where it: "it \<in> set (link_items c ps)"
    "fl_source l = pn_id (li_source it)" "fl_target l = pn_id (li_target it)"
    using link_acc.collect_origin [where part = "\<lambda>l. (fl_source l, fl_target l)", OF _ assms]
    by (auto simp: bump_link_def new_link_def)
  obtain p where p: "p \<in> set ps" "(li_source it, li_target it) \<in> set (path_links (pp_path p))"
    using it(1) by (auto simp: path_link_items_def split: list.splits)
  have drawn: "pn_id n \<in> set (map fst (node_map metric c ps))" if "n \<in> set (pp_path p)" for n
    using node_items_member [OF p(1) that, of c] unfolding node_acc.collect_keys by (auto simp: image_iff)
  show "fl_source l \<in> set (map fst (node_map metric c ps))" "fl_target l \<in> set (map fst (node_map metric c ps))"
    using drawn path_links_members [OF p(2)] it(2,3) by simp_all
qed


section \<open>Filters\<close>

text \<open>A map from keys to sets that grows by one element at a time.\<close>

lemma grouped_keys:
  "set (map fst (foldl (\<lambda>m x. map_set (key x) (set_add (nullish (map_of m (key x)) []) (f x)) m) m xs)) =
   set (map fst m) \<union> key ` set xs"
proof (induction xs arbitrary: m)
  case (Cons x xs)
  show ?case unfolding foldl_Cons Cons.IH keys_map_set by auto
qed simp

lemma grouped_values:
  "set (nullish (map_of (foldl (\<lambda>m x. map_set (key x) (set_add (nullish (map_of m (key x)) []) (f x)) m) m xs) k) []) =
   set (nullish (map_of m k) []) \<union> f ` {x \<in> set xs. key x = k}"
proof (induction xs arbitrary: m)
  case (Cons x xs)
  show ?case unfolding foldl_Cons Cons.IH by (auto simp: map_of_map_set nullish_def)
qed simp

lemma grouped_distinct:
  "distinct (map fst m) \<Longrightarrow>
   distinct (map fst (foldl (\<lambda>m x. map_set (key x) (set_add (nullish (map_of m (key x)) []) (f x)) m) m xs))"
  by (induction xs arbitrary: m) (simp_all add: distinct_map_set)

lemma foldl_guarded: "foldl (\<lambda>m x. if \<not> P x then m else g m x) m xs = foldl g m (filter P xs)"
  by (induction xs arbitrary: m) auto

text \<open>What a selection means: for every stage with a selected node, the row passes one of them.\<close>

definition selected_ids :: "FlowNodeFilter list option \<Rightarrow> FlowNodeKind \<Rightarrow> string list" where
  "selected_ids sel K = map nf_id (filter (\<lambda>f. nf_kind f = K) (nullish sel []))"

definition matches_selection ::
    "token_label \<Rightarrow> FlowNodeKind list \<Rightarrow> FlowNodeFilter list option \<Rightarrow> FlowQuotaDataItem \<Rightarrow> bool" where
  "matches_selection ctx stages sel row =
     list_all (\<lambda>K. selected_ids sel K = [] \<or> pn_id (NODE_BUILDERS ctx K row) \<in> set (selected_ids sel K)) stages"

lemma normalized_filters:
  defines "filters \<equiv> \<lambda>sel stages. normalizeSelectedNodeFilters sel stages"
  shows "set (map fst (filters sel stages)) = {K \<in> set stages. selected_ids sel K \<noteq> []}"
    and "(K, ids) \<in> set (filters sel stages) \<Longrightarrow> set ids = set (selected_ids sel K)"
proof -
  let ?fs = "filter (\<lambda>f. nf_kind f \<in> set stages) (nullish sel [])"
  have f: "filters sel stages =
      foldl (\<lambda>m f. map_set (nf_kind f) (set_add (nullish (map_of m (nf_kind f)) []) (nf_id f)) m) [] ?fs"
    unfolding filters_def normalizeSelectedNodeFilters_def by (rule foldl_guarded)
  show keys: "set (map fst (filters sel stages)) = {K \<in> set stages. selected_ids sel K \<noteq> []}"
    unfolding f grouped_keys by (auto simp: selected_ids_def filter_empty_conv)
  assume mem: "(K, ids) \<in> set (filters sel stages)"
  have "distinct (map fst (filters sel stages))" unfolding f by (rule grouped_distinct) simp
  with mem have "map_of (filters sel stages) K = Some ids" by (simp add: map_of_is_SomeI)
  then have "set ids = nf_id ` {f \<in> set ?fs. nf_kind f = K}"
    using grouped_values [of nf_kind nf_id "[]" ?fs K] unfolding f by (simp add: nullish_def)
  moreover have "K \<in> set stages" using mem keys by force
  ultimately show "set ids = set (selected_ids sel K)" by (auto simp: selected_ids_def)
qed

lemma path_groups:
  assumes "K \<in> set stages"
    and "m = foldl (\<lambda>m node. map_set (pn_kind node) (set_add (nullish (map_of m (pn_kind node)) []) (pn_id node)) m) []
      (flowPathForStages ctx stages row)"
  shows "\<exists>ids. map_of m K = Some ids \<and> set ids = {pn_id (NODE_BUILDERS ctx K row)}"
proof -
  have "K \<in> set (map fst m)"
    unfolding assms(2) grouped_keys using assms(1) by (force simp: flowPathForStages_def)
  then obtain ids where ids: "map_of m K = Some ids" by (cases "map_of m K") (auto simp: map_of_eq_None_iff)
  have "set (nullish (map_of m K) []) = pn_id ` {n \<in> set (flowPathForStages ctx stages row). pn_kind n = K}"
    unfolding assms(2) grouped_values by (simp add: nullish_def)
  also have "\<dots> = {pn_id (NODE_BUILDERS ctx K row)}" using assms(1) by (auto simp: flowPathForStages_def)
  finally show ?thesis using ids by (simp add: nullish_def)
qed

lemma path_matches:
  "pathMatchesNodeFilters (flowPathForStages ctx stages row) (normalizeSelectedNodeFilters sel stages) =
   matches_selection ctx stages sel row"
proof -
  let ?F = "normalizeSelectedNodeFilters sel stages"
  let ?m = "foldl (\<lambda>m node. map_set (pn_kind node) (set_add (nullish (map_of m (pn_kind node)) []) (pn_id node)) m) []
      (flowPathForStages ctx stages row)"
  let ?ok = "\<lambda>(K, ids). case map_of ?m K of None \<Rightarrow> False | Some pathIds \<Rightarrow> list_ex (\<lambda>nid. nid \<in> set pathIds) ids"
  note keys = normalized_filters(1) [of sel stages] and vals = normalized_filters(2) [of _ _ sel stages]
  have ok: "?ok e \<longleftrightarrow> pn_id (NODE_BUILDERS ctx (fst e) row) \<in> set (selected_ids sel (fst e))" if "e \<in> set ?F" for e
  proof -
    have "fst e \<in> set stages" using that keys by force
    from path_groups [OF this refl] obtain ids where
      "map_of ?m (fst e) = Some ids" "set ids = {pn_id (NODE_BUILDERS ctx (fst e) row)}" by blast
    then show ?thesis using vals [of "fst e" "snd e"] that by (simp add: case_prod_unfold list_ex_iff)
  qed
  have "pathMatchesNodeFilters (flowPathForStages ctx stages row) ?F \<longleftrightarrow> (\<forall>e \<in> set ?F. ?ok e)"
    by (simp add: pathMatchesNodeFilters_def Let_def list_all_iff)
  also have "\<dots> \<longleftrightarrow> (\<forall>K \<in> set (map fst ?F). pn_id (NODE_BUILDERS ctx K row) \<in> set (selected_ids sel K))"
    using ok by auto
  also have "\<dots> \<longleftrightarrow> matches_selection ctx stages sel row"
    unfolding keys by (auto simp: matches_selection_def list_all_iff)
  finally show ?thesis .
qed

lemma filtered_rows:
  "filterRowsByNodes ctx stages sel rows = filter (matches_selection ctx stages sel) rows"
proof (cases "normalizeSelectedNodeFilters sel stages = []")
  case True
  then have "matches_selection ctx stages sel row" for row
    using path_matches [of ctx stages row sel] by (simp add: pathMatchesNodeFilters_def)
  then show ?thesis using True by (simp add: filterRowsByNodes_def)
next
  case False
  then show ?thesis by (simp add: filterRowsByNodes_def path_matches)
qed

text \<open>C20: the rows of the dashboard. A row is counted exactly when its user is selected (or no user is) and,
  for every visible stage with a selected node, its node is one of the selected ones: alternatives
  within a stage, all stages together. Selections of stages that are not visible have no effect, and the
  order of the rows stays.\<close>

theorem flow_rows_meaning:
  "flow_rows options rows =
     filter (\<lambda>row. (nullish (fb_selectedUsers options) [] = [] \<or>
          pn_id (userNode row) \<in> set (nullish (fb_selectedUsers options) [])) \<and>
        matches_selection (fb_deletedTokenLabel options)
          (resolveVisibleStages (nullish (fb_role options) UserRole) (fb_visibleStages options))
          (fb_selectedNodes options) row) rows"
proof -
  have "filterRows users rows = filter (\<lambda>row. nullish users [] = [] \<or> pn_id (userNode row) \<in> set (nullish users [])) rows"
    for users
    by (simp add: filterRows_def Let_def)
  then show ?thesis by (simp add: flow_rows_def filtered_rows conj_commute)
qed

lemma selected_except:
  "selected_ids (selectedNodeFiltersExceptKind sel K) K' = (if K' = K then [] else selected_ids sel K')"
proof -
  let ?f = "filter (\<lambda>f. nf_kind f \<noteq> K) (nullish sel [])"
  have "nullish (selectedNodeFiltersExceptKind sel K) [] = ?f"
    by (cases ?f) (simp_all add: selectedNodeFiltersExceptKind_def Let_def nullish_def)
  then show ?thesis by (auto simp: selected_ids_def intro: filter_cong arg_cong [of _ _ "map nf_id"])
qed

lemma matches_one_more:
  assumes "K \<in> set stages"
  shows "matches_selection ctx stages (Some (filter (\<lambda>f. nf_kind f \<noteq> K) (nullish sel []) @ [\<lparr>nf_kind = K, nf_id = nid\<rparr>])) row
    \<longleftrightarrow> matches_selection ctx stages (selectedNodeFiltersExceptKind sel K) row \<and> pn_id (NODE_BUILDERS ctx K row) = nid"
proof -
  let ?sel = "Some (filter (\<lambda>f. nf_kind f \<noteq> K) (nullish sel []) @ [\<lparr>nf_kind = K, nf_id = nid\<rparr>])"
  have "selected_ids ?sel K' = (if K' = K then [nid] else selected_ids sel K')" for K'
    by (auto simp: selected_ids_def nullish_def intro: filter_cong arg_cong [of _ _ "map nf_id"])
  then show ?thesis using assms by (auto simp: matches_selection_def list_all_iff selected_except)
qed

lemma filter_key_inj:
  "nodeFilterKey \<lparr>nf_kind = K, nf_id = a\<rparr> = nodeFilterKey \<lparr>nf_kind = K, nf_id = b\<rparr> \<longleftrightarrow> a = b"
  by (simp add: nodeFilterKey_def)

lemma stage_option_value:
  assumes "opt \<in> set (stage_options env metric stages colors palette ctx sel rows K)"
  shows "nfo_kind opt = K" and "nfo_valueRaw opt = sum_list (map (\<lambda>row. metricValue (rowMetrics row) metric)
    (filter (\<lambda>row. pn_id (NODE_BUILDERS ctx K row) = nfo_value opt)
      (filterRowsByNodes ctx stages (selectedNodeFiltersExceptKind sel K) rows)))"
proof -
  let ?cand = "filterRowsByNodes ctx stages (selectedNodeFiltersExceptKind sel K) rows"
  let ?its = "map (\<lambda>row. (NODE_BUILDERS ctx K row, metricValue (rowMetrics row) metric)) ?cand"
  obtain key rank where r: "(key, rank) \<in> set (foldl add_keyed_rank [] ?its)" "opt = node_option env colors palette rank"
    using assms by (auto simp: stage_options_def Let_def)
  obtain row where row: "key = nodeFilterKey \<lparr>nf_kind = K, nf_id = pn_id (NODE_BUILDERS ctx K row)\<rparr>"
    "rk_node rank = NODE_BUILDERS ctx K row"
    using option_acc.collect_origin [where part = rk_node, OF _ r(1)] by auto
  show "nfo_kind opt = K" using r(2) row(2) by (simp add: node_option_def)
  have "map_of (foldl add_keyed_rank [] ?its) key = Some rank"
    using r(1) option_acc.collect_distinct by (simp add: map_of_is_SomeI)
  from option_acc.collect_value [OF this] show "nfo_valueRaw opt =
      sum_list (map (\<lambda>row. metricValue (rowMetrics row) metric)
        (filter (\<lambda>row. pn_id (NODE_BUILDERS ctx K row) = nfo_value opt) ?cand))"
    using r(2) row by (simp add: node_option_def filter_map comp_def filter_key_inj)
qed

text \<open>C21: the numbers next to the filter options are right. The value shown for an option is the total that
  the summary shows when exactly that node is selected for its stage and the selections of the other
  stages stay as they are.\<close>

theorem filter_option_value:
  assumes "opt \<in> set (buildNodeFilterOptions env metric role vs palette ctx sel rows)"
  shows "nfo_kind opt \<in> set (resolveVisibleStages role vs) \<and>
    nfo_valueRaw opt = summary_metric (buildSummary (filterRowsByNodes ctx (resolveVisibleStages role vs)
      (Some (filter (\<lambda>f. nf_kind f \<noteq> nfo_kind opt) (nullish sel []) @ [\<lparr>nf_kind = nfo_kind opt, nf_id = nfo_value opt\<rparr>]))
      rows)) metric"
proof -
  let ?st = "resolveVisibleStages role vs"
  obtain colors K where K: "K \<in> set ?st" "opt \<in> set (stage_options env metric ?st colors palette ctx sel rows K)"
    using assms by (auto simp: buildNodeFilterOptions_def Let_def sort_cmp_def)
  note o = stage_option_value [OF K(2)]
  have "filterRowsByNodes ctx ?st (Some (filter (\<lambda>f. nf_kind f \<noteq> K) (nullish sel []) @ [\<lparr>nf_kind = K, nf_id = nfo_value opt\<rparr>])) rows =
      filter (\<lambda>row. pn_id (NODE_BUILDERS ctx K row) = nfo_value opt)
        (filterRowsByNodes ctx ?st (selectedNodeFiltersExceptKind sel K) rows)"
    unfolding filtered_rows filter_filter matches_one_more [OF K(1)] by (simp only: conj_commute)
  then show ?thesis using K(1) o by (simp add: summary_sum)
qed

section \<open>The sample graph\<close>

theorem top_nodes_bounded_witness:
  "length (filter (\<lambda>m. fn_kind m = TokenKind) (fg_nodes sample_graph)) \<le> 1 + 1"
proof -
  have "normalizeTopNodeLimit (go_topNodeLimit sample_options) = Some 1" "go_overflowMode sample_options = None"
    by (simp_all add: sample_options_def normalizeTopNodeLimit_def)
  with top_nodes_bounded [OF this(1), of TokenKind sample_flow_env QuotaMetric UserRole None None None sample_rows]
  show ?thesis by (simp add: sample_graph_def)
qed

lemma sample_node_ids:
  "map fn_id (fg_nodes sample_graph) =
     [''group:vip'', ''model:m1'', ''token:t1'', ''token:__other__'', ''model:__other__'']"
proof -
  have "map fn_id (fg_nodes sample_graph) = map fst (map node_core (fg_nodes sample_graph))" by (simp add: node_core_def)
  then show ?thesis unfolding sample_nodes by simp
qed



theorem filter_option_value_witness:
  "summary_metric (buildSummary (filterRowsByNodes None [TokenKind, GroupKind, ModelKind]
     (Some [\<lparr>nf_kind = TokenKind, nf_id = ''token:t1''\<rparr>]) sample_rows)) QuotaMetric = 7"
proof -
  let ?opts = "buildNodeFilterOptions sample_flow_env QuotaMetric UserRole None None None None sample_rows"
  have "map (\<lambda>opt. (nfo_kind opt, nfo_value opt, nfo_valueRaw opt)) ?opts =
      [(TokenKind, ''token:t1'', 7), (TokenKind, ''token:t2'', 3), (GroupKind, ''group:vip'', 10),
       (ModelKind, ''model:m1'', 8), (ModelKind, ''model:m2'', 2)]" by code_simp
  then have "(TokenKind, ''token:t1'', 7) \<in> set (map (\<lambda>opt. (nfo_kind opt, nfo_value opt, nfo_valueRaw opt)) ?opts)" by simp
  then obtain opt where opt: "opt \<in> set ?opts" "nfo_kind opt = TokenKind" "nfo_value opt = ''token:t1''" "nfo_valueRaw opt = 7"
    by auto
  have "resolveVisibleStages UserRole None = [TokenKind, GroupKind, ModelKind]" by code_simp
  with filter_option_value [OF opt(1)] opt(2-4) show ?thesis by (simp add: nullish_def)
qed

end
