(* ===== verification/JsonIndent.thy ===== *)
theory JsonIndent
  imports Json
begin

text \<open>
  \<open>JSON.stringify(value, null, 2)\<close>: the indented text of a value, which the editors show, and that
  \<open>JSON.parse\<close> reads it back.
\<close>

section \<open>Printing\<close>

definition line_break :: "string \<Rightarrow> string" where
  "line_break ind = CHR 0x0A # ind"

text \<open>The text of a value whose first line stands at indentation \<open>ind\<close>.\<close>

fun indented :: "string \<Rightarrow> jsv \<Rightarrow> string" where
  "indented ind (JArr vs) =
     (if vs = [] then ''[]''
      else ''['' @ line_break (ind @ ''  '')
        @ join ('','' @ line_break (ind @ ''  '')) (map (indented (ind @ ''  '')) vs)
        @ line_break ind @ '']'')"
| "indented ind (JObj kvs) =
     (if kvs = [] then ''{}''
      else ''{'' @ line_break (ind @ ''  '')
        @ join ('','' @ line_break (ind @ ''  ''))
            (map (\<lambda>kv. quote (fst kv) @ '': '' @ indented (ind @ ''  '') (snd kv)) kvs)
        @ line_break ind @ ''}'')"
| "indented ind v = stringify v"

definition stringify2 :: "jsv \<Rightarrow> string" where
  "stringify2 v = indented [] v"

section \<open>Reading back\<close>

text \<open>Indentation is white space.\<close>

definition blank :: "string \<Rightarrow> bool" where
  "blank ws \<longleftrightarrow> list_all is_json_ws ws"

lemma blank_more [simp]: "blank ind \<Longrightarrow> blank (ind @ ''  '')" "blank ind \<Longrightarrow> blank (line_break ind)" "blank []"
  by (simp_all add: blank_def is_json_ws_def line_break_def)

lemma skip_blank: "blank ws \<Longrightarrow> skip_ws (ws @ s) = skip_ws s"
  by (induction ws) (simp_all add: blank_def skip_ws_def)

lemma p_value_blank: "blank ws \<Longrightarrow> p_value (ws @ s) = p_value s"
  by (subst (1 2) p_value.simps) (simp only: skip_blank)

lemma delim_break [simp]: "delim (line_break ind @ s)"
  by (simp add: delim_def line_break_def)

lemma indented_hd:
  assumes "json_wf v"
  shows "\<exists>c t. indented ind v = c # t \<and> \<not> is_json_ws c \<and> c \<noteq> CHR '']'' \<and> c \<noteq> CHR ''}''"
  using assms stringify_hd [OF assms] by (cases v) (auto simp: is_json_ws_def)

abbreviation reads_indented :: "jsv \<Rightarrow> bool" where
  "reads_indented v \<equiv> (\<forall>r ind. blank ind \<longrightarrow> delim r \<longrightarrow> p_value (indented ind v @ r) = Some (v, r))"

lemma p_elems_indented:
  assumes "vs \<noteq> []" and "\<And>v. v \<in> set vs \<Longrightarrow> reads_indented v" and "blank ind" and "blank out"
  shows "p_elems (line_break ind @ join ('','' @ line_break ind) (map (indented ind) vs) @ line_break out @ CHR '']'' # r) acc
    = Some (JArr (acc @ vs), r)"
  using assms(1,2)
proof (induction vs arbitrary: acc)
  case (Cons v vs)
  have one: "p_value (line_break ind @ indented ind v @ s) = Some (v, s)" if "delim s" for s
    using that Cons.prems(2) [of v] assms(3) by (simp add: p_value_blank)
  show ?case
  proof (cases "vs = []")
    case True
    have "skip_ws (line_break out @ CHR '']'' # r) = CHR '']'' # r"
      unfolding skip_blank [OF blank_more(2) [OF assms(4)]] by (simp add: skip_ws_def is_json_ws_def)
    with True one [of "line_break out @ CHR '']'' # r"] show ?thesis
      by (subst p_elems.simps) simp
  next
    case False
    let ?rest = "line_break ind @ join ('','' @ line_break ind) (map (indented ind) vs) @ line_break out @ CHR '']'' # r"
    have "p_value (line_break ind @ indented ind v @ CHR '','' # ?rest) = Some (v, CHR '','' # ?rest)"
      by (rule one) simp
    moreover have "skip_ws (CHR '','' # ?rest) = CHR '','' # ?rest" by (simp add: skip_ws_def is_json_ws_def)
    moreover have "p_elems ?rest (acc @ [v]) = Some (JArr ((acc @ [v]) @ vs), r)"
      by (rule Cons.IH [OF False]) (use Cons.prems(2) in auto)
    ultimately show ?thesis using False
      by (subst p_elems.simps) (simp add: join_Cons)
  qed
qed simp

abbreviation indented_member :: "string \<Rightarrow> string \<times> jsv \<Rightarrow> string" where
  "indented_member ind kv \<equiv> quote (fst kv) @ '': '' @ indented ind (snd kv)"

lemma p_members_indented_one:
  assumes "reads_indented v" and "blank ind" and "delim s" and "skip_ws s = c # r" and "length r < length s"
  shows "p_members (line_break ind @ indented_member ind (k, v) @ s) acc =
     (if c = CHR '','' then p_members r (map_set k v acc)
      else if c = CHR ''}'' then Some (JObj (map_set k v acc), r) else None)"
proof -
  let ?tail = "CHR '':'' # CHR '' '' # indented ind v @ s"
  have q: "skip_ws (line_break ind @ quote k @ ?tail) = CHR 0x22 # concat (map escape_char k) @ CHR 0x22 # ?tail"
    unfolding skip_blank [OF blank_more(2) [OF assms(2)]] by (simp add: quote_def skip_ws_def is_json_ws_def)
  have "p_chars (concat (map escape_char k) @ CHR 0x22 # ?tail) = Some (k, ?tail)" by (rule p_chars_quote)
  moreover have "skip_ws ?tail = ?tail" by (simp add: skip_ws_def is_json_ws_def)
  moreover have "p_value (CHR '' '' # indented ind v @ s) = Some (v, s)"
    using assms(1-3) p_value_blank [of "'' ''" "indented ind v @ s"] by (simp add: blank_def is_json_ws_def)
  ultimately show ?thesis using assms(4,5) q
    by (subst p_members.simps) (simp add: quote_def)
qed

lemma p_members_indented:
  assumes "kvs \<noteq> []" and "\<And>kv. kv \<in> set kvs \<Longrightarrow> reads_indented (snd kv)" and "blank ind" and "blank out"
    and "distinct (map fst (acc @ kvs))"
  shows "p_members (line_break ind @ join ('','' @ line_break ind) (map (indented_member ind) kvs)
      @ line_break out @ CHR ''}'' # r) acc = Some (JObj (acc @ kvs), r)"
  using assms(1,2,5)
proof (induction kvs arbitrary: acc)
  case (Cons kv kvs)
  obtain k v where kv: "kv = (k, v)" by (cases kv)
  have fresh: "map_set k v acc = acc @ [(k, v)]"
    using Cons.prems(3) kv by (intro map_set_fresh) auto
  have rb: "reads_indented v" using Cons.prems(2) [of kv] kv by simp
  show ?case
  proof (cases "kvs = []")
    case True
    have "skip_ws (line_break out @ CHR ''}'' # r) = CHR ''}'' # r"
      unfolding skip_blank [OF blank_more(2) [OF assms(4)]] by (simp add: skip_ws_def is_json_ws_def)
    from p_members_indented_one [OF rb assms(3) delim_break this, of k acc] True fresh kv show ?thesis by simp
  next
    case False
    let ?rest = "line_break ind @ join ('','' @ line_break ind) (map (indented_member ind) kvs) @ line_break out @ CHR ''}'' # r"
    have "skip_ws (CHR '','' # ?rest) = CHR '','' # ?rest" by (simp add: skip_ws_def is_json_ws_def)
    from p_members_indented_one [OF rb assms(3) _ this, of k acc]
    have "p_members (line_break ind @ indented_member ind (k, v) @ CHR '','' # ?rest) acc = p_members ?rest (acc @ [(k, v)])"
      by (simp add: fresh)
    also have "\<dots> = Some (JObj ((acc @ [(k, v)]) @ kvs), r)"
      by (rule Cons.IH [OF False]) (use Cons.prems kv in auto)
    finally show ?thesis using False kv by (simp add: join_Cons)
  qed
qed simp

lemma indented_reads_back: "json_wf v \<Longrightarrow> reads_indented v"
proof (induction v)
  case (JArr vs)
  have rb: "reads_indented v" if "v \<in> set vs" for v using JArr that by (auto simp: list_all_iff)
  show ?case
  proof (intro allI impI)
    fix r ind assume b: "blank ind" and d: "delim r"
    show "p_value (indented ind (JArr vs) @ r) = Some (JArr vs, r)"
    proof (cases "vs = []")
      case True
      then show ?thesis by (simp add: p_value.simps skip_ws_def is_json_ws_def startsWith_def)
    next
      case False
      let ?in = "ind @ ''  ''"
      let ?body = "line_break ?in @ join ('','' @ line_break ?in) (map (indented ?in) vs) @ line_break ind @ CHR '']'' # r"
      obtain v vs' where vs: "vs = v # vs'" using False by (cases vs) auto
      obtain c t where c: "indented ?in v = c # t" "\<not> is_json_ws c" "c \<noteq> CHR '']''"
        using indented_hd [of v ?in] JArr.prems vs by auto
      obtain t' where "join ('','' @ line_break ?in) (map (indented ?in) vs) @ line_break ind @ CHR '']'' # r = c # t'"
        using c(1) vs by (cases vs') auto
      then have "skip_ws ?body = c # t'"
        using skip_blank [OF blank_more(2) [OF blank_more(1) [OF b]], of "c # t'"] c(2) by (simp add: skip_ws_id)
      then show ?thesis
        using p_elems_indented [OF False rb blank_more(1) [OF b] b, of r "[]"] False c(3)
        by (simp add: p_value.simps [of "CHR ''['' # _"] skip_ws_def [of "CHR ''['' # _"] is_json_ws_def startsWith_def)
    qed
  qed
next
  case (JObj kvs)
  have rb: "reads_indented (snd kv)" if "kv \<in> set kvs" for kv
    using JObj that by (cases kv) (auto simp: list_all_iff)
  show ?case
  proof (intro allI impI)
    fix r ind assume b: "blank ind" and d: "delim r"
    show "p_value (indented ind (JObj kvs) @ r) = Some (JObj kvs, r)"
    proof (cases "kvs = []")
      case True
      then show ?thesis by (simp add: p_value.simps skip_ws_def is_json_ws_def startsWith_def)
    next
      case False
      let ?in = "ind @ ''  ''"
      let ?body = "line_break ?in @ join ('','' @ line_break ?in) (map (indented_member ?in) kvs) @ line_break ind @ CHR ''}'' # r"
      obtain t' where "join ('','' @ line_break ?in) (map (indented_member ?in) kvs) @ line_break ind @ CHR ''}'' # r = CHR 0x22 # t'"
        using False by (cases kvs; cases "tl kvs") (auto simp: quote_def)
      then have "skip_ws ?body = CHR 0x22 # t'"
        using skip_blank [OF blank_more(2) [OF blank_more(1) [OF b]], of "CHR 0x22 # t'"]
        by (simp add: skip_ws_id is_json_ws_def)
      then show ?thesis
        using p_members_indented [OF False rb blank_more(1) [OF b] b, of "[]" r] False JObj.prems
        by (simp add: p_value.simps [of "CHR ''{'' # _"] skip_ws_def [of "CHR ''{'' # _"] is_json_ws_def startsWith_def)
    qed
  qed
qed (use stringify_reads_back in \<open>auto simp del: stringify.simps\<close>)

lemma parse_stringify2: "json_wf v \<Longrightarrow> JSON_parse (stringify2 v) = Some v"
  using indented_reads_back [of v] by (force simp: JSON_parse_def stringify2_def delim_def skip_ws_def)

interpretation json2: json_codec stringify2 JSON_parse json_wf
  by unfold_locales (rule parse_stringify2)

end
