(* ===== verification/AdvancedCustom.thy ===== *)
theory AdvancedCustom
  imports JsonIndent
begin

text \<open>
  The routes of a channel with advanced custom forwarding:
  \<open>features/channels/lib/advanced-custom.ts\<close>.

  A configuration is edited as JSON text and only cast to its type, so the functions are modelled on
  JSON values: a property may be missing or have any type. A property that is present with the value
  \<open>undefined\<close> is a missing one, which reading and printing do not distinguish. \<open>None\<close> as a result
  of a function that may throw is the \<open>TypeError\<close> of reading a property of \<open>null\<close> or of calling
  \<open>trim\<close> on something that is not a string. \<open>new URL\<close> of the browser is a parameter: the protocol
  and the host, or \<open>None\<close> when it throws.
\<close>

section \<open>Dynamic values\<close>

type_synonym 'a throws = "'a option"

text \<open>\<open>v || d\<close>, \<open>v.trim()\<close> and \<open>v?.trim() || ''\<close>.\<close>

definition or_val :: "jsv option \<Rightarrow> jsv \<Rightarrow> jsv" where
  "or_val v d = (case v of None \<Rightarrow> d | Some w \<Rightarrow> if truthy w then w else d)"

definition js_trim :: "jsv \<Rightarrow> string throws" where
  "js_trim v = (case v of JStr s \<Rightarrow> Some (trim s) | _ \<Rightarrow> None)"

definition opt_trim :: "jsv option \<Rightarrow> string throws" where
  "opt_trim v = (case v of None \<Rightarrow> Some [] | Some JNull \<Rightarrow> Some [] | Some w \<Rightarrow> js_trim w)"

section \<open>Tables\<close>

type_synonym select_option = "string \<times> string"

definition ADVANCED_CUSTOM_CONVERTER_OPTIONS :: "select_option list" where
  "ADVANCED_CUSTOM_CONVERTER_OPTIONS =
     [(''none'', ''Native forwarding''),
      (''anthropic_messages_to_openai_chat_completions'', ''Anthropic Messages to OpenAI Chat''),
      (''openai_chat_completions_to_anthropic_messages'', ''OpenAI Chat to Anthropic Messages''),
      (''openai_chat_completions_to_openai_responses'', ''OpenAI Chat to OpenAI Responses''),
      (''openai_responses_to_openai_chat_completions'', ''OpenAI Responses to OpenAI Chat''),
      (''gemini_generate_content_to_openai_chat_completions'', ''Gemini Generate Content to OpenAI Chat''),
      (''openai_chat_completions_to_gemini_generate_content'', ''OpenAI Chat to Gemini Generate Content'')]"

definition ADVANCED_CUSTOM_AUTH_MODE_OPTIONS :: "select_option list" where
  "ADVANCED_CUSTOM_AUTH_MODE_OPTIONS =
     [(''default'', ''Default Bearer''), (''none'', ''No Auth''), (''header'', ''Header''), (''query'', ''Query'')]"

definition ADVANCED_CUSTOM_INCOMING_PATH_OPTIONS :: "select_option list" where
  "ADVANCED_CUSTOM_INCOMING_PATH_OPTIONS =
     [(''/v1/chat/completions'', ''OpenAI Chat''),
      (''/v1/responses'', ''OpenAI Responses''),
      (''/v1/responses/compact'', ''OpenAI Responses Compact''),
      (''/v1/embeddings'', ''OpenAI Embeddings''),
      (''/v1/images/generations'', ''OpenAI Image Generations''),
      (''/v1/images/edits'', ''OpenAI Image Edits''),
      (''/v1/completions'', ''OpenAI Completions''),
      (''/v1/audio/speech'', ''OpenAI Audio Speech''),
      (''/v1/audio/transcriptions'', ''OpenAI Audio Transcriptions''),
      (''/v1/audio/translations'', ''OpenAI Audio Translations''),
      (''/v1/rerank'', ''OpenAI Rerank''),
      (''/v1/realtime'', ''OpenAI Realtime''),
      (''/v1/messages'', ''Claude Messages''),
      (''/v1beta/models/{model}:generateContent'', ''Gemini Generate Content''),
      (''/v1beta/models/{model}:embedContent'', ''Gemini Embed Content''),
      (''/v1beta/models/{model}:batchEmbedContents'', ''Gemini Batch Embed Contents'')]"

definition ADVANCED_CUSTOM_ROUTE_SUMMARY_LABELS :: "(string \<times> string) list" where
  "ADVANCED_CUSTOM_ROUTE_SUMMARY_LABELS = [(''/v1/chat/completions'', ''OpenAI Chat'')]"

definition bearerHeaderAuth :: jsv where
  "bearerHeaderAuth =
     JObj [(''type'', JStr ''header''), (''name'', JStr ''Authorization''), (''value'', JStr ''Bearer {api_key}'')]"

definition apiKeyHeaderAuth :: jsv where
  "apiKeyHeaderAuth =
     JObj [(''type'', JStr ''header''), (''name'', JStr ''x-api-key''), (''value'', JStr ''{api_key}'')]"

definition geminiQueryAuth :: jsv where
  "geminiQueryAuth = JObj [(''type'', JStr ''query''), (''name'', JStr ''key''), (''value'', JStr ''{api_key}'')]"

text \<open>The object literals of the templates.\<close>

definition template_route :: "string \<Rightarrow> string \<Rightarrow> string \<Rightarrow> jsv \<Rightarrow> jsv" where
  "template_route incoming upstream converter auth =
     JObj [(''incoming_path'', JStr incoming), (''upstream_path'', JStr upstream),
           (''converter'', JStr converter), (''auth'', auth)]"

definition routes_config :: "jsv list \<Rightarrow> jsv" where
  "routes_config routes = JObj [(''advanced_routes'', JArr routes)]"

record AdvancedCustomTemplateOption =
  tp_value :: string
  tp_label :: string
  tp_config :: jsv

definition ADVANCED_CUSTOM_TEMPLATE_OPTIONS :: "AdvancedCustomTemplateOption list" where
  "ADVANCED_CUSTOM_TEMPLATE_OPTIONS =
     [\<lparr>tp_value = ''official_openai_chat'', tp_label = ''Official OpenAI Chat'',
       tp_config = routes_config
         [template_route ''/v1/chat/completions'' ''/v1/chat/completions'' ''none'' bearerHeaderAuth]\<rparr>,
      \<lparr>tp_value = ''official_openai_responses'', tp_label = ''Official OpenAI Responses'',
       tp_config = routes_config [template_route ''/v1/responses'' ''/v1/responses'' ''none'' bearerHeaderAuth]\<rparr>,
      \<lparr>tp_value = ''official_openai_embeddings'', tp_label = ''Official OpenAI Embeddings'',
       tp_config = routes_config [template_route ''/v1/embeddings'' ''/v1/embeddings'' ''none'' bearerHeaderAuth]\<rparr>,
      \<lparr>tp_value = ''official_openai_images'', tp_label = ''Official OpenAI Images'',
       tp_config = routes_config
         [template_route ''/v1/images/generations'' ''/v1/images/generations'' ''none'' bearerHeaderAuth,
          template_route ''/v1/images/edits'' ''/v1/images/edits'' ''none'' bearerHeaderAuth]\<rparr>,
      \<lparr>tp_value = ''official_claude_messages'', tp_label = ''Official Claude Messages'',
       tp_config = routes_config [template_route ''/v1/messages'' ''/v1/messages'' ''none'' apiKeyHeaderAuth]\<rparr>,
      \<lparr>tp_value = ''official_gemini_native'', tp_label = ''Official Gemini Native'',
       tp_config = routes_config
         [template_route ''/v1beta/models/{model}:generateContent'' ''/v1beta/models/{model}:generateContent''
            ''none'' geminiQueryAuth,
          template_route ''/v1beta/models/{model}:embedContent'' ''/v1beta/models/{model}:embedContent''
            ''none'' geminiQueryAuth,
          template_route ''/v1beta/models/{model}:batchEmbedContents''
            ''/v1beta/models/{model}:batchEmbedContents'' ''none'' geminiQueryAuth]\<rparr>,
      \<lparr>tp_value = ''official_gemini_from_openai_chat'', tp_label = ''Official Gemini from OpenAI Chat'',
       tp_config = routes_config
         [template_route ''/v1/chat/completions'' ''/v1beta/models/{model}:generateContent''
            ''openai_chat_completions_to_gemini_generate_content'' geminiQueryAuth]\<rparr>]"

section \<open>Operations\<close>

definition cloneAdvancedCustomConfig :: "jsv \<Rightarrow> jsv throws" where
  "cloneAdvancedCustomConfig config = JSON_parse (stringify config)"

definition getAdvancedCustomTemplateConfig :: "string \<Rightarrow> jsv throws" where
  "getAdvancedCustomTemplateConfig templateKey =
     (let template =
        (case find (\<lambda>option. tp_value option = templateKey) ADVANCED_CUSTOM_TEMPLATE_OPTIONS of
           Some option \<Rightarrow> option
         | None \<Rightarrow> hd ADVANCED_CUSTOM_TEMPLATE_OPTIONS) in
      cloneAdvancedCustomConfig (tp_config template))"

definition createAdvancedCustomRoute :: jsv where
  "createAdvancedCustomRoute =
     JObj [(''incoming_path'', JStr ''/v1/chat/completions''), (''upstream_path'', JStr ''/v1/chat/completions''),
           (''converter'', JStr ''none'')]"

definition createAdvancedCustomConfig :: jsv where
  "createAdvancedCustomConfig = routes_config [createAdvancedCustomRoute]"

definition getAdvancedCustomUpstreamPathPlaceholder :: "jsv \<Rightarrow> string" where
  "getAdvancedCustomUpstreamPathPlaceholder converter =
     (if converter = JStr ''openai_chat_completions_to_gemini_generate_content''
      then ''/v1beta/models/{model}:generateContent''
      else if converter = JStr ''openai_chat_completions_to_anthropic_messages'' then ''/v1/messages''
      else if converter = JStr ''openai_responses_to_openai_chat_completions'' then ''/v1/chat/completions''
      else ''/v1/chat/completions'')"

definition isConverterPathAllowed :: "string \<Rightarrow> jsv \<Rightarrow> bool" where
  "isConverterPathAllowed incomingPath converter =
     (if converter = JStr ''none'' then True
      else if converter = JStr ''anthropic_messages_to_openai_chat_completions''
        then incomingPath = ''/v1/messages''
      else if converter = JStr ''openai_chat_completions_to_anthropic_messages''
          \<or> converter = JStr ''openai_chat_completions_to_openai_responses''
          \<or> converter = JStr ''openai_chat_completions_to_gemini_generate_content''
        then incomingPath = ''/v1/chat/completions''
      else if converter = JStr ''openai_responses_to_openai_chat_completions''
        then incomingPath = ''/v1/responses''
      else js_includes incomingPath '':generateContent'' \<or> js_includes incomingPath '':streamGenerateContent'')"

definition getAdvancedCustomIncomingPathOptions :: "jsv \<Rightarrow> select_option list" where
  "getAdvancedCustomIncomingPathOptions converter =
     filter (\<lambda>option. isConverterPathAllowed (fst option) converter) ADVANCED_CUSTOM_INCOMING_PATH_OPTIONS"

definition getDefaultAdvancedCustomIncomingPath :: "jsv \<Rightarrow> string" where
  "getDefaultAdvancedCustomIncomingPath converter =
     (case getAdvancedCustomIncomingPathOptions converter of
        [] \<Rightarrow> ''/v1/chat/completions''
      | option # _ \<Rightarrow> str_or (fst option) ''/v1/chat/completions'')"

definition isAdvancedCustomIncomingPathAllowed :: "string \<Rightarrow> jsv \<Rightarrow> bool" where
  "isAdvancedCustomIncomingPathAllowed incomingPath converter = isConverterPathAllowed incomingPath converter"

definition getAdvancedCustomConverterOptions :: "string \<Rightarrow> select_option list" where
  "getAdvancedCustomConverterOptions incomingPath =
     (let normalizedIncomingPath = trim incomingPath in
      filter (\<lambda>option. fst option = ''none'' \<or> isConverterPathAllowed normalizedIncomingPath (JStr (fst option)))
        ADVANCED_CUSTOM_CONVERTER_OPTIONS)"

definition getAdvancedCustomIncomingPathLabel :: "string \<Rightarrow> string" where
  "getAdvancedCustomIncomingPathLabel value =
     (case find (\<lambda>option. fst option = value) ADVANCED_CUSTOM_INCOMING_PATH_OPTIONS of
        Some option \<Rightarrow> str_or (snd option) value
      | None \<Rightarrow> value)"

definition getAdvancedCustomRouteUpstreamPath :: "jsv \<Rightarrow> string throws" where
  "getAdvancedCustomRouteUpstreamPath route =
     (if route = JNull then None else js_trim (or_val (field route ''upstream_path'') (JStr [])))"

text \<open>The normalised \<open>auth\<close>; a missing type stays missing.\<close>

definition normalize_auth :: "jsv \<Rightarrow> jsv" where
  "normalize_auth auth =
     JObj ((case field auth ''type'' of None \<Rightarrow> [] | Some type \<Rightarrow> [(''type'', type)])
       @ [(''name'', or_val (field auth ''name'') (JStr [])), (''value'', or_val (field auth ''value'') (JStr []))])"

definition normalizeAdvancedCustomRoute :: "jsv \<Rightarrow> jsv throws" where
  "normalizeAdvancedCustomRoute route =
     (case getAdvancedCustomRouteUpstreamPath route of
        None \<Rightarrow> None
      | Some upstream \<Rightarrow>
          Some (JObj ([(''incoming_path'', or_val (field route ''incoming_path'') (JStr [])),
                       (''upstream_path'', JStr upstream),
                       (''converter'', or_val (field route ''converter'') (JStr ''none''))]
            @ (case field route ''auth'' of
                 None \<Rightarrow> []
               | Some auth \<Rightarrow> if truthy auth then [(''auth'', normalize_auth auth)] else []))))"

definition normalizeAdvancedCustomConfig :: "jsv \<Rightarrow> jsv throws" where
  "normalizeAdvancedCustomConfig config =
     (if config = JNull then None
      else (case field config ''advanced_routes'' of
              Some (JArr routes) \<Rightarrow> map_option routes_config (those (map normalizeAdvancedCustomRoute routes))
            | _ \<Rightarrow> Some (routes_config [])))"

text \<open>\<open>config.advanced_routes || []\<close> of a normalised configuration.\<close>

definition advanced_routes :: "jsv \<Rightarrow> jsv list" where
  "advanced_routes config = (case field config ''advanced_routes'' of Some (JArr routes) \<Rightarrow> routes | _ \<Rightarrow> [])"

definition parseAdvancedCustomConfig :: "string option \<Rightarrow> jsv option" where
  "parseAdvancedCustomConfig value =
     (case value of
        None \<Rightarrow> None
      | Some text \<Rightarrow>
          if trim text = [] then None
          else (case JSON_parse text of
                  None \<Rightarrow> None
                | Some parsed \<Rightarrow>
                    (case plain_object parsed of
                       None \<Rightarrow> None
                     | Some _ \<Rightarrow> normalizeAdvancedCustomConfig parsed)))"

definition stringifyAdvancedCustomConfig :: "jsv \<Rightarrow> string throws" where
  "stringifyAdvancedCustomConfig config = map_option stringify2 (normalizeAdvancedCustomConfig config)"

section \<open>Validation\<close>

type_synonym url_parser = "string \<Rightarrow> (string \<times> string) option"

definition isFullHttpURLOrAbsolutePath :: "url_parser \<Rightarrow> string \<Rightarrow> bool" where
  "isFullHttpURLOrAbsolutePath url value =
     (if startsWith value ''/'' then \<not> startsWith value ''//''
      else (case url value of
              None \<Rightarrow> False
            | Some (protocol, host) \<Rightarrow> host \<noteq> [] \<and> (protocol = ''http:'' \<or> protocol = ''https:'')))"

definition isAdvancedCustomConverter :: "jsv \<Rightarrow> bool" where
  "isAdvancedCustomConverter value =
     list_ex (\<lambda>option. JStr (fst option) = value) ADVANCED_CUSTOM_CONVERTER_OPTIONS"

text \<open>\<open>Some None\<close> is the result \<open>null\<close>.\<close>

definition validateRouteAuth :: "jsv option \<Rightarrow> string option throws" where
  "validateRouteAuth auth =
     (case auth of
        None \<Rightarrow> Some None
      | Some a \<Rightarrow>
          if \<not> truthy a then Some None
          else if field a ''type'' = Some (JStr ''none'') then Some None
          else if field a ''type'' \<noteq> Some (JStr ''header'') \<and> field a ''type'' \<noteq> Some (JStr ''query'')
            then Some (Some ''Auth type is invalid'')
          else (case opt_trim (field a ''name'') of
                  None \<Rightarrow> None
                | Some name \<Rightarrow>
                    if name = [] then Some (Some ''Auth name is required'')
                    else (case opt_trim (field a ''value'') of
                            None \<Rightarrow> None
                          | Some value \<Rightarrow>
                              if value = [] then Some (Some ''Auth value is required'') else Some None)))"

record AdvancedCustomValidationError =
  ve_message :: string
  ve_routeIndex :: "nat option"

text \<open>The body of the loop for a route whose paths are read: the message of the first failing check.\<close>

definition route_error ::
    "url_parser \<Rightarrow> string list \<Rightarrow> string \<Rightarrow> string \<Rightarrow> jsv \<Rightarrow> string option throws" where
  "route_error url seenPaths incomingPath upstreamPath route =
     (let converter = or_val (field route ''converter'') (JStr ''none'') in
      if incomingPath = [] then Some (Some ''Incoming path is required'')
      else if \<not> startsWith incomingPath ''/'' then Some (Some ''Incoming path must start with /'')
      else if js_includes incomingPath ''?'' then Some (Some ''Incoming path must not include query'')
      else if incomingPath \<in> set seenPaths then Some (Some ''Incoming path must be unique'')
      else if upstreamPath = [] then Some (Some ''Upstream path is required'')
      else if \<not> isFullHttpURLOrAbsolutePath url upstreamPath
        then Some (Some ''Upstream path must be a full URL or a path starting with /'')
      else if \<not> isAdvancedCustomConverter converter then Some (Some ''Converter is not registered'')
      else if \<not> isConverterPathAllowed incomingPath converter
        then Some (Some ''Converter does not match incoming path'')
      else validateRouteAuth (field route ''auth''))"

fun validate_routes ::
    "url_parser \<Rightarrow> nat \<Rightarrow> string list \<Rightarrow> jsv list \<Rightarrow> AdvancedCustomValidationError option throws" where
  "validate_routes url index seenPaths [] = Some None"
| "validate_routes url index seenPaths (route # routes) =
     (case (opt_trim (field route ''incoming_path''), getAdvancedCustomRouteUpstreamPath route) of
        (Some incomingPath, Some upstreamPath) \<Rightarrow>
          (case route_error url seenPaths incomingPath upstreamPath route of
             None \<Rightarrow> None
           | Some (Some message) \<Rightarrow> Some (Some \<lparr>ve_message = message, ve_routeIndex = Some index\<rparr>)
           | Some None \<Rightarrow> validate_routes url (index + 1) (set_add seenPaths incomingPath) routes)
      | _ \<Rightarrow> None)"

definition validateAdvancedCustomConfig ::
    "url_parser \<Rightarrow> jsv option \<Rightarrow> AdvancedCustomValidationError option throws" where
  "validateAdvancedCustomConfig url config =
     (case config of
        None \<Rightarrow> Some (Some \<lparr>ve_message = ''Advanced custom configuration is required'', ve_routeIndex = None\<rparr>)
      | Some c \<Rightarrow>
          (case normalizeAdvancedCustomConfig c of
             None \<Rightarrow> None
           | Some normalized \<Rightarrow>
               (let routes = advanced_routes normalized in
                if length routes = 0
                then Some (Some \<lparr>ve_message = ''Advanced custom configuration requires at least one route'',
                                 ve_routeIndex = None\<rparr>)
                else validate_routes url 0 [] routes)))"

definition advancedCustomConfigUsesRelativeUpstreamPath :: "jsv option \<Rightarrow> bool throws" where
  "advancedCustomConfigUsesRelativeUpstreamPath config =
     (case config of
        None \<Rightarrow> Some False
      | Some c \<Rightarrow>
          (case normalizeAdvancedCustomConfig c of
             None \<Rightarrow> None
           | Some normalized \<Rightarrow>
               Some (list_ex (\<lambda>route. case getAdvancedCustomRouteUpstreamPath route of
                                        Some path \<Rightarrow> startsWith path ''/'' | None \<Rightarrow> False)
                 (advanced_routes normalized))))"

section \<open>Summaries\<close>

definition getAdvancedCustomRouteSummaryLabel :: "jsv \<Rightarrow> string option throws" where
  "getAdvancedCustomRouteSummaryLabel route =
     (case opt_trim (field route ''incoming_path'') of
        None \<Rightarrow> None
      | Some incomingPath \<Rightarrow>
          if incomingPath = [] then Some None
          else Some (Some (opt_str_or (map_of ADVANCED_CUSTOM_ROUTE_SUMMARY_LABELS incomingPath)
                 (getAdvancedCustomIncomingPathLabel incomingPath))))"

record AdvancedCustomStats =
  as_routeCount :: nat
  as_valid :: bool
  as_routeTypeLabels :: "string list"

definition getAdvancedCustomStats :: "url_parser \<Rightarrow> string option \<Rightarrow> AdvancedCustomStats throws" where
  "getAdvancedCustomStats url value =
     (case parseAdvancedCustomConfig value of
        None \<Rightarrow> Some \<lparr>as_routeCount = 0, as_valid = False, as_routeTypeLabels = []\<rparr>
      | Some config \<Rightarrow>
          (case normalizeAdvancedCustomConfig config of
             None \<Rightarrow> None
           | Some normalized \<Rightarrow>
               (case (those (map getAdvancedCustomRouteSummaryLabel (advanced_routes normalized)),
                      validateAdvancedCustomConfig url (Some normalized)) of
                  (Some labels, Some result) \<Rightarrow>
                    Some \<lparr>as_routeCount = length (advanced_routes normalized), as_valid = (result = None),
                          as_routeTypeLabels =
                            js_set (filter (\<lambda>label. label \<noteq> []) (List.map_filter (\<lambda>label. label) labels))\<rparr>
                | _ \<Rightarrow> None)))"

definition getAdvancedCustomAuthMode :: "jsv \<Rightarrow> jsv" where
  "getAdvancedCustomAuthMode route =
     or_val (Option.bind (field route ''auth'') (\<lambda>auth. field auth ''type'')) (JStr ''default'')"

definition buildAdvancedCustomAuth :: "string \<Rightarrow> jsv option \<Rightarrow> jsv option" where
  "buildAdvancedCustomAuth mode previousAuth =
     (let name = Option.bind previousAuth (\<lambda>auth. field auth ''name'');
          value = Option.bind previousAuth (\<lambda>auth. field auth ''value'') in
      if mode = ''default'' then None
      else if mode = ''none'' then Some (JObj [(''type'', JStr ''none'')])
      else if mode = ''header'' then
        Some (JObj [(''type'', JStr ''header''), (''name'', or_val name (JStr ''Authorization'')),
                    (''value'', or_val value (JStr ''Bearer {api_key}''))])
      else
        Some (JObj [(''type'', JStr ''query''), (''name'', or_val name (JStr ''api_key'')),
                    (''value'', or_val value (JStr ''{api_key}''))]))"

section \<open>Normal forms\<close>

lemma or_val_idem [simp]: "or_val (Some (or_val v d)) d = or_val v d"
  by (cases v) (simp_all add: or_val_def)

lemma trimmed_or [simp]: "js_trim (or_val (Some (JStr (trim s))) (JStr [])) = Some (trim s)"
  by (simp add: or_val_def js_trim_def)

lemma normalize_auth_idem [simp]: "normalize_auth (normalize_auth a) = normalize_auth a"
  by (cases "field a ''type''") (simp_all add: normalize_auth_def)

lemma field_auth:
  "field (normalize_auth a) ''type'' = field a ''type''"
  "field (normalize_auth a) ''name'' = Some (or_val (field a ''name'') (JStr []))"
  "field (normalize_auth a) ''value'' = Some (or_val (field a ''value'') (JStr []))"
  by (cases "field a ''type''"; simp add: normalize_auth_def)+

lemma upstream_trimmed: "getAdvancedCustomRouteUpstreamPath route = Some u \<Longrightarrow> trim u = u"
  by (auto simp: getAdvancedCustomRouteUpstreamPath_def js_trim_def split: if_splits jsv.splits)

text \<open>The fields of a normalised route.\<close>

lemma normalized_route:
  assumes "normalizeAdvancedCustomRoute route = Some r"
  shows "field r ''incoming_path'' = Some (or_val (field route ''incoming_path'') (JStr []))"
    and "getAdvancedCustomRouteUpstreamPath r = getAdvancedCustomRouteUpstreamPath route"
    and "field r ''converter'' = Some (or_val (field route ''converter'') (JStr ''none''))"
    and "field r ''auth'' = (case field route ''auth'' of
           Some auth \<Rightarrow> if truthy auth then Some (normalize_auth auth) else None | None \<Rightarrow> None)"
proof -
  obtain u where u: "getAdvancedCustomRouteUpstreamPath route = Some u"
    using assms by (cases "getAdvancedCustomRouteUpstreamPath route") (simp_all add: normalizeAdvancedCustomRoute_def)
  have r: "r = JObj ([(''incoming_path'', or_val (field route ''incoming_path'') (JStr [])),
      (''upstream_path'', JStr u), (''converter'', or_val (field route ''converter'') (JStr ''none''))]
    @ (case field route ''auth'' of None \<Rightarrow> [] | Some auth \<Rightarrow> if truthy auth then [(''auth'', normalize_auth auth)] else []))"
    using assms u by (simp add: normalizeAdvancedCustomRoute_def)
  show "field r ''incoming_path'' = Some (or_val (field route ''incoming_path'') (JStr []))"
    and "field r ''converter'' = Some (or_val (field route ''converter'') (JStr ''none''))"
    by (simp_all add: r)
  show "field r ''auth'' = (case field route ''auth'' of
      Some auth \<Rightarrow> if truthy auth then Some (normalize_auth auth) else None | None \<Rightarrow> None)"
    by (simp add: r split: option.splits)
  have "getAdvancedCustomRouteUpstreamPath r = Some (trim u)"
    using upstream_trimmed [OF u] by (simp add: r getAdvancedCustomRouteUpstreamPath_def or_val_def js_trim_def)
  then show "getAdvancedCustomRouteUpstreamPath r = getAdvancedCustomRouteUpstreamPath route"
    using upstream_trimmed [OF u] u by simp
qed

lemma normalize_route_idem:
  assumes "normalizeAdvancedCustomRoute route = Some r"
  shows "normalizeAdvancedCustomRoute r = Some r"
proof -
  note f = normalized_route [OF assms]
  obtain u where u: "getAdvancedCustomRouteUpstreamPath route = Some u"
    using assms by (cases "getAdvancedCustomRouteUpstreamPath route") (simp_all add: normalizeAdvancedCustomRoute_def)
  have auth: "(case field r ''auth'' of None \<Rightarrow> [] | Some auth \<Rightarrow> if truthy auth then [(''auth'', normalize_auth auth)] else [])
      = (case field route ''auth'' of None \<Rightarrow> [] | Some auth \<Rightarrow> if truthy auth then [(''auth'', normalize_auth auth)] else [])"
  proof -
    have "truthy (normalize_auth a)" for a by (simp add: normalize_auth_def)
    then show ?thesis unfolding f(4) by (simp split: option.splits)
  qed
  show ?thesis
    unfolding normalizeAdvancedCustomRoute_def f(2) u option.simps f(1) f(3) or_val_idem auth
    using assms u by (simp add: normalizeAdvancedCustomRoute_def)
qed

lemma those_map_idem: "(\<And>x y. f x = Some y \<Longrightarrow> f y = Some y) \<Longrightarrow> those (map f xs) = Some ys \<Longrightarrow> those (map f ys) = Some ys"
  by (induction xs arbitrary: ys) (auto split: option.splits)

lemma those_members: "those (map f xs) = Some ys \<Longrightarrow> y \<in> set ys \<Longrightarrow> \<exists>x \<in> set xs. f x = Some y"
  by (induction xs arbitrary: ys) (auto split: option.splits)

lemma routes_config_simps [simp]:
  "field (routes_config rs) ''advanced_routes'' = Some (JArr rs)"
  "advanced_routes (routes_config rs) = rs" "routes_config rs \<noteq> JNull"
  by (simp_all add: routes_config_def advanced_routes_def)

lemma normalized_config:
  assumes "normalizeAdvancedCustomConfig config = Some c"
  shows "c = routes_config (advanced_routes c)"
    and "those (map normalizeAdvancedCustomRoute (advanced_routes c)) = Some (advanced_routes c)"
    and "r \<in> set (advanced_routes c) \<Longrightarrow> normalizeAdvancedCustomRoute r = Some r"
proof -
  obtain rs where c: "c = routes_config rs" and t: "those (map normalizeAdvancedCustomRoute rs) = Some rs"
    using assms those_map_idem [OF normalize_route_idem]
    by (auto simp: normalizeAdvancedCustomConfig_def split: if_splits option.splits jsv.splits)
  show "c = routes_config (advanced_routes c)"
    and s: "those (map normalizeAdvancedCustomRoute (advanced_routes c)) = Some (advanced_routes c)"
    using c t by simp_all
  show "r \<in> set (advanced_routes c) \<Longrightarrow> normalizeAdvancedCustomRoute r = Some r"
    using those_members [OF s] normalize_route_idem by metis
qed

lemma normalize_config_idem:
  assumes "normalizeAdvancedCustomConfig config = Some c"
  shows "normalizeAdvancedCustomConfig c = Some c"
proof -
  note n = normalized_config [OF assms]
  have "normalizeAdvancedCustomConfig (routes_config (advanced_routes c)) = Some (routes_config (advanced_routes c))"
    using n(2) by (simp add: normalizeAdvancedCustomConfig_def)
  with n(1) show ?thesis by simp
qed

section \<open>What is accepted\<close>

definition incoming_of :: "jsv \<Rightarrow> string throws" where
  "incoming_of route = opt_trim (field route ''incoming_path'')"

text \<open>A route that is right by itself, and routes that are right together.\<close>

definition route_ok :: "url_parser \<Rightarrow> jsv \<Rightarrow> bool" where
  "route_ok url route =
     (case (incoming_of route, getAdvancedCustomRouteUpstreamPath route) of
        (Some p, Some u) \<Rightarrow> route_error url [] p u route = Some None
      | _ \<Rightarrow> False)"

definition routes_ok :: "url_parser \<Rightarrow> jsv list \<Rightarrow> bool" where
  "routes_ok url routes \<longleftrightarrow> list_all (route_ok url) routes \<and> distinct (map incoming_of routes)"

text \<open>The rules for one route, spelled out.\<close>

lemma route_ok_rules:
  "route_ok url route \<longleftrightarrow>
     (\<exists>p u. incoming_of route = Some p \<and> getAdvancedCustomRouteUpstreamPath route = Some u \<and>
        startsWith p ''/'' \<and> CHR ''?'' \<notin> set p \<and> u \<noteq> [] \<and> isFullHttpURLOrAbsolutePath url u \<and>
        isAdvancedCustomConverter (or_val (field route ''converter'') (JStr ''none'')) \<and>
        isConverterPathAllowed p (or_val (field route ''converter'') (JStr ''none'')) \<and>
        validateRouteAuth (field route ''auth'') = Some None)"
proof -
  have "route_error url [] p u route = Some None \<longleftrightarrow>
      startsWith p ''/'' \<and> CHR ''?'' \<notin> set p \<and> u \<noteq> [] \<and> isFullHttpURLOrAbsolutePath url u \<and>
      isAdvancedCustomConverter (or_val (field route ''converter'') (JStr ''none'')) \<and>
      isConverterPathAllowed p (or_val (field route ''converter'') (JStr ''none'')) \<and>
      validateRouteAuth (field route ''auth'') = Some None" for p u
    by (cases "p = []") (simp_all add: route_error_def Let_def js_includes_single startsWith_def)
  then show ?thesis unfolding route_ok_def by (simp split: option.splits)
qed

lemma route_error_seen:
  "route_error url seen p u route = Some None \<longleftrightarrow> p \<notin> set seen \<and> route_error url [] p u route = Some None"
  by (simp add: route_error_def Let_def)

lemma validate_routes_accepts:
  "validate_routes url i seen rs = Some None \<longleftrightarrow>
     routes_ok url rs \<and> (\<forall>p \<in> set seen. Some p \<notin> set (map incoming_of rs))"
proof (induction rs arbitrary: i seen)
  case (Cons r rs)
  show ?case
  proof (cases "\<exists>p u. incoming_of r = Some p \<and> getAdvancedCustomRouteUpstreamPath r = Some u")
    case True
    then obtain p u where pu: "incoming_of r = Some p" "getAdvancedCustomRouteUpstreamPath r = Some u" by blast
    have "validate_routes url i seen (r # rs) = Some None \<longleftrightarrow>
        route_error url seen p u r = Some None \<and> validate_routes url (i + 1) (set_add seen p) rs = Some None"
      using pu by (simp add: incoming_of_def split: option.splits)
    also have "\<dots> \<longleftrightarrow> routes_ok url (r # rs) \<and> (\<forall>p \<in> set seen. Some p \<notin> set (map incoming_of (r # rs)))"
      unfolding Cons.IH route_error_seen [of url seen] routes_ok_def route_ok_def using pu by auto
    finally show ?thesis .
  next
    case False
    then show ?thesis
      by (auto simp: incoming_of_def routes_ok_def route_ok_def split: option.splits)
  qed
qed (simp add: routes_ok_def)

lemma validate_routes_index:
  "validate_routes url i seen rs = Some (Some e) \<Longrightarrow>
   \<exists>j < length rs. ve_routeIndex e = Some (i + j) \<and> validate_routes url i seen (take j rs) = Some None \<and>
     validate_routes url i seen (take (Suc j) rs) \<noteq> Some None"
proof (induction rs arbitrary: i seen)
  case (Cons r rs)
  obtain p u where pu: "opt_trim (field r ''incoming_path'') = Some p" "getAdvancedCustomRouteUpstreamPath r = Some u"
    using Cons.prems by (auto split: option.splits)
  obtain res where res: "route_error url seen p u r = Some res"
    using Cons.prems pu by (cases "route_error url seen p u r") auto
  show ?case
  proof (cases res)
    case None
    have "validate_routes url (i + 1) (set_add seen p) rs = Some (Some e)" using Cons.prems pu res None by simp
    from Cons.IH [OF this] obtain j where "j < length rs" "ve_routeIndex e = Some (i + 1 + j)"
      "validate_routes url (i + 1) (set_add seen p) (take j rs) = Some None"
      "validate_routes url (i + 1) (set_add seen p) (take (Suc j) rs) \<noteq> Some None" by blast
    then show ?thesis using pu res None by (intro exI [of _ "Suc j"]) simp
  next
    case (Some m)
    then show ?thesis using Cons.prems pu res by (intro exI [of _ 0]) auto
  qed
qed simp

text \<open>Values of the declared types.\<close>

definition text_or_missing :: "jsv option \<Rightarrow> bool" where
  "text_or_missing v = (case v of None \<Rightarrow> True | Some (JStr _) \<Rightarrow> True | _ \<Rightarrow> False)"

definition typed_auth :: "jsv \<Rightarrow> bool" where
  "typed_auth auth =
     ((case auth of JObj _ \<Rightarrow> True | _ \<Rightarrow> False) \<and> text_or_missing (field auth ''type'')
      \<and> text_or_missing (field auth ''name'') \<and> text_or_missing (field auth ''value''))"

definition typed_route :: "jsv \<Rightarrow> bool" where
  "typed_route route =
     ((case route of JObj _ \<Rightarrow> True | _ \<Rightarrow> False) \<and> text_or_missing (field route ''incoming_path'')
      \<and> text_or_missing (field route ''upstream_path'') \<and> text_or_missing (field route ''converter'')
      \<and> (case field route ''auth'' of None \<Rightarrow> True | Some auth \<Rightarrow> typed_auth auth))"

definition typed_config :: "jsv \<Rightarrow> bool" where
  "typed_config config =
     (case config of
        JObj _ \<Rightarrow> (case field config ''advanced_routes'' of
                      None \<Rightarrow> True | Some (JArr routes) \<Rightarrow> list_all typed_route routes | _ \<Rightarrow> False)
      | _ \<Rightarrow> False)"

lemma text_cases: "text_or_missing v \<longleftrightarrow> v = None \<or> (\<exists>s. v = Some (JStr s))"
  by (auto simp: text_or_missing_def split: option.splits jsv.splits)

lemma text_or_val: "text_or_missing v \<Longrightarrow> \<exists>s. or_val v (JStr d) = JStr s"
  by (auto simp: text_cases or_val_def)

lemma trim_text: "text_or_missing v \<Longrightarrow> \<exists>s. opt_trim v = Some s"
  by (auto simp: text_cases opt_trim_def js_trim_def)

lemma typed_upstream:
  assumes "typed_route r"
  shows "\<exists>u. getAdvancedCustomRouteUpstreamPath r = Some u"
proof -
  have "r \<noteq> JNull" and t: "text_or_missing (field r ''upstream_path'')" using assms by (auto simp: typed_route_def)
  moreover obtain s where "or_val (field r ''upstream_path'') (JStr []) = JStr s" using text_or_val [OF t] by blast
  ultimately show ?thesis by (simp add: getAdvancedCustomRouteUpstreamPath_def js_trim_def)
qed

lemma typed_auth_checked: "typed_auth a \<Longrightarrow> validateRouteAuth (Some a) \<noteq> None"
  by (auto simp: validateRouteAuth_def typed_auth_def dest!: trim_text split: option.splits)

lemma typed_routes_checked:
  "list_all typed_route rs \<Longrightarrow> validate_routes url i seen rs \<noteq> None"
proof (induction rs arbitrary: i seen)
  case (Cons r rs)
  obtain u where u: "getAdvancedCustomRouteUpstreamPath r = Some u" using typed_upstream [of r] Cons.prems by auto
  obtain p where p: "opt_trim (field r ''incoming_path'') = Some p"
    using Cons.prems trim_text [of "field r ''incoming_path''"] by (auto simp: typed_route_def)
  have a: "validateRouteAuth (field r ''auth'') \<noteq> None"
    using Cons.prems typed_auth_checked by (cases "field r ''auth''") (auto simp: typed_route_def validateRouteAuth_def)
  then have "route_error url seen p u r \<noteq> None" by (simp add: route_error_def Let_def)
  then show ?case using Cons u p by (auto split: option.splits)
qed simp



section \<open>Round trip\<close>

lemma typed_normalize_auth:
  assumes "typed_auth a"
  shows "typed_auth (normalize_auth a) \<and> json_wf (normalize_auth a)"
proof -
  obtain n v where nv: "or_val (field a ''name'') (JStr []) = JStr n" "or_val (field a ''value'') (JStr []) = JStr v"
    using assms text_or_val [of "field a ''name''" "[]"] text_or_val [of "field a ''value''" "[]"] by (auto simp: typed_auth_def)
  have t: "text_or_missing (field a ''type'')" using assms by (simp add: typed_auth_def)
  have "json_wf (normalize_auth a)"
    using t nv by (cases "field a ''type''") (auto simp: normalize_auth_def text_cases)
  moreover have "typed_auth (normalize_auth a)"
    unfolding typed_auth_def field_auth nv using t by (simp add: normalize_auth_def text_or_missing_def)
  ultimately show ?thesis by simp
qed

lemma normalized_typed_route:
  assumes "typed_route route"
  shows "\<exists>r. normalizeAdvancedCustomRoute route = Some r \<and> typed_route r \<and> json_wf r"
proof -
  obtain u where u: "getAdvancedCustomRouteUpstreamPath route = Some u" using typed_upstream [OF assms] by blast
  obtain p where p: "or_val (field route ''incoming_path'') (JStr []) = JStr p"
    using assms text_or_val [of "field route ''incoming_path''" "[]"] by (auto simp: typed_route_def)
  obtain c where c: "or_val (field route ''converter'') (JStr ''none'') = JStr c"
    using assms text_or_val [of "field route ''converter''" "''none''"] by (auto simp: typed_route_def)
  note auth = typed_normalize_auth
  let ?auth = "case field route ''auth'' of None \<Rightarrow> [] | Some auth \<Rightarrow> if truthy auth then [(''auth'', normalize_auth auth)] else []"
  have n: "normalizeAdvancedCustomRoute route =
      Some (JObj ([(''incoming_path'', JStr p), (''upstream_path'', JStr u), (''converter'', JStr c)] @ ?auth))"
    by (simp add: normalizeAdvancedCustomRoute_def u p c)
  have "typed_route (JObj ([(''incoming_path'', JStr p), (''upstream_path'', JStr u), (''converter'', JStr c)] @ ?auth))"
    and "json_wf (JObj ([(''incoming_path'', JStr p), (''upstream_path'', JStr u), (''converter'', JStr c)] @ ?auth))"
    using assms auth by (auto simp: typed_route_def text_or_missing_def split: option.splits)
  with n show ?thesis by blast
qed

lemma those_map_all: "(\<And>x. x \<in> set xs \<Longrightarrow> \<exists>y. f x = Some y \<and> P y) \<Longrightarrow> \<exists>ys. those (map f xs) = Some ys \<and> list_all P ys"
  by (induction xs) force+

lemma normalized_typed_config:
  assumes "typed_config c"
  shows "\<exists>n. normalizeAdvancedCustomConfig c = Some n \<and> list_all typed_route (advanced_routes n) \<and> json_wf n"
proof -
  obtain kvs where c: "c = JObj kvs" using assms by (cases c) (auto simp: typed_config_def)
  show ?thesis
  proof (cases "field c ''advanced_routes''")
    case None
    then show ?thesis using c by (simp add: normalizeAdvancedCustomConfig_def routes_config_def advanced_routes_def)
  next
    case (Some v)
    then obtain rs where v: "v = JArr rs" "list_all typed_route rs"
      using assms c by (cases v) (auto simp: typed_config_def)
    obtain ns where "those (map normalizeAdvancedCustomRoute rs) = Some ns" "list_all (\<lambda>r. typed_route r \<and> json_wf r) ns"
      using those_map_all [where P = "\<lambda>r. typed_route r \<and> json_wf r", of rs normalizeAdvancedCustomRoute]
        normalized_typed_route v(2) by (auto simp: list_all_iff)
    then show ?thesis using Some c v(1)
      by (auto simp: normalizeAdvancedCustomConfig_def routes_config_def advanced_routes_def list_all_iff)
  qed
qed

lemma parse_printed:
  assumes "normalizeAdvancedCustomConfig n = Some n" and "json_wf n"
  shows "parseAdvancedCustomConfig (Some (stringify2 n)) = Some n"
proof -
  have n: "n = routes_config (advanced_routes n)" by (rule normalized_config(1) [OF assms(1)])
  then obtain kvs where kvs: "n = JObj kvs" by (simp add: routes_config_def)
  then have "CHR ''{'' \<in> set (stringify2 n)" by (simp add: stringify2_def)
  then have "trim (stringify2 n) \<noteq> []" by (rule trim_nonblank) (simp add: is_ws_def)
  then show ?thesis
    using parse_stringify2 [OF assms(2)] assms(1) kvs by (simp add: parseAdvancedCustomConfig_def)
qed

text \<open>C27: the text of the editor is faithful. A configuration of the declared types is printed, and parsing
  the text gives its normal form, which is printed as the same text.\<close>

theorem config_text_roundtrip:
  assumes "typed_config c"
  shows "\<exists>n text. normalizeAdvancedCustomConfig c = Some n \<and> stringifyAdvancedCustomConfig c = Some text \<and>
    parseAdvancedCustomConfig (Some text) = Some n \<and> stringifyAdvancedCustomConfig n = Some text"
proof -
  obtain n where n: "normalizeAdvancedCustomConfig c = Some n" "json_wf n" using normalized_typed_config [OF assms] by blast
  have i: "normalizeAdvancedCustomConfig n = Some n" by (rule normalize_config_idem [OF n(1)])
  show ?thesis
    using n i parse_printed [OF i n(2)] by (simp add: stringifyAdvancedCustomConfig_def)
qed

theorem config_text_roundtrip_witness:
  "\<exists>n text. normalizeAdvancedCustomConfig createAdvancedCustomConfig = Some n \<and>
     stringifyAdvancedCustomConfig createAdvancedCustomConfig = Some text \<and>
     parseAdvancedCustomConfig (Some text) = Some n \<and> stringifyAdvancedCustomConfig n = Some text"
proof -
  have "typed_config createAdvancedCustomConfig" by code_simp
  then show ?thesis by (rule config_text_roundtrip)
qed

text \<open>A configuration text with a number as incoming path is accepted by the parser, and the validation
  throws on it.\<close>

lemma numeric_path_throws:
  "\<exists>c. parseAdvancedCustomConfig (Some (stringify (routes_config [JObj [(''incoming_path'', JNum 5)]]))) = Some c \<and>
     validateAdvancedCustomConfig url (Some c) = None"
proof -
  let ?c = "routes_config [JObj [(''incoming_path'', JNum 5)]]"
  let ?n = "routes_config [JObj [(''incoming_path'', JNum 5), (''upstream_path'', JStr []), (''converter'', JStr ''none'')]]"
  have "json_wf ?c" by (simp add: routes_config_def)
  from parse_stringify [OF this] have p: "JSON_parse (stringify ?c) = Some ?c" .
  have "CHR ''{'' \<in> set (stringify ?c)" by (simp add: routes_config_def)
  then have t: "trim (stringify ?c) \<noteq> []" by (rule trim_nonblank) (simp add: is_ws_def)
  have n: "normalizeAdvancedCustomConfig ?c = Some ?n"
    by (simp add: normalizeAdvancedCustomConfig_def normalizeAdvancedCustomRoute_def
        getAdvancedCustomRouteUpstreamPath_def or_val_def js_trim_def routes_config_def)
  have "parseAdvancedCustomConfig (Some (stringify ?c)) = Some ?n"
    using p t n by (simp add: parseAdvancedCustomConfig_def routes_config_def del: stringify.simps)
  moreover have "validateAdvancedCustomConfig url (Some ?n) = None"
    unfolding validateAdvancedCustomConfig_def option.simps normalize_config_idem [OF n]
    by (simp add: opt_trim_def js_trim_def)
  ultimately show ?thesis by blast
qed

section \<open>Templates\<close>

lemma template_table:
  "list_all (\<lambda>t. json_wf (tp_config t) \<and> normalizeAdvancedCustomConfig (tp_config t) = Some (tp_config t))
     ADVANCED_CUSTOM_TEMPLATE_OPTIONS"
  by code_simp

lemma template_valid:
  "list_all (\<lambda>t. validateAdvancedCustomConfig url (Some (tp_config t)) = Some None) ADVANCED_CUSTOM_TEMPLATE_OPTIONS"
  by code_simp

lemma created_valid: "validateAdvancedCustomConfig url (Some createAdvancedCustomConfig) = Some None"
  by code_simp

lemma template_found:
  "\<exists>t \<in> set ADVANCED_CUSTOM_TEMPLATE_OPTIONS. getAdvancedCustomTemplateConfig key = Some (tp_config t)"
proof -
  obtain t where t: "t \<in> set ADVANCED_CUSTOM_TEMPLATE_OPTIONS"
    and g: "getAdvancedCustomTemplateConfig key = JSON_parse (stringify (tp_config t))"
  proof (cases "find (\<lambda>option. tp_value option = key) ADVANCED_CUSTOM_TEMPLATE_OPTIONS")
    case None
    then show ?thesis using that [of "hd ADVANCED_CUSTOM_TEMPLATE_OPTIONS"]
      by (simp add: getAdvancedCustomTemplateConfig_def cloneAdvancedCustomConfig_def ADVANCED_CUSTOM_TEMPLATE_OPTIONS_def)
  next
    case (Some t)
    then have "t \<in> set ADVANCED_CUSTOM_TEMPLATE_OPTIONS" by (auto simp: find_Some_iff)
    with Some show ?thesis using that
      by (simp add: getAdvancedCustomTemplateConfig_def cloneAdvancedCustomConfig_def)
  qed
  have "JSON_parse (stringify (tp_config t)) = Some (tp_config t)"
    using template_table t by (auto simp: list_all_iff intro: parse_stringify)
  with g t show ?thesis by auto
qed

text \<open>Every official template is a valid configuration, and the configuration that a new channel starts
  with is: whatever the template key, what the editor fills in passes the validation unchanged.\<close>

theorem templates_valid:
  "(\<exists>c. getAdvancedCustomTemplateConfig key = Some c \<and> normalizeAdvancedCustomConfig c = Some c \<and>
      validateAdvancedCustomConfig url (Some c) = Some None) \<and>
   validateAdvancedCustomConfig url (Some createAdvancedCustomConfig) = Some None"
  using template_found [of key] template_table template_valid [of url] created_valid [of url]
  by (fastforce simp: list_all_iff)

end
