(* ===== verification/AdvancedEditor.thy ===== *)
theory AdvancedEditor
  imports AdvancedCustom
begin

text \<open>
  The dialog that edits the routes of a channel
  (\<open>features/channels/components/dialogs/advanced-custom-editor-dialog.tsx\<close>): its state, its handlers
  and the handlers of one route. A handler that throws leaves the state as it was. The translation
  function and the calls of \<open>toast\<close> are not part of the state; the texts passed to \<open>onSave\<close> are
  collected.
\<close>

section \<open>State\<close>

datatype AdvancedCustomEditMode = VisualMode | JsonMode

record Editor =
  ed_config :: jsv
  ed_routeKeys :: "string list"
  ed_editMode :: AdvancedCustomEditMode
  ed_jsonText :: string
  ed_jsonError :: string
  ed_templateKey :: string
  ed_keyCounter :: nat
  ed_saved :: "string list"
  ed_open :: bool

definition route_key :: "nat \<Rightarrow> string" where
  "route_key n = ''advanced-custom-route-'' @ show_nat n"

definition initial_route_key :: "nat \<Rightarrow> string" where
  "initial_route_key routeIndex = ''advanced-custom-route-initial-'' @ show_nat routeIndex"

text \<open>The keys that \<open>createRouteKeys\<close> returns when the counter is \<open>n\<close>.\<close>

definition createRouteKeys :: "nat \<Rightarrow> nat \<Rightarrow> string list" where
  "createRouteKeys n k = map (\<lambda>i. route_key (n + i + 1)) [0..<k]"

definition first_template_key :: string where
  "first_template_key =
     (case ADVANCED_CUSTOM_TEMPLATE_OPTIONS of [] \<Rightarrow> [] | option # _ \<Rightarrow> str_or (tp_value option) [])"

definition openEditor :: "string \<Rightarrow> Editor throws" where
  "openEditor value =
     (let initialConfig = nullish (parseAdvancedCustomConfig (Some value)) createAdvancedCustomConfig in
      case (normalizeAdvancedCustomConfig initialConfig, stringifyAdvancedCustomConfig initialConfig) of
        (Some normalized, Some text) \<Rightarrow>
          Some \<lparr>ed_config = initialConfig,
                ed_routeKeys = map initial_route_key [0..<length (advanced_routes normalized)],
                ed_editMode = VisualMode, ed_jsonText = text, ed_jsonError = [],
                ed_templateKey = first_template_key, ed_keyCounter = 0, ed_saved = [], ed_open = True\<rparr>
      | _ \<Rightarrow> None)"

text \<open>What a render computes: the normalised configuration and its validation. \<open>None\<close> when it throws,
  which unmounts the dialog.\<close>

definition rendered :: "url_parser \<Rightarrow> Editor \<Rightarrow> (jsv \<times> AdvancedCustomValidationError option) throws" where
  "rendered url ed =
     (case normalizeAdvancedCustomConfig (ed_config ed) of
        None \<Rightarrow> None
      | Some normalizedConfig \<Rightarrow>
          (case validateAdvancedCustomConfig url (Some normalizedConfig) of
             None \<Rightarrow> None
           | Some validationError \<Rightarrow> Some (normalizedConfig, validationError)))"

section \<open>Handlers of the dialog\<close>

text \<open>\<open>{ ...route, ...patch }\<close>; a property patched to \<open>undefined\<close> is gone.\<close>

type_synonym route_patch = "(string \<times> jsv option) list"

definition spread :: "jsv \<Rightarrow> route_patch \<Rightarrow> jsv" where
  "spread route patch =
     JObj (foldl (\<lambda>kvs (key, value). case value of
             Some v \<Rightarrow> map_set key v kvs
           | None \<Rightarrow> filter (\<lambda>kv. fst kv \<noteq> key) kvs)
        (case route of JObj kvs \<Rightarrow> kvs | _ \<Rightarrow> []) patch)"

definition updateRoute :: "nat \<Rightarrow> route_patch \<Rightarrow> Editor \<Rightarrow> Editor throws" where
  "updateRoute index patch ed =
     map_option (\<lambda>nxt.
        (let nextRoutes = advanced_routes nxt in
         ed\<lparr>ed_config := routes_config (nextRoutes[index := spread (nextRoutes ! index) patch])\<rparr>))
       (normalizeAdvancedCustomConfig (ed_config ed))"

definition addRoute :: "Editor \<Rightarrow> Editor throws" where
  "addRoute ed =
     map_option (\<lambda>nxt.
        ed\<lparr>ed_config := routes_config (advanced_routes nxt @ [createAdvancedCustomRoute]),
           ed_routeKeys := ed_routeKeys ed @ [route_key (ed_keyCounter ed + 1)],
           ed_keyCounter := ed_keyCounter ed + 1\<rparr>)
       (normalizeAdvancedCustomConfig (ed_config ed))"

text \<open>\<open>filter((_, routeIndex) => routeIndex !== index)\<close>.\<close>

definition without_index :: "nat \<Rightarrow> 'a list \<Rightarrow> 'a list" where
  "without_index index xs = take index xs @ drop (Suc index) xs"

definition removeRoute :: "nat \<Rightarrow> Editor \<Rightarrow> Editor throws" where
  "removeRoute index ed =
     map_option (\<lambda>nxt.
        ed\<lparr>ed_config := routes_config (without_index index (advanced_routes nxt)),
           ed_routeKeys := without_index index (ed_routeKeys ed)\<rparr>)
       (normalizeAdvancedCustomConfig (ed_config ed))"

text \<open>The parsed configuration, if it is accepted, and the state with the error message.\<close>

definition parseJsonEditorConfig :: "url_parser \<Rightarrow> Editor \<Rightarrow> (jsv option \<times> Editor) throws" where
  "parseJsonEditorConfig url ed =
     (case parseAdvancedCustomConfig (Some (ed_jsonText ed)) of
        None \<Rightarrow> Some (None, ed\<lparr>ed_jsonError := ''Invalid JSON''\<rparr>)
      | Some parsed \<Rightarrow>
          (case validateAdvancedCustomConfig url (Some parsed) of
             None \<Rightarrow> None
           | Some (Some error) \<Rightarrow> Some (None, ed\<lparr>ed_jsonError := ve_message error\<rparr>)
           | Some None \<Rightarrow> Some (Some parsed, ed\<lparr>ed_jsonError := []\<rparr>)))"

text \<open>\<open>setConfig\<close> and \<open>setRouteKeys\<close> with a whole new configuration.\<close>

definition replace_config :: "jsv \<Rightarrow> Editor \<Rightarrow> Editor" where
  "replace_config normalized ed =
     ed\<lparr>ed_config := normalized,
        ed_routeKeys := createRouteKeys (ed_keyCounter ed) (length (advanced_routes normalized)),
        ed_keyCounter := ed_keyCounter ed + length (advanced_routes normalized)\<rparr>"

definition switchToVisualMode :: "url_parser \<Rightarrow> Editor \<Rightarrow> Editor throws" where
  "switchToVisualMode url ed =
     (case parseJsonEditorConfig url ed of
        None \<Rightarrow> None
      | Some (None, ed') \<Rightarrow> Some ed'
      | Some (Some parsed, ed') \<Rightarrow>
          map_option (\<lambda>normalized. (replace_config normalized ed')\<lparr>ed_editMode := VisualMode\<rparr>)
            (normalizeAdvancedCustomConfig parsed))"

definition switchToJsonMode :: "Editor \<Rightarrow> Editor throws" where
  "switchToJsonMode ed =
     (case Option.bind (normalizeAdvancedCustomConfig (ed_config ed)) stringifyAdvancedCustomConfig of
        None \<Rightarrow> None
      | Some text \<Rightarrow> Some (ed\<lparr>ed_jsonText := text, ed_jsonError := [], ed_editMode := JsonMode\<rparr>))"

definition handleJsonChange :: "string \<Rightarrow> Editor \<Rightarrow> Editor throws" where
  "handleJsonChange nextValue ed =
     Some (ed\<lparr>ed_jsonText := nextValue, ed_jsonError := (if ed_jsonError ed \<noteq> [] then [] else ed_jsonError ed)\<rparr>)"

definition formatJson :: "url_parser \<Rightarrow> Editor \<Rightarrow> Editor throws" where
  "formatJson url ed =
     (case parseJsonEditorConfig url ed of
        None \<Rightarrow> None
      | Some (None, ed') \<Rightarrow> Some ed'
      | Some (Some parsed, ed') \<Rightarrow>
          map_option (\<lambda>text. ed'\<lparr>ed_jsonText := text\<rparr>) (stringifyAdvancedCustomConfig parsed))"

datatype template_mode = FillTemplate | AppendTemplate

definition install_config :: "jsv \<Rightarrow> Editor \<Rightarrow> Editor throws" where
  "install_config nextConfig ed =
     (case (normalizeAdvancedCustomConfig nextConfig,
            Option.bind (normalizeAdvancedCustomConfig nextConfig) stringifyAdvancedCustomConfig) of
        (Some normalized, Some text) \<Rightarrow>
          Some ((replace_config normalized ed)\<lparr>ed_jsonText := text, ed_jsonError := []\<rparr>)
      | _ \<Rightarrow> None)"

definition applyTemplate :: "url_parser \<Rightarrow> template_mode \<Rightarrow> Editor \<Rightarrow> Editor throws" where
  "applyTemplate url mode ed =
     (case getAdvancedCustomTemplateConfig (ed_templateKey ed) of
        None \<Rightarrow> None
      | Some templateConfig \<Rightarrow>
          if mode = FillTemplate then install_config templateConfig ed
          else
            (case (if ed_editMode ed = JsonMode then parseJsonEditorConfig url ed
                   else map_option (\<lambda>normalizedConfig. (Some normalizedConfig, ed))
                     (normalizeAdvancedCustomConfig (ed_config ed))) of
               None \<Rightarrow> None
             | Some (None, ed') \<Rightarrow> Some ed'
             | Some (Some baseConfig, ed') \<Rightarrow>
                 (case (normalizeAdvancedCustomConfig baseConfig, normalizeAdvancedCustomConfig templateConfig) of
                    (Some base, Some template) \<Rightarrow>
                      install_config (routes_config (advanced_routes base @ advanced_routes template)) ed'
                  | _ \<Rightarrow> None)))"

definition saveConfig :: "url_parser \<Rightarrow> Editor \<Rightarrow> Editor throws" where
  "saveConfig url ed =
     (if ed_editMode ed = JsonMode then
        (case parseJsonEditorConfig url ed of
           None \<Rightarrow> None
         | Some (None, ed') \<Rightarrow> Some ed'
         | Some (Some parsed, ed') \<Rightarrow>
             map_option (\<lambda>text. ed'\<lparr>ed_saved := ed_saved ed' @ [text], ed_open := False\<rparr>)
               (stringifyAdvancedCustomConfig parsed))
      else
        (case rendered url ed of
           None \<Rightarrow> None
         | Some (normalizedConfig, Some validationError) \<Rightarrow> Some ed
         | Some (normalizedConfig, None) \<Rightarrow>
             map_option (\<lambda>text. ed\<lparr>ed_saved := ed_saved ed @ [text], ed_open := False\<rparr>)
               (stringifyAdvancedCustomConfig normalizedConfig)))"

section \<open>Handlers of a route\<close>

definition route_converter :: "jsv \<Rightarrow> jsv" where
  "route_converter route = or_val (field route ''converter'') (JStr ''none'')"

text \<open>The incoming path the row shows; a render only gets this far when it is a text.\<close>

definition route_incoming :: "jsv \<Rightarrow> string throws" where
  "route_incoming route =
     (case or_val (field route ''incoming_path'')
             (JStr (getDefaultAdvancedCustomIncomingPath (route_converter route))) of
        JStr path \<Rightarrow> Some path
      | _ \<Rightarrow> None)"

definition setConverter :: "string \<Rightarrow> jsv \<Rightarrow> route_patch throws" where
  "setConverter nextConverter route =
     map_option (\<lambda>incomingPath.
        [(''converter'', Some (JStr nextConverter))]
        @ (if \<not> isAdvancedCustomIncomingPathAllowed incomingPath (JStr nextConverter)
           then [(''incoming_path'', Some (JStr (getDefaultAdvancedCustomIncomingPath (JStr nextConverter))))]
           else []))
       (route_incoming route)"

definition setIncomingPath :: "string option \<Rightarrow> jsv \<Rightarrow> route_patch throws" where
  "setIncomingPath nextIncomingPath route =
     (let converter = route_converter route;
          resolvedIncomingPath = opt_str_or nextIncomingPath (getDefaultAdvancedCustomIncomingPath converter) in
      Some ([(''incoming_path'', Some (JStr resolvedIncomingPath))]
        @ (if \<not> isAdvancedCustomIncomingPathAllowed resolvedIncomingPath converter
           then [(''converter'', Some (JStr ''none''))] else [])))"

definition setUpstreamPath :: "string \<Rightarrow> jsv \<Rightarrow> route_patch throws" where
  "setUpstreamPath value route = Some [(''upstream_path'', Some (JStr value))]"

definition setAuthMode :: "string \<Rightarrow> jsv \<Rightarrow> route_patch throws" where
  "setAuthMode mode route = Some [(''auth'', buildAdvancedCustomAuth mode (field route ''auth''))]"

definition updateAuth :: "string \<Rightarrow> string \<Rightarrow> jsv \<Rightarrow> route_patch throws" where
  "updateAuth auth_field value route =
     (case field route ''auth'' of
        None \<Rightarrow> Some []
      | Some currentAuth \<Rightarrow>
          if \<not> truthy currentAuth \<or> field currentAuth ''type'' = Some (JStr ''none'') then Some []
          else Some [(''auth'', Some (JObj (map_set auth_field (JStr value)
                 ((case field currentAuth ''type'' of None \<Rightarrow> [] | Some type \<Rightarrow> [(''type'', type)])
                  @ [(''name'', or_val (field currentAuth ''name'') (JStr [])),
                     (''value'', or_val (field currentAuth ''value'') (JStr []))]))))])"

section \<open>Events\<close>

text \<open>What a user can do: edit a field of a shown row, and press the buttons of the dialog.\<close>

datatype route_edit =
    ConverterEdit string
  | IncomingEdit "string option"
  | UpstreamEdit string
  | AuthModeEdit string
  | AuthNameEdit string
  | AuthValueEdit string

definition edit_patch :: "route_edit \<Rightarrow> jsv \<Rightarrow> route_patch throws" where
  "edit_patch edit =
     (case edit of
        ConverterEdit c \<Rightarrow> setConverter c
      | IncomingEdit p \<Rightarrow> setIncomingPath p
      | UpstreamEdit v \<Rightarrow> setUpstreamPath v
      | AuthModeEdit m \<Rightarrow> setAuthMode m
      | AuthNameEdit v \<Rightarrow> updateAuth ''name'' v
      | AuthValueEdit v \<Rightarrow> updateAuth ''value'' v)"

datatype editor_event =
    EditRoute nat route_edit
  | AddRoute
  | RemoveRoute nat
  | PressVisual
  | PressJson
  | TypeJson string
  | FormatJson
  | SelectTemplate "string option"
  | ApplyTemplate template_mode
  | Save

text \<open>The rows of the visual editor.\<close>

definition shown_routes :: "Editor \<Rightarrow> jsv list" where
  "shown_routes ed =
     (case normalizeAdvancedCustomConfig (ed_config ed) of None \<Rightarrow> [] | Some config \<Rightarrow> advanced_routes config)"

definition edit_route :: "nat \<Rightarrow> route_edit \<Rightarrow> Editor \<Rightarrow> Editor throws" where
  "edit_route index edit ed =
     (case edit_patch edit (shown_routes ed ! index) of
        None \<Rightarrow> None
      | Some patch \<Rightarrow> if patch = [] then Some ed else updateRoute index patch ed)"

definition handle_event :: "url_parser \<Rightarrow> editor_event \<Rightarrow> Editor \<Rightarrow> Editor throws" where
  "handle_event url event ed =
     (case event of
        EditRoute index edit \<Rightarrow>
          if ed_editMode ed = VisualMode \<and> index < length (shown_routes ed) then edit_route index edit ed else Some ed
      | AddRoute \<Rightarrow> if ed_editMode ed = VisualMode then addRoute ed else Some ed
      | RemoveRoute index \<Rightarrow>
          if ed_editMode ed = VisualMode \<and> index < length (shown_routes ed) then removeRoute index ed else Some ed
      | PressVisual \<Rightarrow> switchToVisualMode url ed
      | PressJson \<Rightarrow> switchToJsonMode ed
      | TypeJson text \<Rightarrow> if ed_editMode ed = JsonMode then handleJsonChange text ed else Some ed
      | FormatJson \<Rightarrow> if ed_editMode ed = JsonMode then formatJson url ed else Some ed
      | SelectTemplate key \<Rightarrow> Some (ed\<lparr>ed_templateKey := opt_str_or key first_template_key\<rparr>)
      | ApplyTemplate mode \<Rightarrow> applyTemplate url mode ed
      | Save \<Rightarrow> saveConfig url ed)"

text \<open>The states of a dialog that was opened on a text and rendered.\<close>

inductive editor_reachable :: "url_parser \<Rightarrow> string \<Rightarrow> Editor \<Rightarrow> bool" for url :: url_parser and start :: string where
  opened: "openEditor start = Some ed \<Longrightarrow> editor_reachable url start ed"
| handled: "editor_reachable url start ed \<Longrightarrow> handle_event url event ed = Some ed' \<Longrightarrow> editor_reachable url start ed'"

section \<open>Saved texts\<close>

lemmas handler_defs = handle_event_def edit_route_def updateRoute_def addRoute_def removeRoute_def
  switchToVisualMode_def switchToJsonMode_def handleJsonChange_def formatJson_def applyTemplate_def
  install_config_def replace_config_def saveConfig_def

lemma stringify_normalized:
  "normalizeAdvancedCustomConfig c = Some n \<Longrightarrow> stringifyAdvancedCustomConfig n = Some (stringify2 n)"
  by (drule normalize_config_idem) (simp add: stringifyAdvancedCustomConfig_def)

lemma parsed_normal: "parseAdvancedCustomConfig v = Some c \<Longrightarrow> normalizeAdvancedCustomConfig c = Some c"
  by (auto simp: parseAdvancedCustomConfig_def split: option.splits if_splits dest: normalize_config_idem)

text \<open>The only handler that calls \<open>onSave\<close>.\<close>

lemma parse_editor_saved: "parseJsonEditorConfig url ed = Some (res, ed') \<Longrightarrow> ed_saved ed' = ed_saved ed"
  by (auto simp: parseJsonEditorConfig_def split: option.splits)

lemma parse_editor_accepts:
  "parseJsonEditorConfig url ed = Some (Some c, ed') \<Longrightarrow>
   normalizeAdvancedCustomConfig c = Some c \<and> validateAdvancedCustomConfig url (Some c) = Some None"
  by (auto simp: parseJsonEditorConfig_def split: option.splits dest: parsed_normal)

lemma install_saved: "install_config c ed = Some ed' \<Longrightarrow> ed_saved ed' = ed_saved ed"
  by (auto simp: install_config_def replace_config_def split: option.splits)

lemma template_saved: "applyTemplate url mode ed = Some ed' \<Longrightarrow> ed_saved ed' = ed_saved ed"
  by (auto simp: applyTemplate_def split: option.splits prod.splits if_splits
      dest!: install_saved parse_editor_saved)

lemma visual_saved: "switchToVisualMode url ed = Some ed' \<Longrightarrow> ed_saved ed' = ed_saved ed"
  by (auto simp: switchToVisualMode_def replace_config_def split: option.splits prod.splits dest!: parse_editor_saved)

lemma format_saved: "formatJson url ed = Some ed' \<Longrightarrow> ed_saved ed' = ed_saved ed"
  by (auto simp: formatJson_def split: option.splits prod.splits dest!: parse_editor_saved)

lemma other_saved:
  "handle_event url event ed = Some ed' \<Longrightarrow> event \<noteq> Save \<Longrightarrow> ed_saved ed' = ed_saved ed"
  by (cases event)
     (auto simp: handle_event_def edit_route_def updateRoute_def addRoute_def removeRoute_def
        switchToJsonMode_def handleJsonChange_def Let_def split: if_splits option.splits
        dest!: template_saved visual_saved format_saved)

definition valid_text :: "url_parser \<Rightarrow> string \<Rightarrow> bool" where
  "valid_text url text \<longleftrightarrow>
     (\<exists>c. normalizeAdvancedCustomConfig c = Some c \<and> text = stringify2 c \<and>
        validateAdvancedCustomConfig url (Some c) = Some None)"

lemma saved_valid:
  assumes "saveConfig url ed = Some ed'"
  shows "\<exists>new. ed_saved ed' = ed_saved ed @ new \<and> list_all (valid_text url) new"
proof (cases "ed_editMode ed = JsonMode")
  case True
  obtain res ed1 where p: "parseJsonEditorConfig url ed = Some (res, ed1)"
    using assms True by (auto simp: saveConfig_def split: option.splits)
  show ?thesis
  proof (cases res)
    case (Some c)
    note ok = parse_editor_accepts [OF p [unfolded Some]]
    with stringify_normalized [of c c] have "stringifyAdvancedCustomConfig c = Some (stringify2 c)" by simp
    then have "ed_saved ed' = ed_saved ed @ [stringify2 c]"
      using assms True p Some parse_editor_saved [OF p] by (auto simp: saveConfig_def)
    with ok show ?thesis by (auto simp: valid_text_def)
  qed (use assms True p parse_editor_saved [OF p] in \<open>auto simp: saveConfig_def\<close>)
next
  case False
  obtain n err where r: "rendered url ed = Some (n, err)"
    using assms False by (auto simp: saveConfig_def split: option.splits)
  then have n: "normalizeAdvancedCustomConfig (ed_config ed) = Some n"
    and v: "validateAdvancedCustomConfig url (Some n) = Some err"
    by (auto simp: rendered_def split: option.splits)
  show ?thesis
  proof (cases err)
    case None
    then have "ed_saved ed' = ed_saved ed @ [stringify2 n]"
      using assms False r stringify_normalized [OF n] by (auto simp: saveConfig_def)
    with None v normalize_config_idem [OF n] show ?thesis by (auto simp: valid_text_def)
  qed (use assms False r in \<open>auto simp: saveConfig_def\<close>)
qed

text \<open>C22: whatever is done in the dialog, in either mode and with any template, every text it hands to
  \<open>onSave\<close> is the printed normal form of a configuration that passes the validation; and a text of the
  declared types is read back as that configuration.\<close>

theorem editor_saves_valid_configs:
  assumes "editor_reachable url start ed" and "text \<in> set (ed_saved ed)"
  shows "\<exists>c. normalizeAdvancedCustomConfig c = Some c \<and> text = stringify2 c \<and>
    validateAdvancedCustomConfig url (Some c) = Some None \<and>
    (typed_config c \<longrightarrow> parseAdvancedCustomConfig (Some text) = Some c)"
proof -
  have "list_all (valid_text url) (ed_saved ed)"
    using assms(1)
  proof (induction rule: editor_reachable.induct)
    case (opened ed)
    then show ?case by (auto simp: openEditor_def Let_def split: option.splits)
  next
    case (handled ed event ed')
    show ?case
    proof (cases "event = Save")
      case True
      then have "saveConfig url ed = Some ed'" using handled.hyps by (simp add: handle_event_def)
      from saved_valid [OF this] handled.IH show ?thesis by (auto simp: list_all_iff)
    next
      case False
      from other_saved [OF handled.hyps(2) False] handled.IH show ?thesis by simp
    qed
  qed
  with assms(2) obtain c where c: "normalizeAdvancedCustomConfig c = Some c" "text = stringify2 c"
    "validateAdvancedCustomConfig url (Some c) = Some None"
    by (auto simp: list_all_iff valid_text_def)
  moreover have "parseAdvancedCustomConfig (Some text) = Some c" if "typed_config c"
    using normalized_typed_config [OF that] c parse_printed [OF c(1)] by auto
  ultimately show ?thesis by blast
qed

section \<open>Row keys\<close>

lemma route_key_inj: "route_key a = route_key b \<longleftrightarrow> a = b"
  by (simp add: route_key_def show_nat_inj)

lemma initial_key_inj: "initial_route_key a = initial_route_key b \<longleftrightarrow> a = b"
  by (simp add: initial_route_key_def show_nat_inj)

lemma keys_differ: "initial_route_key a \<noteq> route_key b"
proof
  assume "initial_route_key a = route_key b"
  then have e: "CHR ''i'' # ''nitial-'' @ show_nat a = show_nat b"
    by (simp add: initial_route_key_def route_key_def)
  have "CHR ''i'' \<in> set (show_nat b)" unfolding e [symmetric] by simp
  then have "is_digit CHR ''i''" by (rule show_nat_chars)
  then show False by (simp add: is_digit_def)
qed

definition key_pool :: "nat \<Rightarrow> string set" where
  "key_pool n = range initial_route_key \<union> route_key ` {..n}"

definition keys_inv :: "Editor \<Rightarrow> bool" where
  "keys_inv ed \<longleftrightarrow>
     (\<exists>n. normalizeAdvancedCustomConfig (ed_config ed) = Some n \<and>
        length (ed_routeKeys ed) = length (advanced_routes n)) \<and>
     distinct (ed_routeKeys ed) \<and> set (ed_routeKeys ed) \<subseteq> key_pool (ed_keyCounter ed)"

lemma pool_fresh: "n < m \<Longrightarrow> route_key m \<notin> key_pool n"
  using keys_differ by (auto simp: key_pool_def route_key_inj image_iff) metis

lemma pool_mono: "n \<le> m \<Longrightarrow> key_pool n \<subseteq> key_pool m"
  by (auto simp: key_pool_def)

lemma created_keys:
  "distinct (createRouteKeys n k)" "set (createRouteKeys n k) \<subseteq> key_pool (n + k)" "length (createRouteKeys n k) = k"
  by (auto simp: createRouteKeys_def key_pool_def distinct_map inj_on_def route_key_inj)

lemma keys_inv_updates [simp]:
  "keys_inv (ed\<lparr>ed_jsonText := t\<rparr>) = keys_inv ed" "keys_inv (ed\<lparr>ed_jsonError := t\<rparr>) = keys_inv ed"
  "keys_inv (ed\<lparr>ed_editMode := m\<rparr>) = keys_inv ed" "keys_inv (ed\<lparr>ed_templateKey := t\<rparr>) = keys_inv ed"
  "keys_inv (ed\<lparr>ed_saved := ts\<rparr>) = keys_inv ed" "keys_inv (ed\<lparr>ed_open := b\<rparr>) = keys_inv ed"
  by (simp_all add: keys_inv_def)

lemma replaced_keys:
  assumes "normalizeAdvancedCustomConfig c = Some n"
  shows "keys_inv (replace_config n ed)"
  using normalize_config_idem [OF assms] created_keys by (simp add: keys_inv_def replace_config_def)

lemma those_iff: "those xs = Some ys \<longleftrightarrow> xs = map Some ys"
proof (induction xs arbitrary: ys)
  case (Cons x xs)
  then show ?case by (cases x; cases ys) auto
qed auto

lemma normalize_routes_config:
  "map normalizeAdvancedCustomRoute xs = map Some ys \<Longrightarrow>
   normalizeAdvancedCustomConfig (routes_config xs) = Some (routes_config ys)"
  by (simp add: normalizeAdvancedCustomConfig_def those_iff)

lemma normal_routes:
  "normalizeAdvancedCustomConfig c = Some n \<Longrightarrow>
   map normalizeAdvancedCustomRoute (advanced_routes n) = map Some (advanced_routes n)"
  using normalized_config(2) those_iff by blast

lemma without_index_map: "map f (without_index i xs) = without_index i (map f xs)"
  by (simp add: without_index_def take_map drop_map)

lemma created_route_normal: "normalizeAdvancedCustomRoute createAdvancedCustomRoute = Some createAdvancedCustomRoute"
  by code_simp

text \<open>Fields after a patch.\<close>

lemma map_of_without: "map_of (filter (\<lambda>kv. fst kv \<noteq> key) kvs) k = (if k = key then None else map_of kvs k)"
  by (induction kvs) auto

lemma spread_field:
  "P (map_of kvs k) \<Longrightarrow> (\<And>v. (k, v) \<in> set patch \<Longrightarrow> P v) \<Longrightarrow> P (field (spread (JObj kvs) patch) k)"
proof (induction patch arbitrary: kvs)
  case (Cons e patch)
  obtain key v where e: "e = (key, v)" by (cases e)
  let ?kvs = "case v of Some w \<Rightarrow> map_set key w kvs | None \<Rightarrow> filter (\<lambda>kv. fst kv \<noteq> key) kvs"
  have "map_of ?kvs k = (if k = key then v else map_of kvs k)"
    by (cases v) (auto simp: map_of_map_set map_of_without)
  then have "P (map_of ?kvs k)" using Cons.prems e by auto
  from Cons.IH [OF this] Cons.prems(2) show ?case by (simp add: spread_def e)
qed (simp add: spread_def)

lemma normal_route_object:
  assumes "normalizeAdvancedCustomRoute route = Some r"
  shows "\<exists>kvs. r = JObj kvs" and "\<exists>s. field r ''upstream_path'' = Some (JStr s)"
  using assms by (auto simp: normalizeAdvancedCustomRoute_def split: option.splits if_splits)

lemma edit_upstream:
  "edit_patch edit route = Some patch \<Longrightarrow> (''upstream_path'', v) \<in> set patch \<Longrightarrow> \<exists>s. v = Some (JStr s)"
  by (cases edit)
     (auto simp: edit_patch_def setConverter_def setIncomingPath_def setUpstreamPath_def setAuthMode_def
        updateAuth_def Let_def split: if_splits option.splits)

lemma edited_route_normalizes:
  assumes "normalizeAdvancedCustomRoute r = Some r" and "edit_patch edit r = Some patch"
  shows "\<exists>r'. normalizeAdvancedCustomRoute (spread r patch) = Some r'"
proof -
  obtain kvs where r: "r = JObj kvs" using normal_route_object(1) [OF assms(1)] by blast
  have "\<exists>s. field (spread r patch) ''upstream_path'' = Some (JStr s)"
    unfolding r
    by (rule spread_field [where P = "\<lambda>v. \<exists>s. v = Some (JStr s)"])
       (use normal_route_object(2) [OF assms(1)] edit_upstream [OF assms(2)] in \<open>auto simp: r\<close>)
  moreover have "spread r patch \<noteq> JNull" by (simp add: spread_def)
  ultimately have "getAdvancedCustomRouteUpstreamPath (spread r patch) \<noteq> None"
    by (auto simp: getAdvancedCustomRouteUpstreamPath_def or_val_def js_trim_def)
  then show ?thesis by (auto simp: normalizeAdvancedCustomRoute_def)
qed

lemma updated_routes:
  assumes "map normalizeAdvancedCustomRoute rs = map Some rs" and "normalizeAdvancedCustomRoute x = Some y"
  shows "normalizeAdvancedCustomConfig (routes_config (rs[i := x])) = Some (routes_config (rs[i := y]))"
  by (rule normalize_routes_config) (simp add: map_update assms)

lemma edited_row_keys:
  assumes "keys_inv ed" and "index < length (shown_routes ed)" and "edit_route index edit ed = Some ed'"
  shows "keys_inv ed'"
proof -
  obtain n where n: "normalizeAdvancedCustomConfig (ed_config ed) = Some n"
    "length (ed_routeKeys ed) = length (advanced_routes n)"
    using assms(1) by (auto simp: keys_inv_def)
  let ?rs = "advanced_routes n"
  have sh: "shown_routes ed = ?rs" using n by (simp add: shown_routes_def)
  obtain patch where patch: "edit_patch edit (?rs ! index) = Some patch"
    using assms(3) sh by (auto simp: edit_route_def split: option.splits)
  have "normalizeAdvancedCustomRoute (?rs ! index) = Some (?rs ! index)"
    using normalized_config(3) [OF n(1)] assms(2) sh by simp
  from edited_route_normalizes [OF this patch] obtain r'
    where r': "normalizeAdvancedCustomRoute (spread (?rs ! index) patch) = Some r'" by blast
  show ?thesis
  proof (cases "patch = []")
    case True
    then show ?thesis using assms patch sh by (simp add: edit_route_def)
  next
    case False
    then have ed': "ed' = ed\<lparr>ed_config := routes_config (?rs[index := spread (?rs ! index) patch])\<rparr>"
      using assms(3) patch sh n by (simp add: edit_route_def updateRoute_def Let_def)
    then show ?thesis
      using assms(1) n(2) updated_routes [OF normal_routes [OF n(1)] r'] by (simp add: keys_inv_def)
  qed
qed

lemma add_keys:
  assumes "keys_inv ed" and "addRoute ed = Some ed'"
  shows "keys_inv ed'"
proof -
  obtain n where n: "normalizeAdvancedCustomConfig (ed_config ed) = Some n"
    "length (ed_routeKeys ed) = length (advanced_routes n)"
    using assms(1) by (auto simp: keys_inv_def)
  have "normalizeAdvancedCustomConfig (routes_config (advanced_routes n @ [createAdvancedCustomRoute])) =
      Some (routes_config (advanced_routes n @ [createAdvancedCustomRoute]))"
    by (rule normalize_routes_config) (simp add: normal_routes [OF n(1)] created_route_normal)
  moreover have "route_key (ed_keyCounter ed + 1) \<notin> set (ed_routeKeys ed)"
    using assms(1) pool_fresh [of "ed_keyCounter ed" "ed_keyCounter ed + 1"] by (auto simp: keys_inv_def)
  moreover have "set (ed_routeKeys ed) \<subseteq> key_pool (ed_keyCounter ed + 1)"
    using assms(1) pool_mono [of "ed_keyCounter ed" "ed_keyCounter ed + 1"] by (auto simp: keys_inv_def)
  moreover have "route_key (ed_keyCounter ed + 1) \<in> key_pool (ed_keyCounter ed + 1)" by (simp add: key_pool_def)
  ultimately show ?thesis using assms n by (auto simp: addRoute_def keys_inv_def)
qed

lemma remove_keys:
  assumes "keys_inv ed" and "removeRoute index ed = Some ed'"
  shows "keys_inv ed'"
proof -
  obtain n where n: "normalizeAdvancedCustomConfig (ed_config ed) = Some n"
    "length (ed_routeKeys ed) = length (advanced_routes n)"
    using assms(1) by (auto simp: keys_inv_def)
  have "normalizeAdvancedCustomConfig (routes_config (without_index index (advanced_routes n))) =
      Some (routes_config (without_index index (advanced_routes n)))"
    by (rule normalize_routes_config) (simp only: without_index_map normal_routes [OF n(1)])
  moreover have "distinct (without_index index (ed_routeKeys ed))"
    using assms(1) distinct_append [of "take index (ed_routeKeys ed)" "drop index (ed_routeKeys ed)"]
      set_drop_subset_set_drop [of index "Suc index" "ed_routeKeys ed"]
    by (auto simp: without_index_def keys_inv_def)
  moreover have "set (without_index index (ed_routeKeys ed)) \<subseteq> key_pool (ed_keyCounter ed)"
    using assms(1) by (auto simp: without_index_def keys_inv_def dest: in_set_takeD in_set_dropD)
  moreover have "length (without_index index (ed_routeKeys ed)) = length (without_index index (advanced_routes n))"
    using n(2) by (simp add: without_index_def)
  ultimately show ?thesis using assms(2) n(1) by (auto simp: removeRoute_def keys_inv_def)
qed

lemma parse_editor_keys: "keys_inv ed \<Longrightarrow> parseJsonEditorConfig url ed = Some (res, ed') \<Longrightarrow> keys_inv ed'"
  by (auto simp: parseJsonEditorConfig_def split: option.splits)

lemma install_keys:
  assumes "install_config c ed = Some ed'"
  shows "keys_inv ed'"
proof -
  obtain n t where n: "normalizeAdvancedCustomConfig c = Some n"
    and ed': "ed' = (replace_config n ed)\<lparr>ed_jsonText := t, ed_jsonError := []\<rparr>"
    using assms by (auto simp: install_config_def split: option.splits)
  show ?thesis using replaced_keys [OF n, of ed] by (simp add: ed')
qed

lemma template_keys: "keys_inv ed \<Longrightarrow> applyTemplate url mode ed = Some ed' \<Longrightarrow> keys_inv ed'"
  by (auto simp: applyTemplate_def split: option.splits prod.splits if_splits
      dest: install_keys parse_editor_keys)

lemma visual_keys:
  assumes "keys_inv ed" and "switchToVisualMode url ed = Some ed'"
  shows "keys_inv ed'"
proof -
  obtain res ed1 where p: "parseJsonEditorConfig url ed = Some (res, ed1)"
    using assms(2) by (auto simp: switchToVisualMode_def split: option.splits)
  show ?thesis
  proof (cases res)
    case None
    then show ?thesis using assms p parse_editor_keys [OF assms(1) p] by (simp add: switchToVisualMode_def)
  next
    case (Some c)
    then obtain n where n: "normalizeAdvancedCustomConfig c = Some n"
      and ed': "ed' = (replace_config n ed1)\<lparr>ed_editMode := VisualMode\<rparr>"
      using assms(2) p by (auto simp: switchToVisualMode_def)
    show ?thesis using replaced_keys [OF n, of ed1] by (simp add: ed')
  qed
qed

lemma format_keys: "keys_inv ed \<Longrightarrow> formatJson url ed = Some ed' \<Longrightarrow> keys_inv ed'"
  by (auto simp: formatJson_def split: option.splits prod.splits dest: parse_editor_keys)

lemma save_keys: "keys_inv ed \<Longrightarrow> saveConfig url ed = Some ed' \<Longrightarrow> keys_inv ed'"
  by (auto simp: saveConfig_def split: option.splits prod.splits if_splits dest: parse_editor_keys)

lemma event_keys:
  assumes "keys_inv ed" and "handle_event url event ed = Some ed'"
  shows "keys_inv ed'"
  using assms
  by (cases event)
     (auto simp: handle_event_def switchToJsonMode_def handleJsonChange_def split: if_splits option.splits
        intro: edited_row_keys add_keys remove_keys visual_keys format_keys template_keys save_keys)

text \<open>C24: every row of the visual editor has a key of its own. In every state of the dialog the
  configuration can be shown, there are as many row keys as routes, and no key is used twice.\<close>

theorem editor_row_keys:
  assumes "editor_reachable url start ed"
  shows "normalizeAdvancedCustomConfig (ed_config ed) \<noteq> None \<and>
    length (ed_routeKeys ed) = length (shown_routes ed) \<and> distinct (ed_routeKeys ed)"
proof -
  have "keys_inv ed" using assms
  proof (induction rule: editor_reachable.induct)
    case (opened ed)
    then show ?case
      by (auto simp: openEditor_def Let_def keys_inv_def key_pool_def distinct_map inj_on_def initial_key_inj
          split: option.splits)
  next
    case (handled ed event ed')
    then show ?case using event_keys by blast
  qed
  then show ?thesis by (auto simp: keys_inv_def shown_routes_def)
qed

section \<open>Typed editing\<close>

definition typed_editor :: "Editor \<Rightarrow> bool" where
  "typed_editor ed \<longleftrightarrow>
     normalizeAdvancedCustomConfig (ed_config ed) \<noteq> None \<and> list_all typed_route (shown_routes ed)"

lemma typed_editor_rendered:
  assumes "typed_editor ed"
  shows "rendered url ed \<noteq> None"
proof -
  obtain n where n: "normalizeAdvancedCustomConfig (ed_config ed) = Some n" "list_all typed_route (advanced_routes n)"
    using assms by (auto simp: typed_editor_def shown_routes_def)
  have "validateAdvancedCustomConfig url (Some n) \<noteq> None"
    using normalize_config_idem [OF n(1)] typed_routes_checked [OF n(2)]
    by (simp add: validateAdvancedCustomConfig_def Let_def)
  with n(1) show ?thesis by (auto simp: rendered_def split: option.splits)
qed

text \<open>A configuration of typed routes, normal or not, is shown as typed routes.\<close>

lemma typed_routes_shown:
  assumes "ed_config ed = routes_config rs" and "list_all typed_route rs"
  shows "typed_editor ed"
proof -
  have "typed_config (routes_config rs)" using assms(2) by (simp add: typed_config_def routes_config_def)
  from normalized_typed_config [OF this] show ?thesis
    using assms(1) by (auto simp: typed_editor_def shown_routes_def)
qed

definition typed_patch :: "route_patch \<Rightarrow> bool" where
  "typed_patch patch =
     list_all (\<lambda>(key, v).
       if key = ''auth'' then (case v of None \<Rightarrow> True | Some auth \<Rightarrow> typed_auth auth) else text_or_missing v) patch"

lemma typed_spread:
  assumes "typed_route r" and "typed_patch patch"
  shows "typed_route (spread r patch)"
proof -
  obtain kvs where r: "r = JObj kvs" using assms(1) by (cases r) (auto simp: typed_route_def)
  have obj: "\<exists>kvs. spread r patch = JObj kvs" by (simp add: spread_def)
  have texts: "text_or_missing (field (spread r patch) k)"
    if "k \<noteq> ''auth''" and "text_or_missing (field r k)" for k
    unfolding r by (rule spread_field) (use that assms(2) r in \<open>auto simp: typed_patch_def list_all_iff\<close>)
  have "case field (spread r patch) ''auth'' of None \<Rightarrow> True | Some auth \<Rightarrow> typed_auth auth"
    unfolding r
    by (rule spread_field [where P = "\<lambda>v. case v of None \<Rightarrow> True | Some auth \<Rightarrow> typed_auth auth"])
       (use assms r in \<open>auto simp: typed_patch_def typed_route_def list_all_iff\<close>)
  with obj texts [of "''incoming_path''"] texts [of "''upstream_path''"] texts [of "''converter''"] assms(1)
  show ?thesis by (auto simp: typed_route_def)
qed

lemma typed_built_auth:
  assumes "case auth of None \<Rightarrow> True | Some a \<Rightarrow> typed_auth a"
  shows "case buildAdvancedCustomAuth mode auth of None \<Rightarrow> True | Some a \<Rightarrow> typed_auth a"
proof -
  have "text_or_missing (Option.bind auth (\<lambda>a. field a ''name''))" "text_or_missing (Option.bind auth (\<lambda>a. field a ''value''))"
    using assms by (cases auth; simp add: typed_auth_def text_or_missing_def)+
  then show ?thesis
    by (auto simp: buildAdvancedCustomAuth_def Let_def typed_auth_def text_or_missing_def or_val_def
        split: option.splits jsv.splits if_splits)
qed

lemma typed_auth_set: "typed_auth (JObj kvs) \<Longrightarrow> typed_auth (JObj (map_set f (JStr v) kvs))"
  by (simp add: typed_auth_def map_of_map_set text_or_missing_def)

lemma typed_update_auth:
  assumes "typed_route r"
  shows "\<exists>patch. updateAuth f v r = Some patch \<and> typed_patch patch"
proof (cases "field r ''auth''")
  case None
  then show ?thesis by (simp add: updateAuth_def typed_patch_def)
next
  case (Some a)
  then have "typed_auth a" using assms by (simp add: typed_route_def)
  then have "typed_auth (normalize_auth a)" using typed_normalize_auth by blast
  from typed_auth_set [OF this [unfolded normalize_auth_def], of f v] Some show ?thesis
    by (simp add: updateAuth_def typed_patch_def)
qed

lemma typed_edit_patch:
  assumes "typed_route r"
  shows "\<exists>patch. edit_patch edit r = Some patch \<and> typed_patch patch"
proof (cases edit)
  case (ConverterEdit c)
  have "text_or_missing (field r ''incoming_path'')" using assms by (simp add: typed_route_def)
  from text_or_val [OF this, of "getDefaultAdvancedCustomIncomingPath (route_converter r)"]
  obtain p where "route_incoming r = Some p" by (auto simp: route_incoming_def)
  then show ?thesis using ConverterEdit
    by (auto simp: edit_patch_def setConverter_def typed_patch_def text_or_missing_def)
next
  case (AuthModeEdit m)
  have "case field r ''auth'' of None \<Rightarrow> True | Some a \<Rightarrow> typed_auth a" using assms by (simp add: typed_route_def)
  from typed_built_auth [OF this] show ?thesis using AuthModeEdit
    by (simp add: edit_patch_def setAuthMode_def typed_patch_def)
next
  case (AuthNameEdit v)
  then show ?thesis using typed_update_auth [OF assms] by (simp add: edit_patch_def)
next
  case (AuthValueEdit v)
  then show ?thesis using typed_update_auth [OF assms] by (simp add: edit_patch_def)
qed (auto simp: edit_patch_def setIncomingPath_def setUpstreamPath_def typed_patch_def text_or_missing_def Let_def)

lemma templates_typed:
  "list_all (\<lambda>t. tp_config t = routes_config (advanced_routes (tp_config t)) \<and>
     list_all typed_route (advanced_routes (tp_config t))) ADVANCED_CUSTOM_TEMPLATE_OPTIONS"
  by code_simp

lemma created_typed: "typed_route createAdvancedCustomRoute"
  by code_simp

lemma typed_install:
  assumes "list_all typed_route rs"
  shows "\<exists>ed'. install_config (routes_config rs) ed = Some ed' \<and> typed_editor ed'"
proof -
  have "typed_config (routes_config rs)" using assms by (simp add: typed_config_def routes_config_def)
  then obtain n where n: "normalizeAdvancedCustomConfig (routes_config rs) = Some n"
    "list_all typed_route (advanced_routes n)" using normalized_typed_config by blast
  with stringify_normalized [OF n(1)] have
    "install_config (routes_config rs) ed = Some ((replace_config n ed)\<lparr>ed_jsonText := stringify2 n, ed_jsonError := []\<rparr>)"
    by (simp add: install_config_def)
  moreover have "typed_editor ((replace_config n ed)\<lparr>ed_jsonText := stringify2 n, ed_jsonError := []\<rparr>)"
    by (rule typed_routes_shown [OF _ n(2)]) (use normalized_config(1) [OF n(1)] in \<open>simp add: replace_config_def\<close>)
  ultimately show ?thesis by blast
qed

definition visual_event :: "editor_event \<Rightarrow> bool" where
  "visual_event event =
     (case event of EditRoute _ _ \<Rightarrow> True | AddRoute \<Rightarrow> True | RemoveRoute _ \<Rightarrow> True | SelectTemplate _ \<Rightarrow> True
      | ApplyTemplate _ \<Rightarrow> True | PressJson \<Rightarrow> True | _ \<Rightarrow> False)"

lemma typed_editor_routes:
  assumes "typed_editor ed"
  shows "\<exists>n. normalizeAdvancedCustomConfig (ed_config ed) = Some n \<and> list_all typed_route (advanced_routes n) \<and>
    shown_routes ed = advanced_routes n"
  using assms by (auto simp: typed_editor_def shown_routes_def)

lemma typed_edit_route:
  assumes "typed_editor ed" and "i < length (shown_routes ed)"
  shows "\<exists>ed'. edit_route i edit ed = Some ed' \<and> typed_editor ed'"
proof -
  obtain n where n: "normalizeAdvancedCustomConfig (ed_config ed) = Some n" "list_all typed_route (advanced_routes n)"
    "shown_routes ed = advanced_routes n" using typed_editor_routes [OF assms(1)] by blast
  have r: "typed_route (advanced_routes n ! i)" using n(2,3) assms(2) by (simp add: list_all_length)
  obtain patch where patch: "edit_patch edit (advanced_routes n ! i) = Some patch" "typed_patch patch"
    using typed_edit_patch [OF r] by blast
  let ?rs = "(advanced_routes n)[i := spread (advanced_routes n ! i) patch]"
  have "list_all typed_route ?rs"
    using n(2) typed_spread [OF r patch(2)] by (auto simp: list_all_iff dest!: subsetD [OF set_update_subset_insert])
  then have "typed_editor (ed\<lparr>ed_config := routes_config ?rs\<rparr>)" by (intro typed_routes_shown) simp_all
  then show ?thesis using n patch(1) assms(1)
    by (cases "patch = []") (auto simp: edit_route_def updateRoute_def Let_def)
qed

lemma typed_apply_template:
  assumes "typed_editor ed" and "ed_editMode ed = VisualMode"
  shows "\<exists>ed'. applyTemplate url mode ed = Some ed' \<and> typed_editor ed'"
proof -
  obtain n where n: "normalizeAdvancedCustomConfig (ed_config ed) = Some n" "list_all typed_route (advanced_routes n)"
    using typed_editor_routes [OF assms(1)] by blast
  obtain tpl where tpl: "tpl \<in> set ADVANCED_CUSTOM_TEMPLATE_OPTIONS"
    "getAdvancedCustomTemplateConfig (ed_templateKey ed) = Some (tp_config tpl)"
    using template_found by blast
  have c: "tp_config tpl = routes_config (advanced_routes (tp_config tpl))"
    "list_all typed_route (advanced_routes (tp_config tpl))"
    "normalizeAdvancedCustomConfig (tp_config tpl) = Some (tp_config tpl)"
    using templates_typed template_table tpl(1) by (auto simp: list_all_iff)
  have "list_all typed_route (advanced_routes n @ advanced_routes (tp_config tpl))" using n(2) c(2) by simp
  from typed_install [OF c(2), of ed] typed_install [OF this, of ed] c(1) show ?thesis
    using tpl(2) assms(2) n normalize_config_idem [OF n(1)] c(3)
    by (cases mode) (auto simp: applyTemplate_def)
qed

text \<open>C23: editing in the visual editor is type safe. In a dialog whose routes have the declared types, no
  edit of a field, no added or removed row, no template and no switch to the text mode throws, and
  afterwards the routes have the declared types again and the dialog can be rendered.\<close>

theorem visual_editing_typed:
  assumes "typed_editor ed" and "ed_editMode ed = VisualMode" and "visual_event event"
  shows "\<exists>ed'. handle_event url event ed = Some ed' \<and> typed_editor ed' \<and> rendered url ed' \<noteq> None"
proof -
  obtain n where n: "normalizeAdvancedCustomConfig (ed_config ed) = Some n" and t: "list_all typed_route (advanced_routes n)"
    using typed_editor_routes [OF assms(1)] by blast
  have "\<exists>ed'. handle_event url event ed = Some ed' \<and> typed_editor ed'"
  proof (cases event)
    case (EditRoute i edit)
    then show ?thesis using typed_edit_route [OF assms(1)] assms by (auto simp: handle_event_def)
  next
    case AddRoute
    have "list_all typed_route (advanced_routes n @ [createAdvancedCustomRoute])" using t created_typed by simp
    from typed_routes_shown [OF _ this] AddRoute n assms(2) show ?thesis by (auto simp: handle_event_def addRoute_def)
  next
    case (RemoveRoute i)
    have "list_all typed_route (without_index i (advanced_routes n))"
      using t by (auto simp: without_index_def list_all_iff dest: in_set_takeD in_set_dropD)
    from typed_routes_shown [OF _ this] RemoveRoute n assms show ?thesis by (auto simp: handle_event_def removeRoute_def)
  next
    case (ApplyTemplate mode)
    then show ?thesis using typed_apply_template [OF assms(1,2)] by (simp add: handle_event_def)
  next
    case PressJson
    then show ?thesis using n stringify_normalized [OF n] assms(1)
      by (auto simp: handle_event_def switchToJsonMode_def typed_editor_def shown_routes_def)
  next
    case (SelectTemplate key)
    then show ?thesis using assms(1) by (auto simp: handle_event_def typed_editor_def shown_routes_def)
  qed (use assms(3) in \<open>simp_all add: visual_event_def\<close>)
  then show ?thesis using typed_editor_rendered by blast
qed

section \<open>Converters and paths\<close>

text \<open>Every registered converter has a default incoming path, and it allows the converter.\<close>

lemma default_path_table:
  "list_all (\<lambda>option. isConverterPathAllowed (getDefaultAdvancedCustomIncomingPath (JStr (fst option))) (JStr (fst option)) \<and>
     getDefaultAdvancedCustomIncomingPath (JStr (fst option)) \<noteq> [] \<and> fst option \<noteq> [])
     ADVANCED_CUSTOM_CONVERTER_OPTIONS"
  by code_simp

text \<open>The path and the converter of a row match.\<close>

definition row_matches :: "jsv \<Rightarrow> bool" where
  "row_matches route =
     (case route_incoming route of
        None \<Rightarrow> False
      | Some path \<Rightarrow> isConverterPathAllowed path (route_converter route))"

lemma converter_edit_matches:
  assumes "isAdvancedCustomConverter (JStr c)" and "setConverter c (JObj kvs) = Some patch"
  shows "row_matches (spread (JObj kvs) patch)"
proof -
  obtain opt where "opt \<in> set ADVANCED_CUSTOM_CONVERTER_OPTIONS" "fst opt = c"
    using assms(1) by (auto simp: isAdvancedCustomConverter_def list_ex_iff)
  then have d: "isConverterPathAllowed (getDefaultAdvancedCustomIncomingPath (JStr c)) (JStr c)"
    "getDefaultAdvancedCustomIncomingPath (JStr c) \<noteq> []" "c \<noteq> []"
    using default_path_table by (auto simp: list_all_iff)
  obtain path where path: "route_incoming (JObj kvs) = Some path" using assms(2) by (auto simp: setConverter_def)
  show ?thesis
  proof (cases "isConverterPathAllowed path (JStr c)")
    case True
    then have patch: "patch = [(''converter'', Some (JStr c))]"
      using assms(2) path by (auto simp: setConverter_def isAdvancedCustomIncomingPathAllowed_def)
    show ?thesis
      using True path d
      by (cases "map_of kvs ''incoming_path''")
         (auto simp: patch row_matches_def route_incoming_def route_converter_def spread_def map_of_map_set or_val_def
           split: if_splits)
  next
    case False
    then show ?thesis using assms(2) path d
      by (auto simp: setConverter_def isAdvancedCustomIncomingPathAllowed_def row_matches_def
          route_incoming_def route_converter_def spread_def map_of_map_set or_val_def)
  qed
qed

lemma default_path_nonempty: "getDefaultAdvancedCustomIncomingPath v \<noteq> []"
proof -
  have "list_all (\<lambda>option. fst option \<noteq> []) ADVANCED_CUSTOM_INCOMING_PATH_OPTIONS" by code_simp
  then show ?thesis
    by (auto simp: getDefaultAdvancedCustomIncomingPath_def getAdvancedCustomIncomingPathOptions_def str_or_def
        split: list.splits)
qed

lemma incoming_edit_matches:
  assumes "setIncomingPath p (JObj kvs) = Some patch"
  shows "row_matches (spread (JObj kvs) patch)"
proof -
  let ?p = "opt_str_or p (getDefaultAdvancedCustomIncomingPath (route_converter (JObj kvs)))"
  have "?p \<noteq> []" using default_path_nonempty by (auto simp: opt_str_or_def str_or_def split: option.splits)
  then show ?thesis using assms
    by (auto simp: setIncomingPath_def isAdvancedCustomIncomingPathAllowed_def Let_def row_matches_def
        route_incoming_def route_converter_def spread_def map_of_map_set or_val_def isConverterPathAllowed_def [of _ "JStr ''none''"]
        split: if_splits)
qed

text \<open>C25: choosing a converter or an incoming path in the visual editor never leaves a pair that the
  validation would reject as not matching: the other of the two is changed when it has to be.\<close>

theorem converter_and_path_match:
  assumes "route = JObj kvs"
    and "edit = ConverterEdit c \<and> isAdvancedCustomConverter (JStr c) \<or> edit = IncomingEdit p"
    and "edit_patch edit route = Some patch"
  shows "row_matches (spread route patch)"
  using assms converter_edit_matches [of c kvs patch] incoming_edit_matches [of p kvs patch]
  by (auto simp: edit_patch_def)

section \<open>A new configuration\<close>

definition blank_editor :: Editor where
  "blank_editor =
     \<lparr>ed_config = createAdvancedCustomConfig, ed_routeKeys = [initial_route_key 0], ed_editMode = VisualMode,
      ed_jsonText = stringify2 createAdvancedCustomConfig, ed_jsonError = [], ed_templateKey = first_template_key,
      ed_keyCounter = 0, ed_saved = [], ed_open = True\<rparr>"

lemma created_normal:
  "normalizeAdvancedCustomConfig createAdvancedCustomConfig = Some createAdvancedCustomConfig"
  "json_wf createAdvancedCustomConfig" "advanced_routes createAdvancedCustomConfig = [createAdvancedCustomRoute]"
  by code_simp+

lemma open_blank: "openEditor [] = Some blank_editor"
  using stringify_normalized [OF created_normal(1)]
  by (simp add: openEditor_def parseAdvancedCustomConfig_def nullish_def created_normal blank_editor_def)

lemma blank_shown: "shown_routes blank_editor = [createAdvancedCustomRoute]"
  by (simp add: shown_routes_def blank_editor_def created_normal)

lemma blank_saves:
  "handle_event url Save blank_editor =
     Some (blank_editor\<lparr>ed_saved := [stringify2 createAdvancedCustomConfig], ed_open := False\<rparr>)"
  using stringify_normalized [OF created_normal(1)] created_valid [of url]
  by (simp add: handle_event_def saveConfig_def rendered_def blank_editor_def created_normal)

theorem editor_saves_valid_configs_witness:
  "\<exists>c. stringify2 createAdvancedCustomConfig = stringify2 c \<and> validateAdvancedCustomConfig (\<lambda>_. None) (Some c) = Some None"
proof -
  let ?ed = "blank_editor\<lparr>ed_saved := [stringify2 createAdvancedCustomConfig], ed_open := False\<rparr>"
  have "editor_reachable (\<lambda>_. None) [] ?ed"
    by (rule editor_reachable.handled [OF editor_reachable.opened [OF open_blank] blank_saves])
  from editor_saves_valid_configs [OF this, of "stringify2 createAdvancedCustomConfig"] show ?thesis by auto
qed

theorem editor_row_keys_witness:
  "length (ed_routeKeys blank_editor) = length (shown_routes blank_editor) \<and> distinct (ed_routeKeys blank_editor)"
  using editor_row_keys [OF editor_reachable.opened [OF open_blank]] by blast

theorem visual_editing_typed_witness:
  "\<exists>ed'. handle_event (\<lambda>_. None) AddRoute blank_editor = Some ed' \<and> typed_editor ed' \<and> rendered (\<lambda>_. None) ed' \<noteq> None"
proof (rule visual_editing_typed)
  show "typed_editor blank_editor"
    unfolding typed_editor_def blank_shown by (simp add: blank_editor_def created_normal created_typed)
  show "ed_editMode blank_editor = VisualMode" by (simp add: blank_editor_def)
  show "visual_event AddRoute" by (simp add: visual_event_def)
qed

theorem converter_and_path_match_witness:
  "row_matches (spread createAdvancedCustomRoute
     [(''converter'', Some (JStr ''anthropic_messages_to_openai_chat_completions'')),
      (''incoming_path'', Some (JStr ''/v1/messages''))])"
proof -
  let ?c = "''anthropic_messages_to_openai_chat_completions''"
  obtain kvs where "createAdvancedCustomRoute = JObj kvs" by (simp add: createAdvancedCustomRoute_def)
  moreover have "isAdvancedCustomConverter (JStr ?c)" by code_simp
  moreover have "edit_patch (ConverterEdit ?c) createAdvancedCustomRoute =
      Some [(''converter'', Some (JStr ?c)), (''incoming_path'', Some (JStr ''/v1/messages''))]" by code_simp
  ultimately show ?thesis using converter_and_path_match by blast
qed

text \<open>The button of the mode that is already active is not inert: in the visual mode it replaces the
  configuration by the text of the other mode, which visual edits do not update.\<close>

lemma press_visual_restores:
  assumes "ed_jsonText ed = stringify2 n" and "normalizeAdvancedCustomConfig n = Some n" and "json_wf n"
    and "validateAdvancedCustomConfig url (Some n) = Some None"
  shows "\<exists>ed'. handle_event url PressVisual ed = Some ed' \<and> shown_routes ed' = advanced_routes n"
  using assms parse_printed [OF assms(2,3)]
  by (simp add: handle_event_def switchToVisualMode_def parseJsonEditorConfig_def replace_config_def shown_routes_def)

lemma visual_button_discards_edits:
  "\<exists>ed1 ed2. handle_event url AddRoute blank_editor = Some ed1 \<and> length (shown_routes ed1) = 2 \<and>
     handle_event url PressVisual ed1 = Some ed2 \<and> length (shown_routes ed2) = 1"
proof -
  let ?rs = "[createAdvancedCustomRoute, createAdvancedCustomRoute]"
  let ?ed = "blank_editor\<lparr>ed_config := routes_config ?rs,
    ed_routeKeys := [initial_route_key 0, route_key 1], ed_keyCounter := 1\<rparr>"
  have "handle_event url AddRoute blank_editor = Some ?ed"
    by (simp add: handle_event_def addRoute_def blank_editor_def created_normal)
  moreover have "shown_routes ?ed = ?rs"
    using normalize_routes_config [of ?rs ?rs] created_route_normal by (simp add: shown_routes_def)
  moreover have "ed_jsonText ?ed = stringify2 createAdvancedCustomConfig" by (simp add: blank_editor_def)
  from press_visual_restores [OF this created_normal(1,2) created_valid [of url]] obtain ed2
    where "handle_event url PressVisual ?ed = Some ed2" "length (shown_routes ed2) = 1"
    by (auto simp: created_normal)
  ultimately show ?thesis by (intro exI [of _ ?ed] exI [of _ ed2]) simp
qed

end
