(* ===== verification/Numbers.thy ===== *)
theory Numbers
  imports Json
begin

text \<open>
  Numbers of JavaScript as the display code uses them: finite values are exact rationals, beside the infinities and
  \<open>NaN\<close> (there is no negative zero). \<open>Number.prototype.toFixed\<close>, \<open>Math.round\<close> and the comparisons are those of the
  language; the lemmas say what number a printed text stands for.
\<close>

section \<open>Numbers\<close>

datatype js_number = Fin rat | Infinite bool | NaN

definition num_mul :: "js_number \<Rightarrow> js_number \<Rightarrow> js_number" where
  "num_mul x y =
     (case (x, y) of
        (Fin a, Fin b) \<Rightarrow> Fin (a * b)
      | (Infinite s, Fin b) \<Rightarrow> if b = 0 then NaN else Infinite (s = (0 < b))
      | (Fin a, Infinite s) \<Rightarrow> if a = 0 then NaN else Infinite (s = (0 < a))
      | (Infinite s, Infinite t) \<Rightarrow> Infinite (s = t)
      | _ \<Rightarrow> NaN)"

definition num_div :: "js_number \<Rightarrow> js_number \<Rightarrow> js_number" where
  "num_div x y =
     (case (x, y) of
        (Fin a, Fin b) \<Rightarrow> if b \<noteq> 0 then Fin (a / b) else if a = 0 then NaN else Infinite (0 < a)
      | (Infinite s, Fin b) \<Rightarrow> Infinite (s = (0 \<le> b))
      | (Fin a, Infinite s) \<Rightarrow> Fin 0
      | _ \<Rightarrow> NaN)"

definition isFinite :: "js_number \<Rightarrow> bool" where
  "isFinite x = (case x of Fin a \<Rightarrow> True | _ \<Rightarrow> False)"

definition num_abs :: "js_number \<Rightarrow> js_number" where
  "num_abs x = (case x of Fin a \<Rightarrow> Fin \<bar>a\<bar> | Infinite s \<Rightarrow> Infinite True | NaN \<Rightarrow> NaN)"

text \<open>\<open>x >= r\<close> for a finite \<open>r\<close>.\<close>

definition at_least :: "js_number \<Rightarrow> rat \<Rightarrow> bool" where
  "at_least x r = (case x of Fin a \<Rightarrow> r \<le> a | Infinite s \<Rightarrow> s | NaN \<Rightarrow> False)"

definition math_round :: "rat \<Rightarrow> int" where
  "math_round x = \<lfloor>x + 1 / 2\<rfloor>"

section \<open>Fixed-point text\<close>

definition pad_start :: "nat \<Rightarrow> string \<Rightarrow> string" where
  "pad_start n s = replicate (n - length s) CHR ''0'' @ s"

text \<open>\<open>n / 10 ^ d\<close> with \<open>d\<close> digits after the point.\<close>

definition fixed_digits :: "nat \<Rightarrow> nat \<Rightarrow> string" where
  "fixed_digits d n =
     (if d = 0 then show_nat n
      else (let m = pad_start (d + 1) (show_nat n); k = length m - d in take k m @ ''.'' @ drop k m))"

text \<open>\<open>String(x)\<close> for \<open>x \<ge> 10 ^ 21\<close>.\<close>

definition show_exponent :: "rat \<Rightarrow> string" where
  "show_exponent x =
     (let ds = show_nat (nat \<lfloor>x\<rfloor>); m = rev (dropWhile (\<lambda>c. c = CHR ''0'') (rev ds)) in
      take 1 m @ (if length m = 1 then [] else ''.'' @ drop 1 m) @ ''e+'' @ show_nat (length ds - 1))"

definition toFixed :: "nat \<Rightarrow> js_number \<Rightarrow> string" where
  "toFixed d v =
     (case v of
        NaN \<Rightarrow> ''NaN''
      | Infinite s \<Rightarrow> if s then ''Infinity'' else ''-Infinity''
      | Fin x \<Rightarrow>
          (if x < 0 then ''-'' else []) @
          (if 10 ^ 21 \<le> \<bar>x\<bar> then show_exponent \<bar>x\<bar>
           else fixed_digits d (nat \<lfloor>\<bar>x\<bar> * 10 ^ d + 1 / 2\<rfloor>)))"

section \<open>Reading numbers\<close>

text \<open>\<open>Number(text)\<close> of a text over the digits, the point, the letter of the exponent and the signs.\<close>

definition read_exponent :: "string \<Rightarrow> rat option" where
  "read_exponent s =
     (case s of
        [] \<Rightarrow> Some 1
      | c # r \<Rightarrow>
          if c \<in> set ''eE'' then
            (let negative = startsWith r ''-'';
                 ds = (case r of [] \<Rightarrow> [] | d # q \<Rightarrow> if d \<in> set ''+-'' then q else d # q) in
             if ds = [] \<or> \<not> list_all is_digit ds then None
             else Some (if negative then 1 / 10 ^ read_nat ds else 10 ^ read_nat ds))
          else None)"

definition read_unsigned :: "string \<Rightarrow> rat option" where
  "read_unsigned s =
     (let whole = takeWhile is_digit s; r = dropWhile is_digit s;
          frac = (if startsWith r ''.'' then takeWhile is_digit (drop 1 r) else []);
          r' = (if startsWith r ''.'' then dropWhile is_digit (drop 1 r) else r) in
      if whole = [] \<and> frac = [] then None
      else map_option (\<lambda>e. of_nat (read_nat (whole @ frac)) / 10 ^ length frac * e) (read_exponent r'))"

definition js_Number :: "string \<Rightarrow> rat option" where
  "js_Number s =
     (if startsWith s ''-'' then map_option uminus (read_unsigned (drop 1 s))
      else if startsWith s ''+'' then read_unsigned (drop 1 s)
      else read_unsigned s)"

text \<open>\<open>x || 0\<close>.\<close>

abbreviation or_zero :: "rat option \<Rightarrow> rat" where
  "or_zero x \<equiv> nullish x 0"

text \<open>A text that ends or goes on with a character outside a class.\<close>

definition ends :: "(char \<Rightarrow> bool) \<Rightarrow> string \<Rightarrow> bool" where
  "ends P s \<longleftrightarrow> (case s of [] \<Rightarrow> True | c # _ \<Rightarrow> \<not> P c)"

lemma ends_simps [simp]: "ends P []" "ends P (c # s) \<longleftrightarrow> \<not> P c"
  by (simp_all add: ends_def)

section \<open>Decimal numbers are read back\<close>

definition decimal :: "rat \<Rightarrow> bool" where
  "decimal r \<longleftrightarrow> 0 \<le> r \<and> r * 10 ^ 6 = of_int \<lfloor>r * 10 ^ 6\<rfloor>"

lemma read_nat_append: "list_all is_digit b \<Longrightarrow> read_nat (a @ b) = read_nat a * 10 ^ length b + read_nat b"
proof (induction b rule: rev_induct)
  case Nil
  then show ?case by (simp add: read_nat_def)
next
  case (snoc c b)
  then show ?case by (simp add: read_nat_def algebra_simps)
qed

lemma frac_digits_read:
  assumes "0 \<le> x" "x < 1" "x * 10 ^ k = of_int z"
  shows "list_all is_digit (frac_digits k x) \<and>
    (of_nat (read_nat (frac_digits k x)) :: rat) = x * 10 ^ length (frac_digits k x)"
  using assms
proof (induction k arbitrary: x z)
  case 0
  have "0 \<le> z" "z < 1" using 0 by auto
  then have "x = 0" using 0 by simp
  then show ?case by (simp add: read_nat_def)
next
  case (Suc k)
  show ?case
  proof (cases "x = 0")
    case True
    then show ?thesis by (simp add: read_nat_def)
  next
    case False
    let ?d = "\<lfloor>10 * x\<rfloor>" and ?y = "10 * x - of_int \<lfloor>10 * x\<rfloor>"
    have d: "0 \<le> ?d" "?d < 10" using Suc.prems by (auto simp: floor_less_iff)
    have y: "0 \<le> ?y" "?y < 1" by linarith+
    have "?y * 10 ^ k = of_int (z - ?d * 10 ^ k)"
      using Suc.prems(3) by (simp add: algebra_simps)
    note ih = Suc.IH [OF y this]
    have n: "nat ?d < 10" using d by linarith
    have "(of_nat (read_nat (digit_char (nat ?d) # frac_digits k ?y)) :: rat) =
        of_nat (nat ?d * 10 ^ length (frac_digits k ?y) + read_nat (frac_digits k ?y))"
      using read_nat_append [of "frac_digits k ?y" "[digit_char (nat ?d)]"] ih n by (simp add: read_nat_def)
    also have "\<dots> = of_int ?d * 10 ^ length (frac_digits k ?y) + ?y * 10 ^ length (frac_digits k ?y)"
      using ih d by (simp add: of_nat_nat)
    also have "\<dots> = x * 10 ^ length (digit_char (nat ?d) # frac_digits k ?y)"
      by (simp add: algebra_simps)
    finally show ?thesis using False ih n by simp
  qed
qed

lemma digits_stop:
  assumes "list_all is_digit d" "ends is_digit s"
  shows "takeWhile is_digit (d @ s) = d" "dropWhile is_digit (d @ s) = s"
proof -
  have "takeWhile is_digit s = []" "dropWhile is_digit s = s" using assms(2) by (cases s; simp)+
  then show "takeWhile is_digit (d @ s) = d" "dropWhile is_digit (d @ s) = s"
    using assms(1) by (simp_all add: list_all_iff takeWhile_append2 dropWhile_append2)
qed

lemma point_not_digit [simp]: "\<not> is_digit CHR ''.''" "\<not> is_digit CHR ''-''" "\<not> is_digit CHR ''+''"
  by (simp_all add: is_digit_def)

lemma read_plain:
  assumes "list_all is_digit d" "d \<noteq> []"
  shows "js_Number d = Some (of_nat (read_nat d))"
    and "list_all is_digit f \<Longrightarrow> js_Number (d @ ''.'' @ f) = Some (of_nat (read_nat (d @ f)) / 10 ^ length f)"
proof -
  have h: "\<not> startsWith (d @ r) ''-''" "\<not> startsWith (d @ r) ''+''" for r
    using assms by (cases d; auto simp: startsWith_def)+
  have t: "takeWhile is_digit d = d" "dropWhile is_digit d = []"
    using digits_stop [OF assms(1), of "[]"] by (simp_all only: append_Nil2 ends_simps)
  have "read_unsigned d = Some (of_nat (read_nat d))"
    unfolding read_unsigned_def t Let_def using assms(2) by (simp add: startsWith_def read_exponent_def)
  then show "js_Number d = Some (of_nat (read_nat d))"
    using h [of "[]"] by (simp add: js_Number_def)
  assume f: "list_all is_digit f"
  have u: "takeWhile is_digit f = f" "dropWhile is_digit f = []"
    using digits_stop [OF f, of "[]"] by (simp_all only: append_Nil2 ends_simps)
  have p: "takeWhile is_digit (d @ ''.'' @ f) = d" "dropWhile is_digit (d @ ''.'' @ f) = ''.'' @ f"
    using digits_stop [OF assms(1), of "''.'' @ f"] by simp_all
  have "read_unsigned (d @ ''.'' @ f) = Some (of_nat (read_nat (d @ f)) / 10 ^ length f)"
    unfolding read_unsigned_def p Let_def using assms(2) by (simp add: startsWith_def read_exponent_def u)
  then show "js_Number (d @ ''.'' @ f) = Some (of_nat (read_nat (d @ f)) / 10 ^ length f)"
    using h [of "''.'' @ f"] by (simp add: js_Number_def)
qed

definition number_text :: "string \<Rightarrow> bool" where
  "number_text s \<longleftrightarrow> s \<noteq> [] \<and> list_all (\<lambda>c. is_digit c \<or> c = CHR ''.'') s"

lemma show_decimal:
  assumes "decimal r"
  shows "js_Number (show_num r) = Some r" "number_text (show_num r)"
proof -
  have r0: "0 \<le> r" and ri: "r * 10 ^ 6 = of_int \<lfloor>r * 10 ^ 6\<rfloor>" using assms by (simp_all add: decimal_def)
  have sn: "list_all is_digit (show_nat n)" "show_nat n \<noteq> []" for n by (simp_all add: show_nat_digits)
  have fl: "(0::int) \<le> \<lfloor>r\<rfloor>" using r0 by simp
  have "js_Number (show_num r) = Some r \<and> number_text (show_num r)"
  proof (cases "r = of_int \<lfloor>r\<rfloor>")
    case True
    have e: "show_num r = show_nat (nat \<lfloor>r\<rfloor>)" using True fl by (simp add: show_num_def show_int_def)
    have "(of_nat (nat \<lfloor>r\<rfloor>) :: rat) = r" using True fl by (simp add: of_nat_nat)
    then show ?thesis
      unfolding e using read_plain(1) [OF sn] sn by (auto simp: number_text_def list_all_iff)
  next
    case False
    let ?x = "r - of_int \<lfloor>r\<rfloor>" and ?w = "show_nat (nat \<lfloor>r\<rfloor>)"
    let ?f = "frac_digits 17 ?x"
    have "\<bar>r\<bar> = r" using r0 by simp
    then have e: "show_num r = ?w @ ''.'' @ ?f" using False r0 by (simp add: show_num_def Let_def)
    have x01: "0 \<le> ?x" "?x < 1" by linarith+
    have "?x * 10 ^ 17 = of_int ((\<lfloor>r * 10 ^ 6\<rfloor> - \<lfloor>r\<rfloor> * 10 ^ 6) * 10 ^ 11)"
      using ri by (simp add: algebra_simps)
    then have f: "list_all is_digit ?f" "(of_nat (read_nat ?f) :: rat) = ?x * 10 ^ length ?f"
      using frac_digits_read [of ?x 17, OF x01] by blast+
    have "(of_nat (read_nat (?w @ ?f)) :: rat) = (of_int \<lfloor>r\<rfloor> + ?x) * 10 ^ length ?f"
      using read_nat_append [OF f(1), of ?w] f(2) fl by (simp add: of_nat_nat algebra_simps)
    then have "js_Number (show_num r) = Some r"
      unfolding e read_plain(2) [OF sn f(1)] by simp
    then show ?thesis
      using e f(1) sn by (auto simp: number_text_def list_all_iff)
  qed
  then show "js_Number (show_num r) = Some r" "number_text (show_num r)" by blast+
qed

text \<open>Printing numerals by simplification.\<close>

lemma show_nat_steps:
  "n < 10 \<Longrightarrow> show_nat n = [digit_char n]" "10 \<le> n \<Longrightarrow> show_nat n = show_nat (n div 10) @ [digit_char (n mod 10)]"
  by (simp_all add: show_nat.simps [of n])

lemma digit_chars:
  "digit_char 0 = CHR ''0''" "digit_char 1 = CHR ''1''" "digit_char 2 = CHR ''2''" "digit_char 3 = CHR ''3''"
  "digit_char 4 = CHR ''4''" "digit_char 5 = CHR ''5''" "digit_char 6 = CHR ''6''" "digit_char 7 = CHR ''7''"
  "digit_char 8 = CHR ''8''" "digit_char 9 = CHR ''9''"
  by code_simp+

section \<open>What a fixed-point text stands for\<close>

lemma pad_digits: "list_all is_digit s \<Longrightarrow> list_all is_digit (pad_start n s)"
  by (auto simp: pad_start_def list_all_iff is_digit_def)

lemma read_zeros: "read_nat (replicate k CHR ''0'' @ s) = read_nat s"
  by (induction k) (simp_all add: read_nat_def digit_val_def)

lemma pad_length: "n \<le> length (pad_start n s)"
  by (simp add: pad_start_def)

text \<open>The number nearest to \<open>x\<close> with \<open>d\<close> digits.\<close>

definition rounded :: "nat \<Rightarrow> rat \<Rightarrow> rat" where
  "rounded d x = (if x < 0 then -1 else 1) * (of_int \<lfloor>\<bar>x\<bar> * 10 ^ d + 1 / 2\<rfloor> / 10 ^ d)"

lemma rounded_near: "\<bar>rounded d x - x\<bar> \<le> 1 / (2 * 10 ^ d)"
proof -
  let ?f = "of_int \<lfloor>\<bar>x\<bar> * 10 ^ d + 1 / 2\<rfloor> :: rat"
  have f: "?f \<le> \<bar>x\<bar> * 10 ^ d + 1 / 2" "\<bar>x\<bar> * 10 ^ d + 1 / 2 < ?f + 1" by linarith+
  have p: "(0::rat) < 10 ^ d" by simp
  have e: "?f / 10 ^ d - \<bar>x\<bar> = (?f - \<bar>x\<bar> * 10 ^ d) / 10 ^ d" using p by (simp add: field_simps)
  have "\<bar>?f - \<bar>x\<bar> * 10 ^ d\<bar> \<le> 1 / 2" using f by linarith
  then have "\<bar>?f - \<bar>x\<bar> * 10 ^ d\<bar> / 10 ^ d \<le> 1 / 2 / 10 ^ d" using p by (intro divide_right_mono) simp_all
  then have n: "\<bar>?f / 10 ^ d - \<bar>x\<bar>\<bar> \<le> 1 / (2 * 10 ^ d)" unfolding e by (simp add: abs_divide)
  show ?thesis
  proof (cases "x < 0")
    case True
    then have "rounded d x - x = - (?f / 10 ^ d - \<bar>x\<bar>)" by (simp add: rounded_def)
    then show ?thesis using n by (simp only: abs_minus_cancel)
  qed (use n in \<open>simp add: rounded_def\<close>)
qed

text \<open>A fixed-point text is digits, with a point and as many digits as asked for.\<close>

lemma fixed_digits_form:
  "\<exists>w f. fixed_digits d n = (if d = 0 then w else w @ ''.'' @ f) \<and> list_all is_digit w \<and> w \<noteq> [] \<and> list_all is_digit f \<and>
     length f = d \<and> read_nat (w @ f) = n"
proof (cases "d = 0")
  case True
  then show ?thesis
    by (intro exI [of _ "show_nat n"] exI [of _ "[]"]) (simp add: fixed_digits_def show_nat_digits)
next
  case False
  let ?m = "pad_start (d + 1) (show_nat n)"
  let ?k = "length ?m - d"
  have l: "d + 1 \<le> length ?m" by (rule pad_length)
  have a: "list_all is_digit ?m" by (rule pad_digits) (simp add: show_nat_digits)
  have "read_nat ?m = n" by (simp add: pad_start_def read_zeros)
  moreover have "list_all is_digit (take ?k ?m)" "list_all is_digit (drop ?k ?m)"
    using a by (metis append_take_drop_id list_all_append)+
  moreover have "take ?k ?m \<noteq> []" using l by auto
  moreover have "length (drop ?k ?m) = d" using l by simp
  moreover have "fixed_digits d n = take ?k ?m @ ''.'' @ drop ?k ?m" using False by (simp add: fixed_digits_def Let_def)
  ultimately show ?thesis using False by (intro exI [of _ "take ?k ?m"] exI [of _ "drop ?k ?m"]) simp
qed

lemma js_Number_minus: "js_Number (CHR ''-'' # s) = map_option uminus (read_unsigned s)"
  by (simp add: js_Number_def startsWith_def)

lemma read_unsigned_digits:
  assumes "list_all is_digit d" "d \<noteq> []"
  shows "read_unsigned (d @ r) = js_Number (d @ r)"
proof -
  have "\<not> startsWith (d @ r) ''-''" "\<not> startsWith (d @ r) ''+''"
    using assms by (cases d; auto simp: startsWith_def)+
  then show ?thesis by (simp add: js_Number_def)
qed

end
