(* ===== verification/Currency.thy ===== *)
theory Currency
  imports Numbers
begin

text \<open>
  Amounts of money: the currency part of \<open>stores/system-config-store.ts\<close> and \<open>lib/currency.ts\<close>. The stored configuration
  may lack fields (\<open>None\<close>). \<open>Intl.NumberFormat\<close> is a parameter that takes its options, the locale among them.
\<close>

section \<open>Configuration\<close>

record CurrencyConfig =
  cu_displayInCurrency :: bool
  cu_quotaDisplayType :: string
  cu_quotaPerUnit :: rat
  cu_usdExchangeRate :: rat
  cu_customCurrencySymbol :: string
  cu_customCurrencyExchangeRate :: rat

record PartialCurrency =
  pc_displayInCurrency :: "bool option"
  pc_quotaDisplayType :: "string option"
  pc_quotaPerUnit :: "rat option"
  pc_usdExchangeRate :: "rat option"
  pc_customCurrencySymbol :: "string option"
  pc_customCurrencyExchangeRate :: "rat option"

record SystemConfig =
  sc_systemName :: string
  sc_logo :: string
  sc_footerHtml :: "string option"
  sc_demoSiteEnabled :: "bool option"
  sc_displayTokenStatEnabled :: "bool option"
  sc_currency :: "PartialCurrency option"

record PartialSystemConfig =
  psc_systemName :: "string option"
  psc_logo :: "string option"
  psc_footerHtml :: "string option"
  psc_demoSiteEnabled :: "bool option"
  psc_displayTokenStatEnabled :: "bool option"
  psc_currency :: "PartialCurrency option"

text \<open>The signs of the currencies, in UTF-8.\<close>

definition yen :: string where "yen = [CHR 0xC2, CHR 0xA5]"
definition currency_sign :: string where "currency_sign = [CHR 0xC2, CHR 0xA4]"

definition DEFAULT_CURRENCY_CONFIG :: CurrencyConfig where
  "DEFAULT_CURRENCY_CONFIG =
     \<lparr>cu_displayInCurrency = True, cu_quotaDisplayType = ''USD'', cu_quotaPerUnit = 500000, cu_usdExchangeRate = 1,
      cu_customCurrencySymbol = currency_sign, cu_customCurrencyExchangeRate = 1\<rparr>"

definition merge_currency :: "PartialCurrency \<Rightarrow> PartialCurrency \<Rightarrow> PartialCurrency" where
  "merge_currency old new =
     \<lparr>pc_displayInCurrency = opt_or (pc_displayInCurrency new) (pc_displayInCurrency old),
      pc_quotaDisplayType = opt_or (pc_quotaDisplayType new) (pc_quotaDisplayType old),
      pc_quotaPerUnit = opt_or (pc_quotaPerUnit new) (pc_quotaPerUnit old),
      pc_usdExchangeRate = opt_or (pc_usdExchangeRate new) (pc_usdExchangeRate old),
      pc_customCurrencySymbol = opt_or (pc_customCurrencySymbol new) (pc_customCurrencySymbol old),
      pc_customCurrencyExchangeRate = opt_or (pc_customCurrencyExchangeRate new) (pc_customCurrencyExchangeRate old)\<rparr>"

definition no_currency :: PartialCurrency where
  "no_currency =
     \<lparr>pc_displayInCurrency = None, pc_quotaDisplayType = None, pc_quotaPerUnit = None, pc_usdExchangeRate = None,
      pc_customCurrencySymbol = None, pc_customCurrencyExchangeRate = None\<rparr>"

definition setConfig :: "PartialSystemConfig \<Rightarrow> SystemConfig \<Rightarrow> SystemConfig" where
  "setConfig newConfig config =
     \<lparr>sc_systemName = nullish (psc_systemName newConfig) (sc_systemName config),
      sc_logo = nullish (psc_logo newConfig) (sc_logo config),
      sc_footerHtml = opt_or (psc_footerHtml newConfig) (sc_footerHtml config),
      sc_demoSiteEnabled = opt_or (psc_demoSiteEnabled newConfig) (sc_demoSiteEnabled config),
      sc_displayTokenStatEnabled = opt_or (psc_displayTokenStatEnabled newConfig) (sc_displayTokenStatEnabled config),
      sc_currency = Some (merge_currency (nullish (sc_currency config) no_currency)
        (nullish (psc_currency newConfig) no_currency))\<rparr>"

section \<open>Options\<close>

record CurrencyFormatOptions =
  fo_digitsLarge :: "nat option"
  fo_digitsSmall :: "nat option"
  fo_abbreviate :: "bool option"
  fo_minimumNonZero :: "rat option"
  fo_compact :: "bool option"
  fo_showSymbol :: "bool option"
  fo_locale :: "string option"

record ResolvedCurrencyFormatOptions =
  ro_digitsLarge :: nat
  ro_digitsSmall :: nat
  ro_abbreviate :: bool
  ro_minimumNonZero :: rat
  ro_compact :: bool
  ro_showSymbol :: bool
  ro_locale :: "string option"

datatype DisplayMeta =
    CurrencyMeta (meta_symbol: string) (meta_currencyCode: string) (meta_exchangeRate: rat)
  | CustomMeta (meta_symbol: string) (meta_exchangeRate: rat)
  | TokensMeta (meta_quotaPerUnit: rat)

text \<open>The arguments of \<open>new Intl.NumberFormat\<close>.\<close>

record IntlOptions =
  io_locale :: "string option"
  io_style :: "string option"
  io_currency :: "string option"
  io_notation :: "string option"
  io_minimumFractionDigits :: "nat option"
  io_maximumFractionDigits :: nat

type_synonym intl = "IntlOptions \<Rightarrow> js_number \<Rightarrow> string"

definition DEFAULT_FORMAT_OPTIONS :: ResolvedCurrencyFormatOptions where
  "DEFAULT_FORMAT_OPTIONS =
     \<lparr>ro_digitsLarge = 2, ro_digitsSmall = 4, ro_abbreviate = True, ro_minimumNonZero = 0, ro_compact = False,
      ro_showSymbol = True, ro_locale = None\<rparr>"

definition DISPLAY_TYPE_VALUES :: "string list" where
  "DISPLAY_TYPE_VALUES = [''USD'', ''CNY'', ''TOKENS'', ''CUSTOM'']"

definition isCurrencyDisplayType :: "jsv \<Rightarrow> bool" where
  "isCurrencyDisplayType v = (case v of JStr s \<Rightarrow> s \<in> set DISPLAY_TYPE_VALUES | _ \<Rightarrow> False)"

definition parseCurrencyDisplayType :: "jsv \<Rightarrow> string \<Rightarrow> string" where
  "parseCurrencyDisplayType v fallback =
     (case v of JStr s \<Rightarrow> if isCurrencyDisplayType v then s else fallback | _ \<Rightarrow> fallback)"

definition positive_or :: "rat option \<Rightarrow> rat \<Rightarrow> rat" where
  "positive_or v d = (case v of None \<Rightarrow> d | Some x \<Rightarrow> if 0 < x then x else d)"

definition getConfig :: "SystemConfig \<Rightarrow> CurrencyConfig" where
  "getConfig config =
     (let d = DEFAULT_CURRENCY_CONFIG; currency = nullish (sc_currency config) no_currency in
      \<lparr>cu_displayInCurrency = nullish (pc_displayInCurrency currency) (cu_displayInCurrency d),
       cu_quotaDisplayType = nullish (pc_quotaDisplayType currency) (cu_quotaDisplayType d),
       cu_quotaPerUnit = positive_or (pc_quotaPerUnit currency) (cu_quotaPerUnit d),
       cu_usdExchangeRate = positive_or (pc_usdExchangeRate currency) (cu_usdExchangeRate d),
       cu_customCurrencySymbol =
         opt_str_or (map_option trim (pc_customCurrencySymbol currency)) (cu_customCurrencySymbol d),
       cu_customCurrencyExchangeRate = positive_or (pc_customCurrencyExchangeRate currency) (cu_customCurrencyExchangeRate d)\<rparr>)"

definition dollars :: DisplayMeta where
  "dollars = CurrencyMeta ''$'' ''USD'' 1"

definition getDisplayMeta :: "CurrencyConfig \<Rightarrow> DisplayMeta" where
  "getDisplayMeta config =
     (let t = cu_quotaDisplayType config in
      if t = ''CNY'' then CurrencyMeta yen ''CNY'' (cu_usdExchangeRate config)
      else if t = ''CUSTOM'' then CustomMeta (cu_customCurrencySymbol config) (cu_customCurrencyExchangeRate config)
      else if t = ''TOKENS'' then TokensMeta (cu_quotaPerUnit config)
      else dollars)"

definition getBillingDisplayMeta :: "CurrencyConfig \<Rightarrow> DisplayMeta" where
  "getBillingDisplayMeta config =
     (case getDisplayMeta config of TokensMeta q \<Rightarrow> dollars | meta \<Rightarrow> meta)"

definition mergeOptions :: "CurrencyFormatOptions option \<Rightarrow> ResolvedCurrencyFormatOptions" where
  "mergeOptions options =
     (case options of
        None \<Rightarrow> DEFAULT_FORMAT_OPTIONS
      | Some o' \<Rightarrow>
          \<lparr>ro_digitsLarge = nullish (fo_digitsLarge o') (ro_digitsLarge DEFAULT_FORMAT_OPTIONS),
           ro_digitsSmall = nullish (fo_digitsSmall o') (ro_digitsSmall DEFAULT_FORMAT_OPTIONS),
           ro_abbreviate = nullish (fo_abbreviate o') (ro_abbreviate DEFAULT_FORMAT_OPTIONS),
           ro_minimumNonZero = nullish (fo_minimumNonZero o') (ro_minimumNonZero DEFAULT_FORMAT_OPTIONS),
           ro_compact = nullish (fo_compact o') (ro_compact DEFAULT_FORMAT_OPTIONS),
           ro_showSymbol = nullish (fo_showSymbol o') (ro_showSymbol DEFAULT_FORMAT_OPTIONS),
           ro_locale = opt_or (fo_locale o') (ro_locale DEFAULT_FORMAT_OPTIONS)\<rparr>)"

section \<open>Formatting\<close>

text \<open>The zeros at the end of the digits after the last point, then a point at the end.\<close>

definition removeTrailingZeros :: "string \<Rightarrow> string" where
  "removeTrailingZeros str =
     (if CHR ''.'' \<notin> set str then str
      else
        (let f = takeWhile (\<lambda>c. c \<noteq> CHR ''.'') (rev str);
             t = (if list_all is_digit f then rev (dropWhile (\<lambda>c. c = CHR ''0'') (rev str)) else str) in
         if t \<noteq> [] \<and> last t = CHR ''.'' then butlast t else t))"

definition formatNumberWithSuffix :: "js_number \<Rightarrow> nat \<Rightarrow> nat \<Rightarrow> bool \<Rightarrow> string" where
  "formatNumberWithSuffix v digitsLarge digitsSmall abbreviate =
     (let abs = num_abs v in
      if abbreviate \<and> at_least abs 1000 then removeTrailingZeros (toFixed 1 (num_div v (Fin 1000))) @ ''k''
      else removeTrailingZeros (toFixed (if at_least abs 1 then digitsLarge else digitsSmall) v))"

definition adjustForMinimum :: "js_number \<Rightarrow> nat \<Rightarrow> rat \<Rightarrow> js_number" where
  "adjustForMinimum v digits minimumNonZero =
     (let threshold = (if 0 < minimumNonZero then minimumNonZero else 1 / 10 ^ digits) in
      case v of
        Fin x \<Rightarrow> if x \<noteq> 0 \<and> \<bar>x\<bar> < threshold then Fin (if 0 < x then threshold else - threshold) else v
      | _ \<Rightarrow> v)"

definition plain_options :: "ResolvedCurrencyFormatOptions \<Rightarrow> nat \<Rightarrow> IntlOptions" where
  "plain_options options digits =
     \<lparr>io_locale = ro_locale options, io_style = None, io_currency = None,
      io_notation = Some (if ro_compact options then ''compact'' else ''standard''),
      io_minimumFractionDigits = Some 0, io_maximumFractionDigits = (if ro_compact options then 1 else digits)\<rparr>"

definition compact_options :: "ResolvedCurrencyFormatOptions \<Rightarrow> IntlOptions" where
  "compact_options options =
     \<lparr>io_locale = ro_locale options, io_style = None, io_currency = None, io_notation = Some ''compact'',
      io_minimumFractionDigits = None, io_maximumFractionDigits = 1\<rparr>"

definition formatCurrencyValue :: "intl \<Rightarrow> js_number \<Rightarrow> ResolvedCurrencyFormatOptions \<Rightarrow> DisplayMeta \<Rightarrow> string" where
  "formatCurrencyValue intl v options meta =
     (let digits = (if at_least (num_abs v) 1 then ro_digitsLarge options else ro_digitsSmall options);
          adjustedValue = adjustForMinimum v digits (ro_minimumNonZero options) in
      case meta of
        TokensMeta q \<Rightarrow>
          if ro_compact options then intl (compact_options options) v
          else formatNumberWithSuffix v (ro_digitsLarge options) (ro_digitsSmall options) (ro_abbreviate options)
      | CurrencyMeta symbol code rate \<Rightarrow>
          if \<not> ro_showSymbol options then intl (plain_options options digits) adjustedValue
          else intl ((plain_options options digits)\<lparr>io_style := Some ''currency'', io_currency := Some code\<rparr>) adjustedValue
      | CustomMeta symbol rate \<Rightarrow>
          (let decimal = intl (plain_options options digits) adjustedValue in
           if ro_showSymbol options then symbol @ '' '' @ decimal else decimal))"

definition getCurrencyDisplay :: "SystemConfig \<Rightarrow> CurrencyConfig \<times> DisplayMeta" where
  "getCurrencyDisplay config = (getConfig config, getDisplayMeta (getConfig config))"

text \<open>\<open>amount == null || Number.isNaN(amount)\<close>.\<close>

definition no_amount :: "js_number option \<Rightarrow> bool" where
  "no_amount a \<longleftrightarrow> a = None \<or> a = Some NaN"

definition formatCurrencyFromUSD ::
    "intl \<Rightarrow> SystemConfig \<Rightarrow> js_number option \<Rightarrow> CurrencyFormatOptions option \<Rightarrow> string" where
  "formatCurrencyFromUSD intl config amountUSD options =
     (if no_amount amountUSD then ''-''
      else
        (let amount = the amountUSD; merged = mergeOptions options in
         case getCurrencyDisplay config of
           (cfg, TokensMeta q) \<Rightarrow>
             (let tokens = num_mul amount (Fin (cu_quotaPerUnit cfg)) in
              if ro_compact merged then intl (compact_options merged) tokens
              else formatNumberWithSuffix tokens 0 (ro_digitsSmall merged) (ro_abbreviate merged))
         | (cfg, meta) \<Rightarrow> formatCurrencyValue intl (num_mul amount (Fin (meta_exchangeRate meta))) merged meta))"

definition formatBillingCurrencyFromUSD ::
    "intl \<Rightarrow> SystemConfig \<Rightarrow> js_number option \<Rightarrow> CurrencyFormatOptions option \<Rightarrow> string" where
  "formatBillingCurrencyFromUSD intl config amountUSD options =
     (if no_amount amountUSD then ''-''
      else
        (let amount = the amountUSD; meta = getBillingDisplayMeta (fst (getCurrencyDisplay config)) in
         formatCurrencyValue intl
           (case meta of TokensMeta q \<Rightarrow> amount | _ \<Rightarrow> num_mul amount (Fin (meta_exchangeRate meta)))
           (mergeOptions options) meta))"

definition formatQuotaWithCurrency ::
    "intl \<Rightarrow> SystemConfig \<Rightarrow> js_number option \<Rightarrow> CurrencyFormatOptions option \<Rightarrow> string" where
  "formatQuotaWithCurrency intl config quota options =
     (if no_amount quota then ''-''
      else
        formatCurrencyFromUSD intl config
          (Some (num_div (the quota) (Fin (cu_quotaPerUnit (fst (getCurrencyDisplay config)))))) options)"

definition getCurrencyLabel :: "SystemConfig \<Rightarrow> string" where
  "getCurrencyLabel config =
     (case getCurrencyDisplay config of
        (cfg, TokensMeta q) \<Rightarrow> ''Tokens''
      | (cfg, meta) \<Rightarrow>
          (let t = cu_quotaDisplayType cfg in
           if t = ''CNY'' then ''CNY''
           else if t = ''CUSTOM'' then (case meta of CustomMeta symbol rate \<Rightarrow> symbol | _ \<Rightarrow> ''Custom'')
           else ''USD''))"

definition isCurrencyDisplayEnabled :: "SystemConfig \<Rightarrow> bool" where
  "isCurrencyDisplayEnabled config = (case snd (getCurrencyDisplay config) of TokensMeta q \<Rightarrow> False | _ \<Rightarrow> True)"

definition formatLocalCurrencyAmount ::
    "intl \<Rightarrow> SystemConfig \<Rightarrow> js_number option \<Rightarrow> CurrencyFormatOptions option \<Rightarrow> string" where
  "formatLocalCurrencyAmount intl config amount options =
     (if no_amount amount then ''-''
      else formatCurrencyValue intl (the amount) (mergeOptions options) (getBillingDisplayMeta (fst (getCurrencyDisplay config))))"

section \<open>Shown numbers\<close>

lemma drop_zeros:
  "list_all is_digit f \<Longrightarrow>
     \<exists>f' k. f = f' @ replicate k CHR ''0'' \<and> (f' = [] \<or> last f' \<noteq> CHR ''0'') \<and> list_all is_digit f'"
proof (induction f rule: rev_induct)
  case (snoc c f)
  show ?case
  proof (cases "c = CHR ''0''")
    case True
    from snoc obtain f' k where "f = f' @ replicate k CHR ''0''" "f' = [] \<or> last f' \<noteq> CHR ''0''" "list_all is_digit f'" by auto
    then show ?thesis
      using True by (intro exI [of _ f'] exI [of _ "Suc k"]) (simp add: replicate_append_same)
  next
    case False
    then show ?thesis using snoc.prems by (intro exI [of _ "f @ [c]"] exI [of _ 0]) simp
  qed
qed simp

lemma zeros_stripped:
  assumes "list_all is_digit f" "f = f' @ replicate k CHR ''0''" "f' = [] \<or> last f' \<noteq> CHR ''0''"
  shows "removeTrailingZeros (p @ CHR ''.'' # f) = (if f' = [] then p else p @ CHR ''.'' # f')"
proof -
  have nd: "CHR ''.'' \<notin> set f" using assms(1) by (auto simp: list_all_iff)
  have tw: "takeWhile (\<lambda>c. c \<noteq> CHR ''.'') (rev (p @ CHR ''.'' # f)) = rev f"
    using takeWhile_append2 [of "rev f" "\<lambda>c. c \<noteq> CHR ''.''" "CHR ''.'' # rev p"] nd by auto
  have rz: "dropWhile (\<lambda>c. c = CHR ''0'') (replicate k CHR ''0'' @ s) = dropWhile (\<lambda>c. c = CHR ''0'') s" for s
    by (induction k) simp_all
  have "rev (p @ CHR ''.'' # f) = replicate k CHR ''0'' @ rev f' @ CHR ''.'' # rev p" using assms(2) by simp
  then have dw: "dropWhile (\<lambda>c. c = CHR ''0'') (rev (p @ CHR ''.'' # f)) = rev f' @ CHR ''.'' # rev p"
    using assms(3) by (cases f' rule: rev_cases) (simp_all add: rz)
  have fd: "list_all is_digit (rev f)" using assms(1) by simp
  have e: "rev (rev f' @ CHR ''.'' # rev p) = p @ CHR ''.'' # f'" by simp
  have "removeTrailingZeros (p @ CHR ''.'' # f) =
      (if last (p @ CHR ''.'' # f') = CHR ''.'' then butlast (p @ CHR ''.'' # f') else p @ CHR ''.'' # f')"
    unfolding removeTrailingZeros_def Let_def tw dw e using fd by simp
  moreover have "f' = [] \<or> last f' \<noteq> CHR ''.''"
    using nd assms(2) by (metis Un_iff last_in_set set_append)
  ultimately show ?thesis by (cases f' rule: rev_cases) (auto simp: butlast_append)
qed

lemma read_append_zeros: "read_nat (s @ replicate k CHR ''0'') = read_nat s * 10 ^ k"
  by (induction k arbitrary: s) (simp_all add: read_nat_def digit_val_def flip: replicate_append_same)

lemma stripped_digits:
  assumes "list_all is_digit w" "w \<noteq> []" "list_all is_digit f"
  shows "\<exists>t. removeTrailingZeros (p @ w @ ''.'' @ f) = p @ t \<and>
    read_unsigned t = Some (of_nat (read_nat (w @ f)) / 10 ^ length f) \<and> js_Number t = read_unsigned t"
proof -
  obtain f' k where f: "f = f' @ replicate k CHR ''0''" "f' = [] \<or> last f' \<noteq> CHR ''0''" "list_all is_digit f'"
    using drop_zeros [OF assms(3)] by blast
  have "(of_nat (read_nat (w @ f)) :: rat) / 10 ^ length f = of_nat (read_nat (w @ f')) / 10 ^ length f'"
    unfolding f(1) append_assoc [symmetric] read_append_zeros by (simp add: power_add)
  moreover have "read_unsigned w = Some (of_nat (read_nat w))"
    using read_unsigned_digits [OF assms(1,2), of "[]"] read_plain(1) [OF assms(1,2)] by simp
  moreover have "read_unsigned (w @ ''.'' @ f') = Some (of_nat (read_nat (w @ f')) / 10 ^ length f')"
    using read_unsigned_digits [OF assms(1,2)] read_plain(2) [OF assms(1,2) f(3)] by simp
  moreover have "removeTrailingZeros (p @ w @ ''.'' @ f) = p @ (if f' = [] then w else w @ ''.'' @ f')"
    using zeros_stripped [OF assms(3) f(1,2), of "p @ w"] by simp
  moreover have "js_Number (if f' = [] then w else w @ ''.'' @ f') = read_unsigned (if f' = [] then w else w @ ''.'' @ f')"
    using read_unsigned_digits [OF assms(1,2), of "[]"] read_unsigned_digits [OF assms(1,2), of "''.'' @ f'"] by simp
  ultimately show ?thesis by (intro exI [of _ "if f' = [] then w else w @ ''.'' @ f'"]) simp
qed

lemma stripped_fixed:
  assumes "CHR ''.'' \<notin> set p"
  shows "\<exists>t. removeTrailingZeros (p @ fixed_digits d n) = p @ t \<and> read_unsigned t = Some (of_nat n / 10 ^ d) \<and>
    js_Number t = read_unsigned t"
proof -
  obtain w f where w: "fixed_digits d n = (if d = 0 then w else w @ ''.'' @ f)" "list_all is_digit w" "w \<noteq> []"
      "list_all is_digit f" "length f = d" "read_nat (w @ f) = n"
    using fixed_digits_form by blast
  show ?thesis
  proof (cases "d = 0")
    case True
    then have e: "f = []" "fixed_digits d n = w" "read_nat w = n" using w(1,5,6) by simp_all
    moreover have "CHR ''.'' \<notin> set w" using w(2) by (auto simp: list_all_iff)
    ultimately show ?thesis
      using True assms read_plain(1) [OF w(2,3)] read_unsigned_digits [OF w(2,3), of "[]"]
      by (intro exI [of _ w]) (simp add: removeTrailingZeros_def)
  next
    case False
    then have "fixed_digits d n = w @ ''.'' @ f" using w(1) by simp
    then show ?thesis using stripped_digits [OF w(2,3,4), of p] unfolding w(5,6) by simp
  qed
qed

lemma fixed_text_reads:
  assumes "\<bar>x\<bar> < 10 ^ 21"
  shows "js_Number (removeTrailingZeros (toFixed d (Fin x))) = Some (rounded d x)"
proof -
  let ?n = "nat \<lfloor>\<bar>x\<bar> * 10 ^ d + 1 / 2\<rfloor>" and ?p = "if x < 0 then ''-'' else []"
  have n: "(of_nat ?n :: rat) = of_int \<lfloor>\<bar>x\<bar> * 10 ^ d + 1 / 2\<rfloor>" by (simp add: of_nat_nat)
  have "toFixed d (Fin x) = ?p @ fixed_digits d ?n" using assms by (simp add: toFixed_def)
  moreover obtain t where "removeTrailingZeros (?p @ fixed_digits d ?n) = ?p @ t"
      "read_unsigned t = Some (of_nat ?n / 10 ^ d)" "js_Number t = read_unsigned t"
    using stripped_fixed [of ?p d ?n] by auto
  ultimately show ?thesis
    unfolding rounded_def n by (cases "x < 0") (simp_all add: js_Number_minus)
qed



section \<open>Converted amounts\<close>

lemma config_positive:
  "0 < cu_quotaPerUnit (getConfig config)" "0 < cu_usdExchangeRate (getConfig config)"
  "0 < cu_customCurrencyExchangeRate (getConfig config)"
  by (auto simp: getConfig_def positive_or_def DEFAULT_CURRENCY_CONFIG_def Let_def split: option.splits)

lemma rate_positive: "0 < meta_exchangeRate (getBillingDisplayMeta (getConfig config))"
  using config_positive
  by (auto simp: getBillingDisplayMeta_def getDisplayMeta_def dollars_def Let_def split: DisplayMeta.splits)

lemma billing_meta_currency: "getBillingDisplayMeta cfg \<noteq> TokensMeta q"
  by (auto simp: getBillingDisplayMeta_def dollars_def split: DisplayMeta.splits)

lemma billing_converted:
  "formatBillingCurrencyFromUSD intl config (Some a) options =
     formatLocalCurrencyAmount intl config
       (Some (num_mul a (Fin (meta_exchangeRate (getBillingDisplayMeta (getConfig config)))))) options"
proof -
  let ?m = "getBillingDisplayMeta (getConfig config)"
  have "0 < meta_exchangeRate ?m" by (rule rate_positive)
  then have "num_mul a (Fin (meta_exchangeRate ?m)) = NaN \<longleftrightarrow> a = NaN"
    by (cases a) (auto simp: num_mul_def)
  then show ?thesis
    using billing_meta_currency [of "getConfig config"]
    by (cases ?m) (auto simp: formatBillingCurrencyFromUSD_def formatLocalCurrencyAmount_def getCurrencyDisplay_def no_amount_def Let_def)
qed

lemma currency_is_billing:
  assumes "isCurrencyDisplayEnabled config"
  shows "formatCurrencyFromUSD intl config a options = formatBillingCurrencyFromUSD intl config a options"
  using assms
  by (cases "getDisplayMeta (getConfig config)")
    (simp_all add: formatCurrencyFromUSD_def formatBillingCurrencyFromUSD_def isCurrencyDisplayEnabled_def getCurrencyDisplay_def
      getBillingDisplayMeta_def Let_def)

text \<open>The examples in the comments of the file: a count of tokens is not grouped but abbreviated, and a custom symbol is
  followed by a space.\<close>

definition token_config :: SystemConfig where
  "token_config =
     \<lparr>sc_systemName = [], sc_logo = [], sc_footerHtml = None, sc_demoSiteEnabled = None, sc_displayTokenStatEnabled = None,
      sc_currency = Some (no_currency\<lparr>pc_quotaDisplayType := Some ''TOKENS''\<rparr>)\<rparr>"

lemma tokens_abbreviated: "formatCurrencyFromUSD intl token_config (Some (Fin 10)) None = ''5000k''"
proof -
  have f: "\<lfloor>100001 / 2 :: rat\<rfloor> = 50000" by (rule floor_unique) simp_all
  have n: "show_nat 50000 = ''50000''" by (simp add: show_nat_steps digit_chars)
  have "toFixed 1 (Fin 5000) = ''5000.0''"
    by (simp add: toFixed_def f fixed_digits_def pad_start_def n Let_def)
  then have "formatNumberWithSuffix (Fin 5000000) 0 4 True = ''5000k''"
    by (simp add: formatNumberWithSuffix_def num_abs_def at_least_def num_div_def removeTrailingZeros_def is_digit_def)
  then show ?thesis
    by (simp add: formatCurrencyFromUSD_def token_config_def getCurrencyDisplay_def getDisplayMeta_def getConfig_def no_currency_def
        no_amount_def DEFAULT_CURRENCY_CONFIG_def positive_or_def mergeOptions_def DEFAULT_FORMAT_OPTIONS_def num_mul_def js_ops)
qed

end
