(* ===== verification/Format.thy ===== *)
theory Format
  imports Currency "HOL-Library.Word"
begin

text \<open>
  The display helpers of \<open>lib/format.ts\<close>. \<open>dayjs\<close>, \<open>Date\<close>, \<open>Intl.NumberFormat\<close> and \<open>Intl.RelativeTimeFormat\<close> are parameters.
  The colour hash works on UTF-16 code units; its integers are kept to 32 bits the way the bitwise operators of the language do.
\<close>

section \<open>Numbers and quotas\<close>

definition number_options :: "string option \<Rightarrow> string option \<Rightarrow> string option \<Rightarrow> nat \<Rightarrow> IntlOptions" where
  "number_options locales style notation digits =
     \<lparr>io_locale = locales, io_style = style, io_currency = None, io_notation = notation, io_minimumFractionDigits = None,
      io_maximumFractionDigits = digits\<rparr>"

definition formatNumber :: "intl \<Rightarrow> js_number option \<Rightarrow> string option \<Rightarrow> string" where
  "formatNumber intl v locales = (if no_amount v then ''-'' else intl (number_options locales None None 2) (the v))"

definition formatCompactNumber :: "intl \<Rightarrow> js_number option \<Rightarrow> string option \<Rightarrow> string" where
  "formatCompactNumber intl v locales =
     (if no_amount v then ''-'' else intl (number_options locales None (Some ''compact'') 1) (the v))"

definition formatPercent :: "intl \<Rightarrow> js_number option \<Rightarrow> string" where
  "formatPercent intl v =
     (if no_amount v then ''-'' else intl (number_options None (Some ''percent'') None 2) (num_div (the v) (Fin 100)))"

definition formatCurrencyUSD :: "intl \<Rightarrow> SystemConfig \<Rightarrow> js_number option \<Rightarrow> string" where
  "formatCurrencyUSD intl config v = formatCurrencyFromUSD intl config v None"

definition digit_options :: "nat \<Rightarrow> nat \<Rightarrow> bool \<Rightarrow> CurrencyFormatOptions" where
  "digit_options large small abbreviate =
     \<lparr>fo_digitsLarge = Some large, fo_digitsSmall = Some small, fo_abbreviate = Some abbreviate, fo_minimumNonZero = None,
      fo_compact = None, fo_showSymbol = None, fo_locale = None\<rparr>"

definition formatQuota :: "intl \<Rightarrow> SystemConfig \<Rightarrow> js_number \<Rightarrow> string" where
  "formatQuota intl config quota = formatQuotaWithCurrency intl config (Some quota) (Some (digit_options 2 4 True))"

definition formatLogQuota :: "intl \<Rightarrow> SystemConfig \<Rightarrow> js_number \<Rightarrow> string" where
  "formatLogQuota intl config quota = formatQuotaWithCurrency intl config (Some quota) (Some (digit_options 4 6 False))"

definition parseQuotaFromDollars :: "SystemConfig \<Rightarrow> js_number \<Rightarrow> int" where
  "parseQuotaFromDollars config amount =
     (case amount of
        Fin a \<Rightarrow>
          (case getCurrencyDisplay config of
             (cfg, TokensMeta q) \<Rightarrow> math_round a
           | (cfg, meta) \<Rightarrow>
               (let exchangeRate = meta_exchangeRate meta;
                    usdAmount = (if 0 < exchangeRate then a / exchangeRate else a) in
                math_round (usdAmount * cu_quotaPerUnit cfg)))
      | _ \<Rightarrow> 0)"

definition quotaUnitsToDollars :: "SystemConfig \<Rightarrow> rat \<Rightarrow> rat" where
  "quotaUnitsToDollars config units =
     (case getCurrencyDisplay config of
        (cfg, TokensMeta q) \<Rightarrow> units
      | (cfg, meta) \<Rightarrow> units / cu_quotaPerUnit cfg * meta_exchangeRate meta)"

definition formatTokens :: "rat \<Rightarrow> string" where
  "formatTokens tokens =
     (if tokens = 0 then ''-''
      else if tokens < 1000 then show_num tokens
      else if tokens < 1000000 then toFixed 1 (Fin (tokens / 1000)) @ ''K''
      else toFixed 2 (Fin (tokens / 1000000)) @ ''M'')"

definition formatUseTime :: "rat \<Rightarrow> string" where
  "formatUseTime seconds =
     (if seconds < 60 then toFixed 1 (Fin seconds) @ ''s''
      else
        (let minutes = \<lfloor>seconds / 60\<rfloor>; remainingSeconds = seconds - 60 * of_int \<lfloor>seconds / 60\<rfloor> in
         show_int minutes @ ''m '' @ toFixed 0 (Fin remainingSeconds) @ ''s''))"

section \<open>Timestamps\<close>

type_synonym dayjs = "rat \<Rightarrow> string \<Rightarrow> string"

datatype time_unit = Seconds | Milliseconds

text \<open>\<open>!timestamp || timestamp === -1 || timestamp === 0\<close>.\<close>

definition no_timestamp :: "rat option \<Rightarrow> bool" where
  "no_timestamp t \<longleftrightarrow> t = None \<or> t = Some 0 \<or> t = Some (-1)"

definition in_ms :: "rat \<Rightarrow> time_unit \<Rightarrow> rat" where
  "in_ms timestamp unit = (case unit of Seconds \<Rightarrow> timestamp * 1000 | Milliseconds \<Rightarrow> timestamp)"

definition formatTimestampToDate :: "dayjs \<Rightarrow> rat option \<Rightarrow> time_unit \<Rightarrow> string" where
  "formatTimestampToDate dayjs timestamp unit =
     (if no_timestamp timestamp then ''-'' else dayjs (in_ms (the timestamp) unit) ''YYYY-MM-DD HH:mm:ss'')"

definition formatTimestamp :: "dayjs \<Rightarrow> rat \<Rightarrow> string" where
  "formatTimestamp dayjs timestamp =
     (if timestamp = -1 then ''Never'' else formatTimestampToDate dayjs (Some timestamp) Seconds)"

definition formatTimestampRelative ::
    "(int \<Rightarrow> string \<Rightarrow> string) \<Rightarrow> rat \<Rightarrow> rat option \<Rightarrow> time_unit \<Rightarrow> string" where
  "formatTimestampRelative formatter now timestamp unit =
     (if no_timestamp timestamp then ''-''
      else
        (let diffSeconds = math_round ((in_ms (the timestamp) unit - now) / 1000); absSeconds = \<bar>diffSeconds\<bar>;
             in_unit = (\<lambda>n. math_round (of_int diffSeconds / n)) in
         if absSeconds < 60 then formatter diffSeconds ''second''
         else if absSeconds < 3600 then formatter (in_unit 60) ''minute''
         else if absSeconds < 86400 then formatter (in_unit 3600) ''hour''
         else if absSeconds < 2592000 then formatter (in_unit 86400) ''day''
         else if absSeconds < 31536000 then formatter (in_unit 2592000) ''month''
         else formatter (in_unit 31536000) ''year''))"

definition formatDateTimeStr :: "dayjs \<Rightarrow> rat \<Rightarrow> string" where
  "formatDateTimeStr dayjs date = dayjs date ''YYYY-MM-DD HH:mm:ss''"

definition formatDateStr :: "dayjs \<Rightarrow> rat \<Rightarrow> string" where
  "formatDateStr dayjs date = dayjs date ''YYYY-MM-DD''"

definition formatTimeStr :: "dayjs \<Rightarrow> rat \<Rightarrow> string" where
  "formatTimeStr dayjs date = dayjs date ''HH:mm:ss''"

definition formatTimestampForInput :: "dayjs \<Rightarrow> rat \<Rightarrow> string" where
  "formatTimestampForInput dayjs timestamp =
     (if timestamp = -1 then [] else dayjs (timestamp * 1000) ''YYYY-MM-DDTHH:mm'')"

text \<open>\<open>Math.floor\<close> of the time of a date; \<open>None\<close> is an invalid date.\<close>

definition parseTimestampFromInput :: "(string \<Rightarrow> rat option) \<Rightarrow> string \<Rightarrow> js_number" where
  "parseTimestampFromInput getTime v =
     (if v = [] then Fin (-1)
      else (case getTime v of None \<Rightarrow> NaN | Some ms \<Rightarrow> Fin (of_int \<lfloor>ms / 1000\<rfloor>)))"

section \<open>Colours\<close>

definition toInt32 :: "int \<Rightarrow> int" where
  "toInt32 x = (x + 2 ^ 31) mod 2 ^ 32 - 2 ^ 31"

definition hash_step :: "int \<Rightarrow> 16 word \<Rightarrow> int" where
  "hash_step hash code = toInt32 (uint code + (toInt32 (hash * 2 ^ 5) - hash))"

definition string_hash :: "16 word list \<Rightarrow> int" where
  "string_hash str = foldl hash_step 0 str"

text \<open>The remainder takes the sign of the dividend.\<close>

definition js_rem :: "int \<Rightarrow> int \<Rightarrow> int" where
  "js_rem a b = sgn a * (\<bar>a\<bar> mod \<bar>b\<bar>)"

definition color_parts :: "int \<Rightarrow> int \<times> int \<times> int" where
  "color_parts hash = (\<bar>js_rem hash 360\<bar>, 65 + js_rem \<bar>hash\<bar> 10, 55 + js_rem \<bar>hash div 2 ^ 8\<bar> 10)"

definition stringToColor :: "16 word list \<Rightarrow> string" where
  "stringToColor str =
     (if str = [] then ''gray''
      else
        (case color_parts (string_hash str) of
           (hue, saturation, lightness) \<Rightarrow>
             ''hsl('' @ show_int hue @ '', '' @ show_int saturation @ ''%, '' @ show_int lightness @ ''%)''))"

section \<open>Properties\<close>


lemma toInt32_word: "toInt32 x = sint (word_of_int x :: 32 word)"
  unfolding toInt32_def by transfer (simp add: signed_take_bit_eq_take_bit_shift take_bit_eq_mod)

lemma hash_step_word: "hash_step (sint (w :: 32 word)) code = sint (31 * w + ucast code)"
proof -
  have u: "word_of_int (uint code) = (ucast code :: 32 word)" by simp
  have "(word_of_int (uint code + (toInt32 (sint w * 2 ^ 5) - sint w)) :: 32 word) =
      word_of_int (uint code) + (word_of_int (sint w) * 2 ^ 5 - word_of_int (sint w))"
    by (simp add: toInt32_word)
  also have "\<dots> = 31 * w + ucast code" unfolding u by simp
  finally show ?thesis unfolding hash_step_def by (subst toInt32_word) (simp only:)
qed

lemma string_hash_word: "string_hash str = sint (foldl (\<lambda>h code. 31 * h + ucast code) (0 :: 32 word) str)"
proof -
  have "foldl hash_step (sint w) str = sint (foldl (\<lambda>h code. 31 * h + ucast code) (w :: 32 word) str)" for w
    by (induction str arbitrary: w) (simp_all add: hash_step_word)
  from this [of 0] show ?thesis by (simp add: string_hash_def)
qed

text \<open>C37: The colour of a text. The hash is the usual polynomial of the code units in 32-bit arithmetic, and for every text the
  hue is an angle of the colour circle, the saturation between 65 and 74 and the lightness between 55 and 64 percent.\<close>

theorem color_in_range:
  "string_hash str = sint (foldl (\<lambda>h code. 31 * h + ucast code) (0 :: 32 word) str) \<and>
   (\<exists>hue saturation lightness. color_parts (string_hash str) = (hue, saturation, lightness) \<and>
      0 \<le> hue \<and> hue < 360 \<and> 65 \<le> saturation \<and> saturation \<le> 74 \<and> 55 \<le> lightness \<and> lightness \<le> 64)"
proof
  have r: "0 \<le> js_rem \<bar>a\<bar> 10 \<and> js_rem \<bar>a\<bar> 10 \<le> 9" for a
    using pos_mod_bound [of 10 "\<bar>a\<bar>"] by (auto simp: js_rem_def sgn_if)
  have h: "0 \<le> \<bar>js_rem a 360\<bar> \<and> \<bar>js_rem a 360\<bar> < 360" for a
    using pos_mod_bound [of 360 "\<bar>a\<bar>"] by (auto simp: js_rem_def sgn_if abs_mult)
  show "\<exists>hue saturation lightness. color_parts (string_hash str) = (hue, saturation, lightness) \<and>
      0 \<le> hue \<and> hue < 360 \<and> 65 \<le> saturation \<and> saturation \<le> 74 \<and> 55 \<le> lightness \<and> lightness \<le> 64"
    unfolding color_parts_def using r [of "string_hash str"] r [of "string_hash str div 2 ^ 8"] h [of "string_hash str"] by auto
qed (rule string_hash_word)

text \<open>Durations and counts just below a unit: a duration that lacks at most half a second of a full minute is shown with sixty
  seconds, and a count of almost a million tokens as a thousand thousands.\<close>

lemma sixty_seconds_shown:
  assumes "1 \<le> k" "119 / 2 \<le> r" "r < 60"
  shows "formatUseTime (60 * of_nat k + r) = show_nat k @ ''m 60s''"
proof -
  have m: "\<lfloor>(60 * of_nat k + r) / 60\<rfloor> = int k" using assms by (intro floor_unique) (simp_all add: field_simps)
  have c: "\<lfloor>r + 1 / 2\<rfloor> = 60" using assms by (intro floor_unique) simp_all
  have k: "(1::rat) \<le> of_nat k" using assms(1) by simp
  have "\<not> 60 * of_nat k + r < 60" "\<not> r < 0" "\<not> 10 ^ 21 \<le> \<bar>r\<bar>" using assms k by simp_all
  moreover have "show_nat 60 = ''60''" by (simp add: show_nat_steps digit_chars)
  ultimately show ?thesis
    using c m by (simp add: formatUseTime_def toFixed_def fixed_digits_def show_int_def Let_def)
qed

lemma thousand_thousands_shown: "formatTokens 999999 = ''1000.0K''"
proof -
  have f: "\<lfloor>1000049 / 100 :: rat\<rfloor> = 10000" by (rule floor_unique) simp_all
  have n: "show_nat 10000 = ''10000''" by (simp add: show_nat_steps digit_chars digit_chars(2) [simplified])
  then show ?thesis by (simp add: formatTokens_def toFixed_def fixed_digits_def pad_start_def f Let_def)
qed

end
