(* ===== verification/RequestRules.thy ===== *)
theory RequestRules
  imports Json "HOL-Library.Monad_Syntax"
begin

text \<open>
  Billing expressions with request rules: \<open>features/pricing/lib/billing-expr.ts\<close>, from the constants of the
  rules on. A rule group is printed as a factor \<open>(conditions ? multiplier : 1)\<close> of the billing expression
  and read back by splitting the text at the top-level operators and matching regular expressions.

  A regular expression of the source is a matcher here; each of them is anchored at both ends and has at
  most one match, so the matcher follows it from left to right. The result \<open>None\<close> of a function that may
  throw is the \<open>SyntaxError\<close> of \<open>JSON.parse\<close>; \<open>Some None\<close> is \<open>null\<close>.
\<close>

section \<open>Constants and types\<close>

definition SOURCE_PARAM :: string where "SOURCE_PARAM = ''param''"
definition SOURCE_HEADER :: string where "SOURCE_HEADER = ''header''"
definition SOURCE_TIME :: string where "SOURCE_TIME = ''time''"
definition MATCH_EQ :: string where "MATCH_EQ = ''eq''"
definition MATCH_CONTAINS :: string where "MATCH_CONTAINS = ''contains''"
definition MATCH_GT :: string where "MATCH_GT = ''gt''"
definition MATCH_GTE :: string where "MATCH_GTE = ''gte''"
definition MATCH_LT :: string where "MATCH_LT = ''lt''"
definition MATCH_LTE :: string where "MATCH_LTE = ''lte''"
definition MATCH_EXISTS :: string where "MATCH_EXISTS = ''exists''"
definition MATCH_RANGE :: string where "MATCH_RANGE = ''range''"

lemmas mode_defs = MATCH_EQ_def MATCH_CONTAINS_def MATCH_GT_def MATCH_GTE_def MATCH_LT_def MATCH_LTE_def
  MATCH_EXISTS_def MATCH_RANGE_def SOURCE_PARAM_def SOURCE_HEADER_def SOURCE_TIME_def

definition TIME_FUNCS :: "string list" where
  "TIME_FUNCS = [''hour'', ''minute'', ''weekday'', ''month'', ''day'']"

definition COMMON_TIMEZONES :: "(string \<times> string) list" where
  "COMMON_TIMEZONES =
     [(''Asia/Shanghai'', ''UTC+8 Shanghai (Asia/Shanghai)''), (''UTC'', ''UTC''),
      (''America/New_York'', ''UTC-5 New York (America/New_York)''),
      (''America/Los_Angeles'', ''UTC-8 Los Angeles (America/Los_Angeles)''),
      (''America/Chicago'', ''UTC-6 Chicago (America/Chicago)''),
      (''Europe/London'', ''UTC+0 London (Europe/London)''),
      (''Europe/Berlin'', ''UTC+1 Berlin (Europe/Berlin)''),
      (''Asia/Tokyo'', ''UTC+9 Tokyo (Asia/Tokyo)''),
      (''Asia/Singapore'', ''UTC+8 Singapore (Asia/Singapore)''),
      (''Asia/Seoul'', ''UTC+9 Seoul (Asia/Seoul)''),
      (''Australia/Sydney'', ''UTC+10 Sydney (Australia/Sydney)'')]"

record ParamHeaderCondition =
  ph_source :: string
  ph_path :: string
  ph_mode :: string
  ph_value :: string

record TimeCondition =
  tc_timeFunc :: string
  tc_timezone :: string
  tc_mode :: string
  tc_value :: string
  tc_rangeStart :: string
  tc_rangeEnd :: string

datatype RequestCondition = ParamHeader ParamHeaderCondition | TimeCond TimeCondition

record RequestRuleGroup =
  rg_conditions :: "RequestCondition list"
  rg_multiplier :: string

section \<open>Texts\<close>

text \<open>The character class \<open>[\d.eE+-]\<close>, and \<open>/^-?(?:\d+\.?\d*|\.\d+)(?:[eE][+-]?\d+)?$/\<close>.\<close>

definition num_char :: "char \<Rightarrow> bool" where
  "num_char c \<longleftrightarrow> is_digit c \<or> c \<in> set ''.eE+-''"

definition exponent_ok :: "string \<Rightarrow> bool" where
  "exponent_ok s =
     (case s of
        [] \<Rightarrow> True
      | c # r \<Rightarrow>
          c \<in> set ''eE'' \<and>
          (let ds = (case r of [] \<Rightarrow> [] | d # q \<Rightarrow> if d \<in> set ''+-'' then q else d # q) in
           ds \<noteq> [] \<and> list_all is_digit ds))"

definition numeric_literal :: "string \<Rightarrow> bool" where
  "numeric_literal s =
     (let t = (case s of [] \<Rightarrow> [] | c # r \<Rightarrow> if c = CHR ''-'' then r else c # r);
          whole = takeWhile is_digit t; rest = dropWhile is_digit t in
      if whole \<noteq> [] then
        (case rest of
           [] \<Rightarrow> True
         | c # r \<Rightarrow> if c = CHR ''.'' then exponent_ok (dropWhile is_digit r) else exponent_ok (c # r))
      else
        (case rest of
           [] \<Rightarrow> False
         | c # r \<Rightarrow> c = CHR ''.'' \<and> takeWhile is_digit r \<noteq> [] \<and> exponent_ok (dropWhile is_digit r)))"

text \<open>A line terminator, which \<open>.\<close> does not match: LF, CR, U+2028 and U+2029.\<close>

definition starts_line_end :: "string \<Rightarrow> bool" where
  "starts_line_end s \<longleftrightarrow>
     startsWith s [CHR 0x0A] \<or> startsWith s [CHR 0x0D] \<or>
     startsWith s [CHR 0xE2, CHR 0x80, CHR 0xA8] \<or> startsWith s [CHR 0xE2, CHR 0x80, CHR 0xA9]"

fun has_line_end :: "string \<Rightarrow> bool" where
  "has_line_end [] = False"
| "has_line_end (c # s) = (starts_line_end (c # s) \<or> has_line_end s)"

section \<open>Matchers\<close>

definition strip_prefix :: "string \<Rightarrow> string \<Rightarrow> string option" where
  "strip_prefix p s = (if startsWith s p then Some (drop (length p) s) else None)"

text \<open>\<open>([^"]+)"\<close> and \<open>([\d.eE+-]+)\<close>: the captured text and what follows.\<close>

definition m_name :: "string \<Rightarrow> (string \<times> string) option" where
  "m_name s =
     (let t = takeWhile (\<lambda>c. c \<noteq> CHR 0x22) s; r = dropWhile (\<lambda>c. c \<noteq> CHR 0x22) s in
      if t = [] \<or> r = [] then None else Some (t, tl r))"

definition m_number :: "string \<Rightarrow> (string \<times> string) option" where
  "m_number s =
     (let t = takeWhile num_char s in if t = [] then None else Some (t, dropWhile num_char s))"

definition m_end :: "string \<Rightarrow> unit option" where
  "m_end s = (if s = [] then Some () else None)"

text \<open>One of the alternatives, with the text that must follow it.\<close>

definition m_one_of :: "string list \<Rightarrow> string \<Rightarrow> string \<Rightarrow> (string \<times> string) option" where
  "m_one_of alternatives follow s =
     (case find (\<lambda>a. startsWith s (a @ follow)) alternatives of
        None \<Rightarrow> None
      | Some a \<Rightarrow> Some (a, drop (length (a @ follow)) s))"

text \<open>The rest of a string literal \<open>"(?:[^"\\]|\\.)*"\<close> after its opening quote: the text up to and with
  the closing quote, and what follows.\<close>

fun m_literal_tail :: "string \<Rightarrow> (string \<times> string) option" where
  "m_literal_tail [] = None"
| "m_literal_tail (c # s) =
     (if c = CHR 0x22 then Some ([c], s)
      else if c = CHR 0x5C then
        (case s of
           [] \<Rightarrow> None
         | d # r \<Rightarrow>
             if starts_line_end (d # r) then None
             else map_option (\<lambda>(t, q). (c # d # t, q)) (m_literal_tail r))
      else map_option (\<lambda>(t, q). (c # t, q)) (m_literal_tail s))"

definition m_literal :: "string \<Rightarrow> (string \<times> string) option" where
  "m_literal s = do {
     r \<leftarrow> strip_prefix [CHR 0x22] s;
     (t, q) \<leftarrow> m_literal_tail r;
     Some (CHR 0x22 # t, q) }"

abbreviation dq :: string where
  "dq \<equiv> [CHR 0x22]"

section \<open>Splitting\<close>

definition bump :: "int \<Rightarrow> char \<Rightarrow> int" where
  "bump depth c = (let d = (if c = CHR ''('' then depth + 1 else depth) in if c = CHR '')'' then d - 1 else d)"

text \<open>The loop of the two splitters; \<open>cur\<close> is the text from \<open>start\<close> to the current index.\<close>

fun split_loop :: "string \<Rightarrow> int \<Rightarrow> string \<Rightarrow> string \<Rightarrow> string list" where
  "split_loop sep depth cur [] = [trim cur]"
| "split_loop sep depth cur (c # s) =
     (if bump depth c = 0 \<and> startsWith (c # s) sep
      then trim cur # split_loop sep (bump depth c) [] (drop (length sep - 1) s)
      else split_loop sep (bump depth c) (cur @ [c]) s)"

definition splitTopLevelMultiply :: "string \<Rightarrow> string list" where
  "splitTopLevelMultiply expr = filter (\<lambda>part. part \<noteq> []) (split_loop '' * '' 0 [] expr)"

definition splitTopLevelAnd :: "string \<Rightarrow> string list" where
  "splitTopLevelAnd expr = filter (\<lambda>part. part \<noteq> []) (split_loop '' && '' 0 [] expr)"

section \<open>Reading conditions\<close>

definition parseExprLiteral :: "string \<Rightarrow> jsv option" where
  "parseExprLiteral raw =
     (let t = trim raw in
      if t = ''true'' \<or> t = ''false'' then Some (JStr t)
      else if numeric_literal t then Some (JStr t)
      else (case JSON_parse t of None \<Rightarrow> None | Some JNull \<Rightarrow> None | Some v \<Rightarrow> Some v))"

text \<open>\<open>fn("tz") >= a || fn("tz") < b\<close>, up to what follows \<open>b\<close>.\<close>

definition m_time_range :: "string \<Rightarrow> ((string \<times> string \<times> string \<times> string) \<times> string) option" where
  "m_time_range s = do {
     (fn, r1) \<leftarrow> m_one_of TIME_FUNCS (''('' @ dq) s;
     (tz, r2) \<leftarrow> m_name r1;
     r3 \<leftarrow> strip_prefix '') >= '' r2;
     (a, r4) \<leftarrow> m_number r3;
     r5 \<leftarrow> strip_prefix ('' || '' @ fn @ ''('' @ dq @ tz @ dq @ '') < '') r4;
     (b, r6) \<leftarrow> m_number r5;
     Some ((fn, tz, a, b), r6) }"

definition range_condition :: "string \<times> string \<times> string \<times> string \<Rightarrow> RequestCondition" where
  "range_condition m =
     (case m of (fn, tz, a, b) \<Rightarrow>
        TimeCond \<lparr>tc_timeFunc = fn, tc_timezone = tz, tc_mode = MATCH_RANGE, tc_value = [],
                  tc_rangeStart = a, tc_rangeEnd = b\<rparr>)"

definition m_time_compare :: "string \<Rightarrow> (string \<times> string \<times> string \<times> string) option" where
  "m_time_compare s = do {
     (fn, r1) \<leftarrow> m_one_of TIME_FUNCS (''('' @ dq) s;
     (tz, r2) \<leftarrow> m_name r1;
     r3 \<leftarrow> strip_prefix '') '' r2;
     (opr, r4) \<leftarrow> m_one_of [''=='', ''>='', ''<''] '' '' r3;
     (v, r5) \<leftarrow> m_number r4;
     m_end r5;
     Some (fn, tz, opr, v) }"

definition time_op_mode :: "string \<Rightarrow> string" where
  "time_op_mode opr =
     opt_str_or (map_of [(''=='', MATCH_EQ), (''>='', MATCH_GTE), (''<'', MATCH_LT)] opr) MATCH_EQ"

definition tryParseTimeCondition :: "string \<Rightarrow> RequestCondition option" where
  "tryParseTimeCondition expr =
     (case do { (m, r) \<leftarrow> m_time_range expr; m_end r; Some m } of
        Some m \<Rightarrow> Some (range_condition m)
      | None \<Rightarrow>
          (case do { s \<leftarrow> strip_prefix ''('' expr; (m, r) \<leftarrow> m_time_range s; q \<leftarrow> strip_prefix '')'' r; m_end q; Some m } of
             Some m \<Rightarrow> Some (range_condition m)
           | None \<Rightarrow>
               (case m_time_compare expr of
                  Some (fn, tz, opr, v) \<Rightarrow>
                    Some (TimeCond \<lparr>tc_timeFunc = fn, tc_timezone = tz, tc_mode = time_op_mode opr, tc_value = v,
                                    tc_rangeStart = [], tc_rangeEnd = []\<rparr>)
                | None \<Rightarrow> None)))"

definition m_header_exists :: "string \<Rightarrow> string option" where
  "m_header_exists s = do {
     r1 \<leftarrow> strip_prefix (''header('' @ dq) s;
     (path, r2) \<leftarrow> m_name r1;
     r3 \<leftarrow> strip_prefix ('') != '' @ dq @ dq) r2;
     m_end r3;
     Some path }"

definition m_param_exists :: "string \<Rightarrow> string option" where
  "m_param_exists s = do {
     r1 \<leftarrow> strip_prefix (''param('' @ dq) s;
     (path, r2) \<leftarrow> m_name r1;
     r3 \<leftarrow> strip_prefix '') != nil'' r2;
     m_end r3;
     Some path }"

definition m_header_contains :: "string \<Rightarrow> (string \<times> string) option" where
  "m_header_contains s = do {
     r1 \<leftarrow> strip_prefix (''has(header('' @ dq) s;
     (path, r2) \<leftarrow> m_name r1;
     r3 \<leftarrow> strip_prefix ''), '' r2;
     (literal, r4) \<leftarrow> m_literal r3;
     r5 \<leftarrow> strip_prefix '')'' r4;
     m_end r5;
     Some (path, literal) }"

definition m_param_contains :: "string \<Rightarrow> (string \<times> string \<times> string) option" where
  "m_param_contains s = do {
     r1 \<leftarrow> strip_prefix (''param('' @ dq) s;
     (path, r2) \<leftarrow> m_name r1;
     r3 \<leftarrow> strip_prefix ('') != nil && has(param('' @ dq) r2;
     (path2, r4) \<leftarrow> m_name r3;
     r5 \<leftarrow> strip_prefix ''), '' r4;
     (literal, r6) \<leftarrow> m_literal r5;
     r7 \<leftarrow> strip_prefix '')'' r6;
     m_end r7;
     Some (path, path2, literal) }"

definition m_param_compare :: "string \<Rightarrow> (string \<times> string \<times> string \<times> string) option" where
  "m_param_compare s = do {
     r1 \<leftarrow> strip_prefix (''param('' @ dq) s;
     (path, r2) \<leftarrow> m_name r1;
     r3 \<leftarrow> strip_prefix ('') != nil && param('' @ dq) r2;
     (path2, r4) \<leftarrow> m_name r3;
     r5 \<leftarrow> strip_prefix '') '' r4;
     (opr, r6) \<leftarrow> m_one_of [''>'', ''>='', ''<'', ''<=''] '' '' r5;
     (v, r7) \<leftarrow> m_number r6;
     m_end r7;
     Some (path, path2, opr, v) }"

definition m_equals :: "string \<Rightarrow> (string \<times> string \<times> string) option" where
  "m_equals s = do {
     (source, r1) \<leftarrow> m_one_of [''param'', ''header''] (''('' @ dq) s;
     (path, r2) \<leftarrow> m_name r1;
     r3 \<leftarrow> strip_prefix '') == '' r2;
     (if r3 = [] \<or> has_line_end r3 then None else Some (source, path, r3)) }"

definition compare_op_mode :: "string \<Rightarrow> string" where
  "compare_op_mode opr =
     nullish (map_of [(''>'', MATCH_GT), (''>='', MATCH_GTE), (''<'', MATCH_LT), (''<='', MATCH_LTE)] opr) []"

definition param_header :: "string \<Rightarrow> string \<Rightarrow> string \<Rightarrow> string \<Rightarrow> RequestCondition" where
  "param_header source path mode v =
     ParamHeader \<lparr>ph_source = source, ph_path = path, ph_mode = mode, ph_value = v\<rparr>"

text \<open>\<open>JSON.parse(m) as string\<close> of a matched string literal.\<close>

definition literal_text :: "string \<Rightarrow> string option" where
  "literal_text literal = map_option js_to_string (JSON_parse literal)"

definition tryParseRequestCondition :: "string \<Rightarrow> RequestCondition option option" where
  "tryParseRequestCondition expr =
     (case tryParseTimeCondition expr of
        Some tc \<Rightarrow> Some (Some tc)
      | None \<Rightarrow>
     (case m_header_exists expr of
        Some path \<Rightarrow> Some (Some (param_header ''header'' path MATCH_EXISTS []))
      | None \<Rightarrow>
     (case m_param_exists expr of
        Some path \<Rightarrow> Some (Some (param_header ''param'' path MATCH_EXISTS []))
      | None \<Rightarrow>
     (case m_header_contains expr of
        Some (path, literal) \<Rightarrow>
          map_option (\<lambda>v. Some (param_header ''header'' path MATCH_CONTAINS v)) (literal_text literal)
      | None \<Rightarrow>
     (case Option.bind (m_param_contains expr) (\<lambda>(p, p2, l). if p = p2 then Some (p, l) else None) of
        Some (path, literal) \<Rightarrow>
          map_option (\<lambda>v. Some (param_header ''param'' path MATCH_CONTAINS v)) (literal_text literal)
      | None \<Rightarrow>
     (case Option.bind (m_param_compare expr) (\<lambda>(p, p2, opr, v). if p = p2 then Some (p, opr, v) else None) of
        Some (path, opr, v) \<Rightarrow> Some (Some (param_header ''param'' path (compare_op_mode opr) v))
      | None \<Rightarrow>
     (case m_equals expr of
        Some (source, path, raw) \<Rightarrow>
          Some (map_option (\<lambda>v. param_header source path MATCH_EQ (js_to_string v)) (parseExprLiteral raw))
      | None \<Rightarrow> Some None)))))))"

text \<open>\<open>/^\((.+) \? ([\d.eE+-]+) : 1\)$/s\<close>, read from the end: the conditions and the multiplier.\<close>

definition m_factor :: "string \<Rightarrow> (string \<times> string) option" where
  "m_factor part = do {
     r1 \<leftarrow> strip_prefix (rev '' : 1)'') (rev part);
     (num, r2) \<leftarrow> m_number r1;
     r3 \<leftarrow> strip_prefix (rev '' ? '') r2;
     conds \<leftarrow> strip_prefix ''('' (rev r3);
     (if conds = [] then None else Some (conds, rev num)) }"

text \<open>The loop over the conditions of a factor.\<close>

fun parse_conditions :: "string list \<Rightarrow> RequestCondition list option option" where
  "parse_conditions [] = Some (Some [])"
| "parse_conditions (ap # aps) =
     (case tryParseRequestCondition (trim ap) of
        None \<Rightarrow> None
      | Some None \<Rightarrow> Some None
      | Some (Some cond) \<Rightarrow> map_option (map_option (\<lambda>conds. cond # conds)) (parse_conditions aps))"

definition tryParseRuleGroupFactor :: "string \<Rightarrow> RequestRuleGroup option option" where
  "tryParseRuleGroupFactor part =
     (case m_factor part of
        None \<Rightarrow> Some None
      | Some (conditionStr, multiplier) \<Rightarrow>
          map_option (\<lambda>res. case res of
              None \<Rightarrow> None
            | Some conditions \<Rightarrow>
                if length conditions = 0 then None
                else Some \<lparr>rg_conditions = conditions, rg_multiplier = multiplier\<rparr>)
            (parse_conditions (splitTopLevelAnd conditionStr)))"

fun parse_factors :: "string list \<Rightarrow> RequestRuleGroup list option option" where
  "parse_factors [] = Some (Some [])"
| "parse_factors (part # parts) =
     (case tryParseRuleGroupFactor part of
        None \<Rightarrow> None
      | Some None \<Rightarrow> Some None
      | Some (Some g) \<Rightarrow> map_option (map_option (\<lambda>gs. g # gs)) (parse_factors parts))"

definition tryParseRequestRuleExpr :: "string \<Rightarrow> RequestRuleGroup list option option" where
  "tryParseRequestRuleExpr expr =
     (let trimmed = trim expr in
      if trimmed = [] then Some (Some []) else parse_factors (splitTopLevelMultiply trimmed))"

section \<open>Combining and splitting\<close>

text \<open>The loop of \<open>hasFullOuterParens\<close> on the text from the current index on.\<close>

fun outer_loop :: "int \<Rightarrow> string \<Rightarrow> bool" where
  "outer_loop depth [] = (depth = 0)"
| "outer_loop depth (c # s) = (if bump depth c = 0 \<and> s \<noteq> [] then False else outer_loop (bump depth c) s)"

definition hasFullOuterParens :: "string \<Rightarrow> bool" where
  "hasFullOuterParens expr =
     (if \<not> startsWith expr ''('' \<or> \<not> endsWith expr '')'' then False else outer_loop 0 expr)"

text \<open>\<open>current.slice(1, -1)\<close>.\<close>

definition inside :: "string \<Rightarrow> string" where
  "inside s = butlast (drop 1 s)"

lemma trim_length: "length (trim s) \<le> length s"
  unfolding trim_def trimEnd_def by (metis length_dropWhile_le length_rev order_trans)

lemma inside_shorter: "s \<noteq> [] \<Longrightarrow> length (trim (inside s)) < length s"
  using trim_length [of "inside s"] by (cases s) (simp_all add: inside_def)

lemma outer_nonempty: "hasFullOuterParens s \<Longrightarrow> s \<noteq> []"
  by (auto simp: hasFullOuterParens_def startsWith_def)

function unwrap_loop :: "string \<Rightarrow> string" where
  "unwrap_loop current = (if hasFullOuterParens current then unwrap_loop (trim (inside current)) else current)"
  by pat_completeness auto
termination
  by (relation "measure length") (auto dest: outer_nonempty inside_shorter)

declare unwrap_loop.simps [simp del]

definition unwrapOuterParens :: "string \<Rightarrow> string" where
  "unwrapOuterParens expr = unwrap_loop (trim expr)"

text \<open>The loop over the factors: the rule parts and the other parts.\<close>

fun sort_parts :: "string list \<Rightarrow> (string list \<times> string list) option" where
  "sort_parts [] = Some ([], [])"
| "sort_parts (part # parts) =
     (case tryParseRequestRuleExpr part of
        None \<Rightarrow> None
      | Some parsed \<Rightarrow>
          map_option (\<lambda>(rules, bases).
              (case parsed of
                 Some (_ # _) \<Rightarrow> (part # rules, bases)
               | _ \<Rightarrow> (rules, part # bases)))
            (sort_parts parts))"

record SplitExpr =
  se_billingExpr :: string
  se_requestRuleExpr :: string

definition splitBillingExprAndRequestRules :: "string \<Rightarrow> SplitExpr option" where
  "splitBillingExprAndRequestRules expr =
     (let trimmed = trim expr in
      if trimmed = [] then Some \<lparr>se_billingExpr = [], se_requestRuleExpr = []\<rparr>
      else
        (let parts = splitTopLevelMultiply trimmed in
         if length parts \<le> 1 then Some \<lparr>se_billingExpr = trimmed, se_requestRuleExpr = []\<rparr>
         else
           map_option (\<lambda>(ruleParts, baseParts).
               if ruleParts = [] \<or> length baseParts \<noteq> 1 then \<lparr>se_billingExpr = trimmed, se_requestRuleExpr = []\<rparr>
               else \<lparr>se_billingExpr = unwrapOuterParens (hd baseParts), se_requestRuleExpr = join '' * '' ruleParts\<rparr>)
             (sort_parts parts)))"

definition combineBillingExpr :: "string \<Rightarrow> string \<Rightarrow> string" where
  "combineBillingExpr baseExpr requestRuleExpr =
     (let base = trim baseExpr; rules = trim requestRuleExpr in
      if base = [] then [] else if rules = [] then base else ''('' @ base @ '') * '' @ rules)"

section \<open>Editing conditions\<close>

definition createEmptyCondition :: ParamHeaderCondition where
  "createEmptyCondition = \<lparr>ph_source = ''param'', ph_path = [], ph_mode = MATCH_EQ, ph_value = []\<rparr>"

definition createEmptyTimeCondition :: TimeCondition where
  "createEmptyTimeCondition =
     \<lparr>tc_timeFunc = ''hour'', tc_timezone = ''Asia/Shanghai'', tc_mode = MATCH_GTE, tc_value = [],
      tc_rangeStart = [], tc_rangeEnd = []\<rparr>"

definition createEmptyRuleGroup :: RequestRuleGroup where
  "createEmptyRuleGroup = \<lparr>rg_conditions = [ParamHeader createEmptyCondition], rg_multiplier = []\<rparr>"

definition createEmptyTimeRuleGroup :: RequestRuleGroup where
  "createEmptyTimeRuleGroup = \<lparr>rg_conditions = [TimeCond createEmptyTimeCondition], rg_multiplier = []\<rparr>"

text \<open>Values and labels.\<close>

definition getRequestRuleMatchOptions :: "string \<Rightarrow> (string \<times> string) list" where
  "getRequestRuleMatchOptions source =
     (if source = SOURCE_TIME then
        [(MATCH_EQ, ''Equals''), (MATCH_GTE, ''Greater than or equal''), (MATCH_LT, ''Less than''),
         (MATCH_RANGE, ''Overnight range'')]
      else
        (let base = [(MATCH_EQ, ''Equals''), (MATCH_CONTAINS, ''Contains''), (MATCH_EXISTS, ''Exists'')] in
         if source = SOURCE_HEADER then base
         else base @ [(MATCH_GT, ''Greater than''), (MATCH_GTE, ''Greater than or equal''), (MATCH_LT, ''Less than''),
                      (MATCH_LTE, ''Less than or equal'')]))"

text \<open>A condition whose fields may be missing.\<close>

record PartialCondition =
  pc_source :: "string option"
  pc_path :: "string option"
  pc_timeFunc :: "string option"
  pc_timezone :: "string option"
  pc_mode :: "string option"
  pc_value :: "string option"
  pc_rangeStart :: "string option"
  pc_rangeEnd :: "string option"

definition as_partial :: "RequestCondition \<Rightarrow> PartialCondition" where
  "as_partial cond =
     (case cond of
        ParamHeader c \<Rightarrow>
          \<lparr>pc_source = Some (ph_source c), pc_path = Some (ph_path c), pc_timeFunc = None, pc_timezone = None,
           pc_mode = Some (ph_mode c), pc_value = Some (ph_value c), pc_rangeStart = None, pc_rangeEnd = None\<rparr>
      | TimeCond c \<Rightarrow>
          \<lparr>pc_source = Some ''time'', pc_path = None, pc_timeFunc = Some (tc_timeFunc c),
           pc_timezone = Some (tc_timezone c), pc_mode = Some (tc_mode c), pc_value = Some (tc_value c),
           pc_rangeStart = Some (tc_rangeStart c), pc_rangeEnd = Some (tc_rangeEnd c)\<rparr>)"

definition isTimeFunc :: "string option \<Rightarrow> bool" where
  "isTimeFunc v = (case v of None \<Rightarrow> False | Some s \<Rightarrow> s \<in> set TIME_FUNCS)"

definition normalizeCondition :: "PartialCondition option \<Rightarrow> RequestCondition" where
  "normalizeCondition cond =
     (let get = (\<lambda>f. Option.bind cond f);
          source = (if get pc_source = Some ''time'' then ''time''
                    else if get pc_source = Some ''header'' then ''header'' else ''param'');
          allowed = (\<lambda>m. m \<in> Some ` set (map fst (getRequestRuleMatchOptions source))) in
      if source = ''time'' then
        TimeCond
          \<lparr>tc_timeFunc = (if isTimeFunc (get pc_timeFunc) then the (get pc_timeFunc) else ''hour''),
           tc_timezone = opt_str_or (get pc_timezone) ''Asia/Shanghai'',
           tc_mode = (if allowed (get pc_mode) then the (get pc_mode) else MATCH_GTE),
           tc_value = nullish (get pc_value) [],
           tc_rangeStart = nullish (get pc_rangeStart) [],
           tc_rangeEnd = nullish (get pc_rangeEnd) []\<rparr>
      else
        ParamHeader
          \<lparr>ph_source = source, ph_path = opt_str_or (get pc_path) [],
           ph_mode = (if allowed (get pc_mode) then the (get pc_mode) else MATCH_EQ),
           ph_value = nullish (get pc_value) []\<rparr>)"

section \<open>Printing\<close>

definition buildExprLiteral :: "string \<Rightarrow> string \<Rightarrow> string" where
  "buildExprLiteral mode v =
     (let t = trim v in
      if mode = MATCH_CONTAINS then quote t
      else if t = ''true'' \<or> t = ''false'' then t
      else if numeric_literal t then t
      else quote t)"

definition time_mode_op :: "string \<Rightarrow> string" where
  "time_mode_op mode =
     opt_str_or (map_of [(MATCH_EQ, ''==''), (MATCH_GTE, ''>=''), (MATCH_LT, ''<'')] mode) ''==''"

definition buildTimeConditionExpr :: "TimeCondition \<Rightarrow> string" where
  "buildTimeConditionExpr cond =
     (case normalizeCondition (Some (as_partial (TimeCond cond))) of
        ParamHeader _ \<Rightarrow> []
      | TimeCond normalized \<Rightarrow>
          (let fn = tc_timeFunc normalized @ ''('' @ quote (tc_timezone normalized) @ '')'' in
           if tc_mode normalized = MATCH_RANGE then
             (let s = trim (tc_rangeStart normalized); e = trim (tc_rangeEnd normalized) in
              if \<not> numeric_literal s \<or> \<not> numeric_literal e then []
              else fn @ '' >= '' @ s @ '' || '' @ fn @ '' < '' @ e)
           else
             (let v = trim (tc_value normalized) in
              if \<not> numeric_literal v then []
              else fn @ '' '' @ time_mode_op (tc_mode normalized) @ '' '' @ v)))"

definition compare_mode_op :: "string \<Rightarrow> string" where
  "compare_mode_op mode =
     nullish (map_of [(MATCH_GT, ''>''), (MATCH_GTE, ''>=''), (MATCH_LT, ''<''), (MATCH_LTE, ''<='')] mode) []"

definition buildRequestConditionExpr :: "RequestCondition \<Rightarrow> string" where
  "buildRequestConditionExpr cond =
     (case cond of
        TimeCond c \<Rightarrow> buildTimeConditionExpr c
      | ParamHeader _ \<Rightarrow>
          (case normalizeCondition (Some (as_partial cond)) of
             TimeCond _ \<Rightarrow> []
           | ParamHeader normalized \<Rightarrow>
               (let path = trim (ph_path normalized); mode = ph_mode normalized;
                    isHeader = (ph_source normalized = ''header'');
                    sourceExpr = (if isHeader then ''header('' @ quote path @ '')'' else ''param('' @ quote path @ '')'');
                    literal = buildExprLiteral mode (ph_value normalized) in
                if path = [] then []
                else if mode = MATCH_EXISTS then
                  (if isHeader then sourceExpr @ '' != '' @ dq @ dq else sourceExpr @ '' != nil'')
                else if mode = MATCH_CONTAINS then
                  (if isHeader then ''has('' @ sourceExpr @ '', '' @ literal @ '')''
                   else sourceExpr @ '' != nil && has('' @ sourceExpr @ '', '' @ literal @ '')'')
                else if mode = MATCH_GT \<or> mode = MATCH_GTE \<or> mode = MATCH_LT \<or> mode = MATCH_LTE then
                  (let numText = trim (ph_value normalized) in
                   if \<not> numeric_literal numText then []
                   else sourceExpr @ '' != nil && '' @ sourceExpr @ '' '' @ compare_mode_op mode @ '' '' @ numText)
                else sourceExpr @ '' == '' @ literal)))"

definition wrap_alternative :: "string \<Rightarrow> string" where
  "wrap_alternative e = (if js_includes e '' || '' then ''('' @ e @ '')'' else e)"

definition buildRuleGroupFactor :: "RequestRuleGroup \<Rightarrow> string" where
  "buildRuleGroupFactor g =
     (let multiplier = trim (rg_multiplier g) in
      if \<not> numeric_literal multiplier then []
      else
        (let condExprs = filter (\<lambda>e. e \<noteq> []) (map buildRequestConditionExpr (rg_conditions g)) in
         if length condExprs = 0 then []
         else
           (let combined = (if length condExprs = 1 then hd condExprs
                            else join '' && '' (map wrap_alternative condExprs)) in
            ''('' @ combined @ '' ? '' @ multiplier @ '' : 1)'')))"

definition buildRequestRuleExpr :: "RequestRuleGroup list \<Rightarrow> string" where
  "buildRequestRuleExpr groups = join '' * '' (filter (\<lambda>f. f \<noteq> []) (map buildRuleGroupFactor groups))"

end
