(* ===== verification/TierPricing.thy ===== *)
theory TierPricing
  imports RequestRules Numbers
begin

text \<open>
  Tiered prices: the variable registry and the tier reader of \<open>features/pricing/lib/billing-expr.ts\<close>, and the
  visual editor of \<open>features/pricing/lib/tier-expr.ts\<close>, which prints a configuration of tiers as a billing
  expression and reads it back.

  The regular expressions of these files backtrack, so a pattern is the list of its matches at a
  position, the preferred one first: what is left of the text, and the captured groups (\<open>None\<close> is a group that did
  not take part). Numbers are exact rationals; \<open>None\<close> is \<open>NaN\<close>.
\<close>

section \<open>Patterns\<close>

type_synonym rx = "string \<Rightarrow> (string \<times> string option list) list"

definition r_lit :: "string \<Rightarrow> rx" where
  "r_lit p s = (if startsWith s p then [(drop (length p) s, [])] else [])"

text \<open>Greedy \<open>[P]*\<close> and \<open>[P]+\<close>.\<close>

definition r_many :: "(char \<Rightarrow> bool) \<Rightarrow> rx" where
  "r_many P s = map (\<lambda>k. (drop k s, [])) (rev [0..<Suc (length (takeWhile P s))])"

definition r_some :: "(char \<Rightarrow> bool) \<Rightarrow> rx" where
  "r_some P s = map (\<lambda>k. (drop k s, [])) (rev [1..<Suc (length (takeWhile P s))])"

definition r_seq :: "rx \<Rightarrow> rx \<Rightarrow> rx" where
  "r_seq a b s = concat (map (\<lambda>(r, c). map (\<lambda>(q, d). (q, c @ d)) (b r)) (a s))"

definition r_alt :: "rx list \<Rightarrow> rx" where
  "r_alt as s = concat (map (\<lambda>a. a s) as)"

text \<open>An optional pattern with \<open>k\<close> groups.\<close>

definition r_opt :: "nat \<Rightarrow> rx \<Rightarrow> rx" where
  "r_opt k a s = a s @ [(s, replicate k None)]"

definition r_cap :: "rx \<Rightarrow> rx" where
  "r_cap a s = map (\<lambda>(r, c). (r, Some (take (length s - length r) s) # c)) (a s)"

text \<open>Greedy repetition of a pattern without groups; every round takes a character, so the length of the text
  bounds their number.\<close>

primrec r_rounds :: "nat \<Rightarrow> rx \<Rightarrow> rx" where
  "r_rounds 0 a s = [(s, [])]"
| "r_rounds (Suc n) a s = concat (map (\<lambda>(r, c). r_rounds n a r) (a s)) @ [(s, [])]"

definition r_star :: "rx \<Rightarrow> rx" where
  "r_star a s = r_rounds (length s) a s"

primrec r_all :: "rx list \<Rightarrow> rx" where
  "r_all [] = (\<lambda>s. [(s, [])])"
| "r_all (a # as) = r_seq a (r_all as)"

text \<open>The loop over \<open>exec\<close> with the flag \<open>g\<close>; the pattern may look at the character before the position. The
  patterns below never match the empty text.\<close>

function exec_all :: "(char option \<Rightarrow> rx) \<Rightarrow> char option \<Rightarrow> string \<Rightarrow> string option list list" where
  "exec_all m prev s =
     (case s of
        [] \<Rightarrow> []
      | c # t \<Rightarrow>
          (case m prev s of
             [] \<Rightarrow> exec_all m (Some c) t
           | (r, groups) # _ \<Rightarrow>
               if length r < length s then groups # exec_all m (Some (s ! (length s - length r - 1))) r
               else exec_all m (Some c) t))"
  by pat_completeness auto
termination
  by (relation "measure (\<lambda>(m, prev, s). length s)") auto

declare exec_all.simps [simp del]

definition full_match :: "rx \<Rightarrow> string \<Rightarrow> string option list option" where
  "full_match a s = map_option snd (find (\<lambda>(r, c). r = []) (a s))"

abbreviation ws :: rx where
  "ws \<equiv> r_many is_ws"

abbreviation grp :: "string option list \<Rightarrow> nat \<Rightarrow> string" where
  "grp m i \<equiv> nullish (m ! i) []"

section \<open>Variable registry\<close>

record BillingVar =
  bv_key :: string
  bv_field :: "string option"
  bv_tierField :: "string option"
  bv_label :: string
  bv_shortLabel :: string
  bv_side :: string
  bv_isBase :: bool
  bv_isConditionOnly :: bool
  bv_group :: "string option"

definition billing_var ::
    "string \<Rightarrow> string option \<Rightarrow> string option \<Rightarrow> string \<Rightarrow> string \<Rightarrow> string \<Rightarrow> bool \<Rightarrow> bool \<Rightarrow> string option \<Rightarrow> BillingVar" where
  "billing_var k f tf l sl sd b co g =
     \<lparr>bv_key = k, bv_field = f, bv_tierField = tf, bv_label = l, bv_shortLabel = sl, bv_side = sd, bv_isBase = b,
      bv_isConditionOnly = co, bv_group = g\<rparr>"

definition BILLING_VARS :: "BillingVar list" where
  "BILLING_VARS =
     [billing_var ''p'' (Some ''inputPrice'') (Some ''input_unit_cost'') ''Input price'' ''Input'' ''input'' True False None,
      billing_var ''c'' (Some ''outputPrice'') (Some ''output_unit_cost'') ''Completion price'' ''Output'' ''output'' True False None,
      billing_var ''len'' None None ''Input length'' ''Length'' ''condition'' False True None,
      billing_var ''cr'' (Some ''cacheReadPrice'') (Some ''cache_read_unit_cost'') ''Cache read price'' ''Cache Read'' ''input''
        False False (Some ''cache''),
      billing_var ''cc'' (Some ''cacheCreatePrice'') (Some ''cache_create_unit_cost'') ''Cache create price'' ''Cache Write''
        ''input'' False False (Some ''cache''),
      billing_var ''cc1h'' (Some ''cacheCreate1hPrice'') (Some ''cache_create_1h_unit_cost'') ''Cache create (1h) price''
        ''Cache Write (1h)'' ''input'' False False (Some ''cache''),
      billing_var ''img'' (Some ''imagePrice'') (Some ''image_unit_cost'') ''Image input price'' ''Image In'' ''input''
        False False (Some ''media''),
      billing_var ''img_o'' (Some ''imageOutputPrice'') (Some ''image_output_unit_cost'') ''Image output price'' ''Image Out''
        ''output'' False False (Some ''media''),
      billing_var ''ai'' (Some ''audioInputPrice'') (Some ''audio_input_unit_cost'') ''Audio input price'' ''Audio In'' ''input''
        False False (Some ''media''),
      billing_var ''ao'' (Some ''audioOutputPrice'') (Some ''audio_output_unit_cost'') ''Audio output price'' ''Audio Out''
        ''output'' False False (Some ''media'')]"

definition BILLING_PRICING_VARS :: "BillingVar list" where
  "BILLING_PRICING_VARS = filter (\<lambda>v. \<not> bv_isConditionOnly v) BILLING_VARS"

definition BILLING_CONDITION_VARS :: "string list" where
  "BILLING_CONDITION_VARS = map bv_key (filter (\<lambda>v. bv_isBase v \<or> bv_isConditionOnly v) BILLING_VARS)"

definition BILLING_VAR_KEY_TO_FIELD :: "(string \<times> string) list" where
  "BILLING_VAR_KEY_TO_FIELD = map (\<lambda>v. (bv_key v, nullish (bv_field v) [])) BILLING_PRICING_VARS"

definition BILLING_EXTRA_VARS :: "BillingVar list" where
  "BILLING_EXTRA_VARS = filter (\<lambda>v. \<not> bv_isBase v \<and> \<not> bv_isConditionOnly v) BILLING_VARS"

text \<open>Fields and variables.\<close>

definition BILLING_CACHE_VAR_MAP :: "(string \<times> string) list" where
  "BILLING_CACHE_VAR_MAP = map (\<lambda>v. (nullish (bv_tierField v) [], bv_key v)) BILLING_EXTRA_VARS"

definition is_word :: "char \<Rightarrow> bool" where
  "is_word c \<longleftrightarrow> is_digit c \<or> c = CHR ''_'' \<or> (65 \<le> (of_char c :: nat) \<and> (of_char c :: nat) \<le> 90) \<or>
     (97 \<le> (of_char c :: nat) \<and> (of_char c :: nat) \<le> 122)"

text \<open>\<open>\b\<close> before a letter.\<close>

definition at_word_start :: "char option \<Rightarrow> bool" where
  "at_word_start prev = (case prev of None \<Rightarrow> True | Some c \<Rightarrow> \<not> is_word c)"

definition BILLING_VAR_REGEX :: "char option \<Rightarrow> rx" where
  "BILLING_VAR_REGEX prev s =
     (if at_word_start prev
      then r_all [r_cap (r_alt (map (\<lambda>v. r_lit (bv_key v)) BILLING_PRICING_VARS)), ws, r_lit ''*'', ws, r_cap (r_some num_char)] s
      else [])"

section \<open>Reading tiers\<close>

text \<open>A price condition; the value is a number or, in the editor, the text of an input.\<close>

datatype tier_value = NumValue "rat option" | TextValue string

record TierCondition =
  tn_var :: string
  tn_op :: string
  tn_value :: tier_value

record ParsedTier =
  pt_label :: string
  pt_conditions :: "TierCondition list"
  pt_prices :: "(string \<times> rat) list"

definition stripExprVersion :: "string \<Rightarrow> rat \<times> string" where
  "stripExprVersion exprStr =
     (if exprStr = [] then (1, [])
      else
        (let ds = takeWhile is_digit (drop 1 exprStr); r = dropWhile is_digit (drop 1 exprStr) in
         if startsWith exprStr ''v'' \<and> ds \<noteq> [] \<and> startsWith r '':'' then (of_nat (read_nat ds), drop 1 r)
         else (1, exprStr)))"

definition add_coeff :: "(string \<times> rat option) list \<Rightarrow> string option list \<Rightarrow> (string \<times> rat option) list" where
  "add_coeff coeffs m =
     (if grp m 0 \<in> set (map fst coeffs) then coeffs else coeffs @ [(grp m 0, js_Number (grp m 1))])"

definition parseTierBody :: "string \<Rightarrow> (string \<times> rat) list" where
  "parseTierBody bodyStr =
     (let coeffs = foldl add_coeff [] (exec_all BILLING_VAR_REGEX None bodyStr) in
      map (\<lambda>(varName, fld). (fld, or_zero (nullish (map_of coeffs varName) None))) BILLING_VAR_KEY_TO_FIELD)"

definition cond_char :: "char \<Rightarrow> bool" where
  "cond_char c \<longleftrightarrow> is_digit c \<or> c \<in> set ''.eE+''"

definition cond_vars :: rx where
  "cond_vars = r_alt [r_lit ''p'', r_lit ''c'', r_lit ''len'']"

definition cond_ops :: rx where
  "cond_ops = r_alt [r_lit ''<'', r_lit ''<='', r_lit ''>'', r_lit ''>='']"

definition one_cond :: rx where
  "one_cond = r_all [cond_vars, ws, cond_ops, ws, r_some cond_char]"

definition condGroup :: rx where
  "condGroup = r_cap (r_seq one_cond (r_star (r_all [ws, r_lit ''&&'', ws, one_cond])))"

text \<open>\<open>(?:condGroup\s*\?\s*)?tier\("([^"]*)",\s*\<close>.\<close>

definition tier_start :: "rx list" where
  "tier_start =
     [r_opt 1 (r_all [condGroup, ws, r_lit ''?'', ws]), r_lit (''tier('' @ dq),
      r_cap (r_many (\<lambda>c. c \<noteq> CHR 0x22)), r_lit (dq @ '',''), ws]"

definition tierRe :: "char option \<Rightarrow> rx" where
  "tierRe prev = r_all (tier_start @ [r_cap (r_some (\<lambda>c. c \<noteq> CHR '')'')), r_lit '')''])"

text \<open>\<open>condStr.split(/\s*&&\s*/)\<close>.\<close>

function split_conds :: "string \<Rightarrow> string list" where
  "split_conds s =
     (case find_sub ''&&'' s of
        None \<Rightarrow> [s]
      | Some i \<Rightarrow> trimEnd (take i s) # split_conds (dropWhile is_ws (drop (i + 2) s)))"
  by pat_completeness auto
termination
proof (relation "measure length")
  fix s i assume "find_sub ''&&'' s = Some i"
  then have "i + length ''&&'' \<le> length s" by (rule find_sub_bound)
  moreover have "length (dropWhile is_ws (drop (i + 2) s)) \<le> length s - (i + 2)"
    using length_dropWhile_le [of is_ws "drop (i + 2) s"] by simp
  ultimately show "(dropWhile is_ws (drop (i + 2) s), s) \<in> measure length" by simp
qed simp

declare split_conds.simps [simp del]

definition cond_match :: rx where
  "cond_match = r_all [r_cap cond_vars, ws, r_cap cond_ops, ws, r_cap (r_some cond_char)]"

definition read_conditions :: "string \<Rightarrow> TierCondition list" where
  "read_conditions condStr =
     (if condStr = [] then []
      else
        List.map_filter (\<lambda>cp.
            map_option (\<lambda>cm. \<lparr>tn_var = grp cm 0, tn_op = grp cm 1, tn_value = NumValue (js_Number (grp cm 2))\<rparr>)
              (full_match cond_match (trim cp)))
          (split_conds condStr))"

definition parsed_tier :: "string option list \<Rightarrow> ParsedTier" where
  "parsed_tier m =
     \<lparr>pt_label = grp m 1, pt_conditions = read_conditions (grp m 0), pt_prices = parseTierBody (grp m 2)\<rparr>"

definition parseTiersFromExpr :: "string \<Rightarrow> ParsedTier list" where
  "parseTiersFromExpr exprStr =
     (if exprStr = [] then [] else map parsed_tier (exec_all tierRe None (snd (stripExprVersion exprStr))))"

section \<open>The visual configuration\<close>

definition CACHE_MODE_TIMED :: string where "CACHE_MODE_TIMED = ''timed''"
definition CACHE_MODE_GENERIC :: string where "CACHE_MODE_GENERIC = ''generic''"

record VisualTier =
  vt_label :: string
  vt_conditions :: "TierCondition list"
  vt_input_unit_cost :: "rat option"
  vt_output_unit_cost :: "rat option"
  vt_cache_mode :: string
  vt_cache_read_unit_cost :: rat
  vt_cache_create_unit_cost :: rat
  vt_cache_create_1h_unit_cost :: rat
  vt_image_unit_cost :: rat
  vt_image_output_unit_cost :: rat
  vt_audio_input_unit_cost :: rat
  vt_audio_output_unit_cost :: rat

text \<open>A tier whose fields may be missing: the extra costs by the name of their field.\<close>

record PartialTier =
  pr_label :: "string option"
  pr_conditions :: "TierCondition list option"
  pr_input_unit_cost :: "rat option option"
  pr_output_unit_cost :: "rat option option"
  pr_cache_mode :: "string option"
  pr_extra :: "(string \<times> rat) list"

definition extra_cost :: "PartialTier \<Rightarrow> string \<Rightarrow> rat" where
  "extra_cost tier fld = or_zero (map_of (pr_extra tier) fld)"

definition getTierCacheMode :: "PartialTier option \<Rightarrow> string" where
  "getTierCacheMode tier =
     (let mode = Option.bind tier pr_cache_mode in
      if mode = Some CACHE_MODE_TIMED then CACHE_MODE_TIMED
      else if mode = Some CACHE_MODE_GENERIC then CACHE_MODE_GENERIC
      else if (case tier of None \<Rightarrow> False | Some t \<Rightarrow> 0 < extra_cost t ''cache_create_1h_unit_cost'')
      then CACHE_MODE_TIMED else CACHE_MODE_GENERIC)"

definition normalizeVisualTier :: "PartialTier \<Rightarrow> VisualTier" where
  "normalizeVisualTier tier =
     \<lparr>vt_label = nullish (pr_label tier) [], vt_conditions = nullish (pr_conditions tier) [],
      vt_input_unit_cost = nullish (pr_input_unit_cost tier) (Some 0),
      vt_output_unit_cost = nullish (pr_output_unit_cost tier) (Some 0),
      vt_cache_mode = nullish (pr_cache_mode tier) (getTierCacheMode (Some tier)),
      vt_cache_read_unit_cost = extra_cost tier ''cache_read_unit_cost'',
      vt_cache_create_unit_cost = extra_cost tier ''cache_create_unit_cost'',
      vt_cache_create_1h_unit_cost = extra_cost tier ''cache_create_1h_unit_cost'',
      vt_image_unit_cost = extra_cost tier ''image_unit_cost'',
      vt_image_output_unit_cost = extra_cost tier ''image_output_unit_cost'',
      vt_audio_input_unit_cost = extra_cost tier ''audio_input_unit_cost'',
      vt_audio_output_unit_cost = extra_cost tier ''audio_output_unit_cost''\<rparr>"

definition createDefaultVisualConfig :: "VisualTier list" where
  "createDefaultVisualConfig =
     [normalizeVisualTier
        \<lparr>pr_label = Some ''base'', pr_conditions = Some [], pr_input_unit_cost = Some (Some 0), pr_output_unit_cost = Some (Some 0),
         pr_cache_mode = Some CACHE_MODE_GENERIC, pr_extra = []\<rparr>]"

text \<open>The fields of a tier, as its spread gives them.\<close>

definition tier_fields :: "VisualTier \<Rightarrow> (string \<times> rat) list" where
  "tier_fields tier =
     [(''cache_read_unit_cost'', vt_cache_read_unit_cost tier), (''cache_create_unit_cost'', vt_cache_create_unit_cost tier),
      (''cache_create_1h_unit_cost'', vt_cache_create_1h_unit_cost tier), (''image_unit_cost'', vt_image_unit_cost tier),
      (''image_output_unit_cost'', vt_image_output_unit_cost tier), (''audio_input_unit_cost'', vt_audio_input_unit_cost tier),
      (''audio_output_unit_cost'', vt_audio_output_unit_cost tier)]"

definition as_partial_tier :: "VisualTier \<Rightarrow> PartialTier" where
  "as_partial_tier tier =
     \<lparr>pr_label = Some (vt_label tier), pr_conditions = Some (vt_conditions tier),
      pr_input_unit_cost = Some (vt_input_unit_cost tier), pr_output_unit_cost = Some (vt_output_unit_cost tier),
      pr_cache_mode = Some (vt_cache_mode tier), pr_extra = tier_fields tier\<rparr>"

text \<open>A configuration is its list of tiers; \<open>None\<close> is one that is missing.\<close>

definition normalizeVisualConfig :: "VisualTier list option \<Rightarrow> VisualTier list" where
  "normalizeVisualConfig config =
     (case config of
        None \<Rightarrow> createDefaultVisualConfig
      | Some tiers \<Rightarrow>
          if tiers = [] then createDefaultVisualConfig else map (normalizeVisualTier \<circ> as_partial_tier) tiers)"

section \<open>Printing\<close>

definition show_value :: "tier_value \<Rightarrow> string" where
  "show_value v = (case v of NumValue (Some r) \<Rightarrow> show_num r | NumValue None \<Rightarrow> ''NaN'' | TextValue s \<Rightarrow> s)"

definition buildConditionStr :: "TierCondition list \<Rightarrow> string" where
  "buildConditionStr conditions =
     join '' && ''
       (map (\<lambda>c. tn_var c @ '' '' @ tn_op c @ '' '' @ show_value (tn_value c))
         (filter (\<lambda>c. tn_var c \<noteq> [] \<and> tn_op c \<noteq> [] \<and> tn_value c \<noteq> TextValue []) conditions))"

definition buildTierBodyExpr :: "VisualTier \<Rightarrow> string" where
  "buildTierBodyExpr tier =
     join '' + ''
       ([''p * '' @ show_num (or_zero (vt_input_unit_cost tier)), ''c * '' @ show_num (or_zero (vt_output_unit_cost tier))] @
        map (\<lambda>(fld, exprVar). exprVar @ '' * '' @ show_num (or_zero (map_of (tier_fields tier) fld)))
          (filter (\<lambda>(fld, exprVar). or_zero (map_of (tier_fields tier) fld) \<noteq> 0) BILLING_CACHE_VAR_MAP))"

definition tier_call :: "string \<Rightarrow> VisualTier \<Rightarrow> string" where
  "tier_call label tier = ''tier('' @ dq @ label @ dq @ '', '' @ buildTierBodyExpr tier @ '')''"

definition tier_part :: "nat \<Rightarrow> nat \<times> VisualTier \<Rightarrow> string" where
  "tier_part n it =
     (case it of (i, tier) \<Rightarrow>
        (let label = str_or (vt_label tier) (''tier_'' @ show_nat (i + 1));
             body = tier_call label tier;
             cond = buildConditionStr (vt_conditions tier) in
         if i < n - 1 \<and> cond \<noteq> [] then cond @ '' ? '' @ body else body))"

definition generateExprFromVisualConfig :: "VisualTier list option \<Rightarrow> string" where
  "generateExprFromVisualConfig config =
     (case config of
        None \<Rightarrow> ''p * 0 + c * 0''
      | Some tiers \<Rightarrow>
          if tiers = [] then ''p * 0 + c * 0''
          else if length tiers = 1 then
            (let tier = hd tiers; body = tier_call (str_or (vt_label tier) ''default'') tier;
                 cond = buildConditionStr (vt_conditions tier) in
             if cond \<noteq> [] then cond @ '' ? '' @ body @ '' : p * 0 + c * 0'' else body)
          else join '' : '' (map (tier_part (length tiers)) (List.enumerate 0 tiers)))"

section \<open>Reading the visual configuration\<close>

definition optCache :: "string \<Rightarrow> rx" where
  "optCache v = r_opt 1 (r_all [ws, r_lit ''+'', ws, r_lit v, ws, r_lit ''*'', ws, r_cap (r_some num_char)])"

definition bodyPat :: "rx list" where
  "bodyPat =
     [r_lit ''p'', ws, r_lit ''*'', ws, r_cap (r_some num_char), ws, r_lit ''+'', ws, r_lit ''c'', ws, r_lit ''*'', ws,
      r_cap (r_some num_char)] @ map (\<lambda>(fld, v). optCache v) BILLING_CACHE_VAR_MAP"

definition singleRe :: rx where
  "singleRe =
     r_all ([r_lit (''tier('' @ dq), r_cap (r_many (\<lambda>c. c \<noteq> CHR 0x22)), r_lit (dq @ '',''), ws] @ bodyPat @ [r_lit '')''])"

definition visualTierRe :: "char option \<Rightarrow> rx" where
  "visualTierRe prev = r_all (tier_start @ bodyPat @ [r_lit '')''])"

text \<open>The costs of the groups that took part; normalising the tier makes 0 of \<open>NaN\<close>.\<close>

definition read_extra :: "string option list \<Rightarrow> (string \<times> rat) list" where
  "read_extra groups =
     List.map_filter (\<lambda>((fld, v), g). map_option (\<lambda>s. (fld, or_zero (js_Number s))) g) (zip BILLING_CACHE_VAR_MAP groups)"

definition visual_tier :: "string \<Rightarrow> TierCondition list \<Rightarrow> string option list \<Rightarrow> VisualTier" where
  "visual_tier label conditions groups =
     normalizeVisualTier
       \<lparr>pr_label = Some label, pr_conditions = Some conditions, pr_input_unit_cost = Some (js_Number (grp groups 0)),
        pr_output_unit_cost = Some (js_Number (grp groups 1)), pr_cache_mode = None, pr_extra = read_extra (drop 2 groups)\<rparr>"

definition remove_ws :: "string \<Rightarrow> string" where
  "remove_ws s = filter (\<lambda>c. \<not> is_ws c) s"

definition tryParseVisualConfig :: "string option \<Rightarrow> VisualTier list option" where
  "tryParseVisualConfig exprStr =
     (case exprStr of
        None \<Rightarrow> None
      | Some e \<Rightarrow>
          if e = [] then None
          else
            (let body = snd (stripExprVersion e) in
             case full_match singleRe body of
               Some m \<Rightarrow> Some (normalizeVisualConfig (Some [visual_tier (grp m 0) [] (drop 1 m)]))
             | None \<Rightarrow>
                 (let tiers = map (\<lambda>m. visual_tier (grp m 1) (read_conditions (grp m 0)) (drop 2 m))
                        (exec_all visualTierRe None body) in
                  if tiers = [] then None
                  else
                    (let cfg = normalizeVisualConfig (Some tiers); regenerated = generateExprFromVisualConfig (Some cfg) in
                     if remove_ws regenerated \<noteq> remove_ws body then None else Some cfg))))"

section \<open>Estimator\<close>

definition ESTIMATOR_VARS :: "(string \<times> string) list" where
  "ESTIMATOR_VARS =
     [(''cr'', ''cacheReadTokens''), (''cc'', ''cacheCreateTokens''), (''cc1h'', ''cacheCreate1hTokens''),
      (''img'', ''imageTokens''), (''img_o'', ''imageOutputTokens''), (''ai'', ''audioInputTokens''),
      (''ao'', ''audioOutputTokens'')]"

text \<open>\<open>\b(...)\b\<close>, tested at every position.\<close>

fun uses_vars :: "string list \<Rightarrow> char option \<Rightarrow> string \<Rightarrow> bool" where
  "uses_vars names prev [] = False"
| "uses_vars names prev (c # s) =
     (at_word_start prev \<and>
        list_ex (\<lambda>v. startsWith (c # s) v \<and>
          (case drop (length v) (c # s) of [] \<Rightarrow> True | d # _ \<Rightarrow> \<not> is_word d)) names
      \<or> uses_vars names (Some c) s)"

definition exprUsesExtraVars :: "string \<Rightarrow> bool" where
  "exprUsesExtraVars exprStr =
     (if exprStr = [] then False else uses_vars (map fst ESTIMATOR_VARS) None exprStr)"

end
