(* ===== verification/Catalog.thy ===== *)
theory Catalog
  imports Format TierPricing
begin

text \<open>
  The model catalogue: \<open>features/pricing/lib/filters.ts\<close>, \<open>price.ts\<close>, \<open>dynamic-price.ts\<close>, \<open>model-helpers.ts\<close> and the hooks
  \<open>use-filters.ts\<close> and \<open>use-pricing-data.ts\<close>. The case mapping \<open>toLowerCase\<close>, \<open>localeCompare\<close> and \<open>Intl.NumberFormat\<close> are
  parameters. A record with string keys is the association list of its entries.
\<close>

section \<open>Types and constants\<close>

record PricingVendor =
  pv_id :: int
  pv_name :: string
  pv_icon :: "string option"
  pv_description :: "string option"

record PricingModel =
  pm_id :: int
  pm_model_name :: string
  pm_description :: "string option"
  pm_icon :: "string option"
  pm_vendor_id :: "int option"
  pm_vendor_name :: "string option"
  pm_vendor_icon :: "string option"
  pm_vendor_description :: "string option"
  pm_quota_type :: int
  pm_model_ratio :: rat
  pm_completion_ratio :: rat
  pm_model_price :: "rat option"
  pm_cache_ratio :: "rat option"
  pm_create_cache_ratio :: "rat option"
  pm_image_ratio :: "rat option"
  pm_audio_ratio :: "rat option"
  pm_audio_completion_ratio :: "rat option"
  pm_enable_groups :: "string list option"
  pm_tags :: "string option"
  pm_supported_endpoint_types :: "string list option"
  pm_key :: "string option"
  pm_group_ratio :: "(string \<times> rat) list option"
  pm_billing_mode :: "string option"
  pm_billing_expr :: "string option"

datatype TokenUnit = UnitM | UnitK

datatype PriceType = InputPrice | OutputPrice | CachePrice | CreateCachePrice | ImagePrice | AudioInputPrice | AudioOutputPrice

definition SORT_NAME :: string where "SORT_NAME = ''name''"
definition SORT_PRICE_LOW :: string where "SORT_PRICE_LOW = ''price-low''"
definition SORT_PRICE_HIGH :: string where "SORT_PRICE_HIGH = ''price-high''"
definition FILTER_ALL :: string where "FILTER_ALL = ''all''"
definition QUOTA_TYPE_TOKEN :: string where "QUOTA_TYPE_TOKEN = ''token''"
definition EXCLUDED_GROUPS :: "string list" where "EXCLUDED_GROUPS = [[], ''auto'']"
definition QUOTA_TOKEN :: int where "QUOTA_TOKEN = 0"
definition QUOTA_REQUEST :: int where "QUOTA_REQUEST = 1"

definition TOKEN_UNIT_DIVISORS :: "TokenUnit \<Rightarrow> rat" where
  "TOKEN_UNIT_DIVISORS u = (case u of UnitM \<Rightarrow> 1 | UnitK \<Rightarrow> 1000)"

section \<open>Filters\<close>

text \<open>\<open>text?.toLowerCase().includes(q)\<close> and \<open>xs?.includes(x)\<close>.\<close>

definition contains_text :: "(string \<Rightarrow> string) \<Rightarrow> string option \<Rightarrow> string \<Rightarrow> bool" where
  "contains_text lower t q = (case t of None \<Rightarrow> False | Some s \<Rightarrow> js_includes (lower s) q)"

definition has_entry :: "string list option \<Rightarrow> string \<Rightarrow> bool" where
  "has_entry xs x = (case xs of None \<Rightarrow> False | Some ys \<Rightarrow> x \<in> set ys)"

definition filterBySearch :: "(string \<Rightarrow> string) \<Rightarrow> PricingModel list \<Rightarrow> string \<Rightarrow> PricingModel list" where
  "filterBySearch lower models query =
     (if query = [] then models
      else
        filter (\<lambda>m. contains_text lower (Some (pm_model_name m)) (lower query) \<or> contains_text lower (pm_description m) (lower query) \<or>
            contains_text lower (pm_tags m) (lower query) \<or> contains_text lower (pm_vendor_name m) (lower query)) models)"

definition filterByVendor :: "PricingModel list \<Rightarrow> string \<Rightarrow> PricingModel list" where
  "filterByVendor models vendor = (if vendor = FILTER_ALL then models else filter (\<lambda>m. pm_vendor_name m = Some vendor) models)"

definition filterByGroup :: "PricingModel list \<Rightarrow> string \<Rightarrow> PricingModel list" where
  "filterByGroup models grp' = (if grp' = FILTER_ALL then models else filter (\<lambda>m. has_entry (pm_enable_groups m) grp') models)"

definition filterByQuotaType :: "PricingModel list \<Rightarrow> string \<Rightarrow> PricingModel list" where
  "filterByQuotaType models quotaType =
     (if quotaType = FILTER_ALL then models
      else filter (\<lambda>m. pm_quota_type m = (if quotaType = QUOTA_TYPE_TOKEN then QUOTA_TOKEN else QUOTA_REQUEST)) models)"

definition filterByEndpointType :: "PricingModel list \<Rightarrow> string \<Rightarrow> PricingModel list" where
  "filterByEndpointType models endpointType =
     (if endpointType = FILTER_ALL then models
      else filter (\<lambda>m. has_entry (pm_supported_endpoint_types m) endpointType) models)"

definition getModelPrice :: "PricingModel \<Rightarrow> rat" where
  "getModelPrice model = (if pm_quota_type model = 0 then pm_model_ratio model else nullish (pm_model_price model) 0)"

type_synonym locale_compare = "string \<Rightarrow> string \<Rightarrow> int"

definition name_le :: "locale_compare \<Rightarrow> PricingModel \<Rightarrow> PricingModel \<Rightarrow> bool" where
  "name_le cmp a b \<longleftrightarrow> cmp (pm_model_name a) (pm_model_name b) \<le> 0"

definition price_low_le :: "PricingModel \<Rightarrow> PricingModel \<Rightarrow> bool" where
  "price_low_le a b \<longleftrightarrow> getModelPrice a - getModelPrice b \<le> 0"

definition price_high_le :: "PricingModel \<Rightarrow> PricingModel \<Rightarrow> bool" where
  "price_high_le a b \<longleftrightarrow> getModelPrice b - getModelPrice a \<le> 0"

definition sortModels :: "locale_compare \<Rightarrow> PricingModel list \<Rightarrow> string \<Rightarrow> PricingModel list" where
  "sortModels cmp models sortBy =
     (if sortBy = SORT_NAME then sort_by (name_le cmp) models
      else if sortBy = SORT_PRICE_LOW then sort_by price_low_le models
      else if sortBy = SORT_PRICE_HIGH then sort_by price_high_le models
      else models)"

definition is_tag_sep :: "char \<Rightarrow> bool" where
  "is_tag_sep c \<longleftrightarrow> c \<in> set '',;|'' \<or> is_ws c"

text \<open>\<open>text.split(/[,;|\s]+/)\<close>.\<close>

function split_tags :: "string \<Rightarrow> string list" where
  "split_tags s =
     takeWhile (\<lambda>c. \<not> is_tag_sep c) s #
       (case dropWhile (\<lambda>c. \<not> is_tag_sep c) s of [] \<Rightarrow> [] | c # r \<Rightarrow> split_tags (dropWhile is_tag_sep r))"
  by pat_completeness auto
termination
proof (relation "measure length")
  fix s c r assume "dropWhile (\<lambda>c. \<not> is_tag_sep c) s = c # r"
  then have "length (c # r) \<le> length s" by (metis length_dropWhile_le)
  moreover have "length (dropWhile is_tag_sep r) \<le> length r" by (rule length_dropWhile_le)
  ultimately show "(dropWhile is_tag_sep r, s) \<in> measure length" by simp
qed simp

declare split_tags.simps [simp del]

definition parseTags :: "string option \<Rightarrow> string list" where
  "parseTags tagsString =
     (case tagsString of
        None \<Rightarrow> []
      | Some s \<Rightarrow> if s = [] then [] else filter (\<lambda>t. t \<noteq> []) (map trim (split_tags s)))"

definition extractAllTags :: "(string \<Rightarrow> string) \<Rightarrow> locale_compare \<Rightarrow> PricingModel list \<Rightarrow> string list" where
  "extractAllTags lower cmp models =
     sort_by (\<lambda>a b. cmp a b \<le> 0) (js_set (concat (map (\<lambda>model. map lower (parseTags (pm_tags model))) models)))"

definition filterByTag :: "(string \<Rightarrow> string) \<Rightarrow> PricingModel list \<Rightarrow> string \<Rightarrow> PricingModel list" where
  "filterByTag lower models tag =
     (if tag = FILTER_ALL then models
      else filter (\<lambda>m. opt_str_or (pm_tags m) [] \<noteq> [] \<and> lower tag \<in> set (map lower (parseTags (pm_tags m)))) models)"

record ModelFilters =
  mf_search :: string
  mf_vendor :: string
  mf_group :: string
  mf_quotaType :: string
  mf_endpointType :: string
  mf_tag :: string
  mf_sortBy :: string

definition filterAndSortModels ::
    "(string \<Rightarrow> string) \<Rightarrow> locale_compare \<Rightarrow> PricingModel list \<Rightarrow> ModelFilters \<Rightarrow> PricingModel list" where
  "filterAndSortModels lower cmp models filters =
     (let result = filterBySearch lower models (mf_search filters);
          result = filterByVendor result (mf_vendor filters);
          result = filterByGroup result (mf_group filters);
          result = filterByQuotaType result (mf_quotaType filters);
          result = filterByEndpointType result (mf_endpointType filters);
          result = filterByTag lower result (mf_tag filters) in
      sortModels cmp result (mf_sortBy filters))"

section \<open>The filter hook\<close>

record FilterState =
  fs_search :: "string option"
  fs_sort :: "string option"
  fs_vendor :: "string option"
  fs_group :: "string option"
  fs_quotaType :: "string option"
  fs_endpointType :: "string option"
  fs_tag :: "string option"
  fs_tokenUnit :: "string option"
  fs_view :: "string option"
  fs_rechargePrice :: "bool option"

text \<open>What a handler passes to \<open>updateFilters\<close>: one entry, or several with \<open>undefined\<close>; an undefined entry is deleted.\<close>

datatype FilterUpdate =
    SetSearch "string option" | SetSort "string option" | SetVendor "string option" | SetGroup "string option"
  | SetQuotaType "string option" | SetEndpointType "string option" | SetTag "string option"
  | SetTokenUnit "string option" | SetView "string option" | SetRechargePrice "bool option"

definition apply_update :: "FilterState \<Rightarrow> FilterUpdate \<Rightarrow> FilterState" where
  "apply_update prev u =
     (case u of
        SetSearch v \<Rightarrow> prev\<lparr>fs_search := v\<rparr> | SetSort v \<Rightarrow> prev\<lparr>fs_sort := v\<rparr> | SetVendor v \<Rightarrow> prev\<lparr>fs_vendor := v\<rparr>
      | SetGroup v \<Rightarrow> prev\<lparr>fs_group := v\<rparr> | SetQuotaType v \<Rightarrow> prev\<lparr>fs_quotaType := v\<rparr>
      | SetEndpointType v \<Rightarrow> prev\<lparr>fs_endpointType := v\<rparr> | SetTag v \<Rightarrow> prev\<lparr>fs_tag := v\<rparr>
      | SetTokenUnit v \<Rightarrow> prev\<lparr>fs_tokenUnit := v\<rparr> | SetView v \<Rightarrow> prev\<lparr>fs_view := v\<rparr>
      | SetRechargePrice v \<Rightarrow> prev\<lparr>fs_rechargePrice := v\<rparr>)"

definition updateFilters :: "FilterUpdate list \<Rightarrow> FilterState \<Rightarrow> FilterState" where
  "updateFilters updates prev = foldl apply_update prev updates"

text \<open>\<open>v === d ? undefined : v\<close>.\<close>

definition unless_default :: "string \<Rightarrow> string \<Rightarrow> string option" where
  "unless_default d v = (if v = d then None else Some v)"

definition normalizeViewMode :: "string option \<Rightarrow> string" where
  "normalizeViewMode v = (if v = Some ''table'' then ''table'' else ''card'')"

definition setSearchInput :: "string \<Rightarrow> FilterState \<Rightarrow> FilterState" where
  "setSearchInput v = updateFilters [SetSearch (unless_default [] v)]"

definition setSortBy :: "string \<Rightarrow> FilterState \<Rightarrow> FilterState" where
  "setSortBy v = updateFilters [SetSort (unless_default SORT_NAME v)]"

definition setVendorFilter :: "string \<Rightarrow> FilterState \<Rightarrow> FilterState" where
  "setVendorFilter v = updateFilters [SetVendor (unless_default FILTER_ALL v)]"

definition setGroupFilter :: "string \<Rightarrow> FilterState \<Rightarrow> FilterState" where
  "setGroupFilter v = updateFilters [SetGroup (unless_default FILTER_ALL v)]"

definition setQuotaTypeFilter :: "string \<Rightarrow> FilterState \<Rightarrow> FilterState" where
  "setQuotaTypeFilter v = updateFilters [SetQuotaType (unless_default FILTER_ALL v)]"

definition setEndpointTypeFilter :: "string \<Rightarrow> FilterState \<Rightarrow> FilterState" where
  "setEndpointTypeFilter v = updateFilters [SetEndpointType (unless_default FILTER_ALL v)]"

definition setTagFilter :: "string \<Rightarrow> FilterState \<Rightarrow> FilterState" where
  "setTagFilter v = updateFilters [SetTag (unless_default FILTER_ALL v)]"

definition setTokenUnit :: "string \<Rightarrow> FilterState \<Rightarrow> FilterState" where
  "setTokenUnit v = updateFilters [SetTokenUnit (unless_default ''M'' v)]"

definition setViewMode :: "string \<Rightarrow> FilterState \<Rightarrow> FilterState" where
  "setViewMode v = updateFilters [SetView (unless_default ''card'' v)]"

definition setShowRechargePrice :: "bool \<Rightarrow> FilterState \<Rightarrow> FilterState" where
  "setShowRechargePrice v = updateFilters [SetRechargePrice (if v then Some True else None)]"

definition clearFilters :: "FilterState \<Rightarrow> FilterState" where
  "clearFilters = updateFilters [SetVendor None, SetGroup None, SetQuotaType None, SetEndpointType None, SetTag None]"

definition clearSearch :: "FilterState \<Rightarrow> FilterState" where
  "clearSearch = updateFilters [SetSearch None]"

definition current_filters :: "FilterState \<Rightarrow> ModelFilters" where
  "current_filters s =
     \<lparr>mf_search = opt_str_or (fs_search s) [], mf_vendor = opt_str_or (fs_vendor s) FILTER_ALL,
      mf_group = opt_str_or (fs_group s) FILTER_ALL, mf_quotaType = opt_str_or (fs_quotaType s) FILTER_ALL,
      mf_endpointType = opt_str_or (fs_endpointType s) FILTER_ALL, mf_tag = opt_str_or (fs_tag s) FILTER_ALL,
      mf_sortBy = opt_str_or (fs_sort s) SORT_NAME\<rparr>"

definition tokenUnit :: "FilterState \<Rightarrow> TokenUnit" where
  "tokenUnit s = (if fs_tokenUnit s = Some ''K'' then UnitK else UnitM)"

definition showRechargePrice :: "FilterState \<Rightarrow> bool" where
  "showRechargePrice s \<longleftrightarrow> fs_rechargePrice s = Some True"

definition availableTags :: "(string \<Rightarrow> string) \<Rightarrow> locale_compare \<Rightarrow> PricingModel list \<Rightarrow> string list" where
  "availableTags lower cmp models = (if models = [] then [] else extractAllTags lower cmp models)"

definition filteredModels ::
    "(string \<Rightarrow> string) \<Rightarrow> locale_compare \<Rightarrow> PricingModel list \<Rightarrow> FilterState \<Rightarrow> PricingModel list" where
  "filteredModels lower cmp models s =
     (if models = [] then [] else filterAndSortModels lower cmp models (current_filters s))"

definition active_filters :: "FilterState \<Rightarrow> string list" where
  "active_filters s =
     (let f = current_filters s in
      filter (\<lambda>v. v \<noteq> FILTER_ALL) [mf_vendor f, mf_group f, mf_quotaType f, mf_endpointType f, mf_tag f])"

definition hasActiveFilters :: "FilterState \<Rightarrow> bool" where
  "hasActiveFilters s =
     (let f = current_filters s in
      mf_vendor f \<noteq> FILTER_ALL \<or> mf_group f \<noteq> FILTER_ALL \<or> mf_quotaType f \<noteq> FILTER_ALL \<or> mf_endpointType f \<noteq> FILTER_ALL \<or>
      mf_tag f \<noteq> FILTER_ALL)"

definition activeFilterCount :: "FilterState \<Rightarrow> nat" where
  "activeFilterCount s =
     (let f = current_filters s; one = (\<lambda>v. if v \<noteq> FILTER_ALL then 1 else 0) in
      one (mf_vendor f) + one (mf_group f) + one (mf_quotaType f) + one (mf_endpointType f) + one (mf_tag f))"

section \<open>Prices\<close>

text \<open>A price text: the sign of the currency, a number with separators of thousands, and perhaps a letter.\<close>

definition price_text_re :: rx where
  "price_text_re =
     r_all [r_cap (r_many (\<lambda>c. \<not> is_digit c \<and> c \<noteq> CHR ''-'')),
       r_cap (r_all [r_some (\<lambda>c. is_digit c \<or> c \<in> set ''-,''), r_opt 0 (r_lit ''.''), r_many is_digit]),
       r_cap (r_opt 0 (r_lit ''k''))]"

text \<open>\<open>parseFloat\<close> of digits, points and signs: the longest numeral at the start.\<close>

definition parse_float :: "string \<Rightarrow> rat option" where
  "parse_float s =
     (let negative = startsWith s ''-''; r = (if negative then drop 1 s else s);
          whole = takeWhile is_digit r; q = dropWhile is_digit r;
          frac = (if startsWith q ''.'' then takeWhile is_digit (drop 1 q) else []) in
      if whole = [] \<and> frac = [] then None
      else Some ((if negative then -1 else 1) * of_nat (read_nat (whole @ frac)) / 10 ^ length frac))"

text \<open>\<open>text.replace(/\.?0+$/, '')\<close>.\<close>

definition cut_zeros :: "string \<Rightarrow> string" where
  "cut_zeros s =
     (let t = rev (dropWhile (\<lambda>c. c = CHR ''0'') (rev s)) in
      if t \<noteq> s \<and> t \<noteq> [] \<and> last t = CHR ''.'' then butlast t else t)"

text \<open>The texts of numbers with an exponent are those from \<open>10 ^ 21\<close> on and those below \<open>10 ^ -6\<close>.\<close>

definition has_exponent :: "rat \<Rightarrow> bool" where
  "has_exponent x \<longleftrightarrow> x \<noteq> 0 \<and> (10 ^ 21 \<le> \<bar>x\<bar> \<or> \<bar>x\<bar> < 1 / 10 ^ 6)"

definition stripTrailingZeros :: "string \<Rightarrow> string" where
  "stripTrailingZeros formatted =
     (case full_match price_text_re formatted of
        None \<Rightarrow> formatted
      | Some m \<Rightarrow>
          (case parse_float (filter (\<lambda>c. c \<noteq> CHR '','') (grp m 1)) of
             None \<Rightarrow> formatted
           | Some parsed \<Rightarrow>
               grp m 0 @ (if has_exponent parsed then cut_zeros (toFixed 20 (Fin parsed)) else show_num parsed) @ grp m 2))"

text \<open>\<open>None\<close> is the infinite minimum the loop starts with.\<close>

definition min_ratio_step :: "(string \<times> rat) list \<Rightarrow> rat option \<Rightarrow> string \<Rightarrow> rat option" where
  "min_ratio_step groupRatio minRatio g =
     (case map_of groupRatio g of
        None \<Rightarrow> minRatio
      | Some ratio \<Rightarrow> (case minRatio of None \<Rightarrow> Some ratio | Some r \<Rightarrow> if ratio < r then Some ratio else minRatio))"

definition getMinGroupRatio :: "string list \<Rightarrow> (string \<times> rat) list \<Rightarrow> rat" where
  "getMinGroupRatio enableGroups groupRatio =
     (if enableGroups = [] then 1 else nullish (foldl (min_ratio_step groupRatio) None enableGroups) 1)"

definition getEffectiveGroupRatio :: "string list \<Rightarrow> (string \<times> rat) list \<Rightarrow> string option \<Rightarrow> rat" where
  "getEffectiveGroupRatio enableGroups groupRatio selectedGroup =
     (case selectedGroup of
        Some g \<Rightarrow>
          if g \<noteq> [] \<and> map_of groupRatio g \<noteq> None then the (map_of groupRatio g) else getMinGroupRatio enableGroups groupRatio
      | None \<Rightarrow> getMinGroupRatio enableGroups groupRatio)"

text \<open>A ratio that is missing gives \<open>NaN\<close>.\<close>

definition times_ratio :: "rat \<Rightarrow> rat option \<Rightarrow> js_number" where
  "times_ratio base r = (case r of None \<Rightarrow> NaN | Some x \<Rightarrow> Fin (base * x))"

definition calculateTokenPrice :: "PricingModel \<Rightarrow> PriceType \<Rightarrow> rat \<Rightarrow> js_number" where
  "calculateTokenPrice model type ratio =
     (let base = pm_model_ratio model * 2 * ratio in
      case type of
        InputPrice \<Rightarrow> Fin base
      | OutputPrice \<Rightarrow> Fin (base * pm_completion_ratio model)
      | CachePrice \<Rightarrow> times_ratio base (pm_cache_ratio model)
      | CreateCachePrice \<Rightarrow> times_ratio base (pm_create_cache_ratio model)
      | ImagePrice \<Rightarrow> times_ratio base (pm_image_ratio model)
      | AudioInputPrice \<Rightarrow> times_ratio base (pm_audio_ratio model)
      | AudioOutputPrice \<Rightarrow>
          (case pm_audio_ratio model of
             None \<Rightarrow> NaN
           | Some a \<Rightarrow> times_ratio (base * a) (pm_audio_completion_ratio model)))"

record RechargeRates =
  rr_show :: bool
  rr_priceRate :: rat
  rr_usdExchangeRate :: rat

definition applyRechargeRate :: "js_number \<Rightarrow> RechargeRates \<Rightarrow> js_number" where
  "applyRechargeRate price rates =
     (if \<not> rr_show rates then price
      else num_div (num_mul price (Fin (rr_priceRate rates))) (Fin (rr_usdExchangeRate rates)))"

definition enabled_groups :: "PricingModel \<Rightarrow> string list" where
  "enabled_groups model = nullish (pm_enable_groups model) []"

definition group_ratios :: "PricingModel \<Rightarrow> (string \<times> rat) list" where
  "group_ratios model = nullish (pm_group_ratio model) []"

definition token_price_text ::
    "intl \<Rightarrow> SystemConfig \<Rightarrow> PricingModel \<Rightarrow> PriceType \<Rightarrow> TokenUnit \<Rightarrow> RechargeRates \<Rightarrow> rat \<Rightarrow> string" where
  "token_price_text intl config model type unit rates ratio =
     formatCurrencyFromUSD intl config
       (Some (num_div (applyRechargeRate (calculateTokenPrice model type ratio) rates) (Fin (TOKEN_UNIT_DIVISORS unit))))
       (Some (digit_options 4 6 False))"

definition formatPrice ::
    "intl \<Rightarrow> SystemConfig \<Rightarrow> PricingModel \<Rightarrow> PriceType \<Rightarrow> TokenUnit \<Rightarrow> RechargeRates \<Rightarrow> string option \<Rightarrow> string" where
  "formatPrice intl config model type unit rates selectedGroup =
     (if pm_quota_type model = QUOTA_REQUEST then ''-''
      else
        token_price_text intl config model type unit rates
          (getEffectiveGroupRatio (enabled_groups model) (group_ratios model) selectedGroup))"

text \<open>\<open>groupRatio[group] || 1\<close>: 0 counts as missing.\<close>

definition ratio_or_one :: "(string \<times> rat) list \<Rightarrow> string \<Rightarrow> rat" where
  "ratio_or_one groupRatio g = (case map_of groupRatio g of None \<Rightarrow> 1 | Some r \<Rightarrow> if r = 0 then 1 else r)"

definition formatGroupPrice ::
    "intl \<Rightarrow> SystemConfig \<Rightarrow> PricingModel \<Rightarrow> string \<Rightarrow> PriceType \<Rightarrow> TokenUnit \<Rightarrow> RechargeRates \<Rightarrow> (string \<times> rat) list \<Rightarrow> string" where
  "formatGroupPrice intl config model g type unit rates groupRatio =
     (if pm_quota_type model = QUOTA_REQUEST then ''-''
      else token_price_text intl config model type unit rates (ratio_or_one groupRatio g))"

definition request_price_text :: "intl \<Rightarrow> SystemConfig \<Rightarrow> PricingModel \<Rightarrow> RechargeRates \<Rightarrow> rat \<Rightarrow> string" where
  "request_price_text intl config model rates ratio =
     formatCurrencyFromUSD intl config
       (Some (applyRechargeRate (Fin (nullish (pm_model_price model) 0 * ratio)) rates)) (Some (digit_options 4 4 False))"

definition formatFixedPrice ::
    "intl \<Rightarrow> SystemConfig \<Rightarrow> PricingModel \<Rightarrow> string \<Rightarrow> RechargeRates \<Rightarrow> (string \<times> rat) list \<Rightarrow> string" where
  "formatFixedPrice intl config model g rates groupRatio =
     (if pm_quota_type model \<noteq> QUOTA_REQUEST then ''-''
      else request_price_text intl config model rates (ratio_or_one groupRatio g))"

definition formatRequestPrice :: "intl \<Rightarrow> SystemConfig \<Rightarrow> PricingModel \<Rightarrow> RechargeRates \<Rightarrow> string option \<Rightarrow> string" where
  "formatRequestPrice intl config model rates selectedGroup =
     (if pm_quota_type model \<noteq> QUOTA_REQUEST then ''-''
      else
        request_price_text intl config model rates
          (getEffectiveGroupRatio (enabled_groups model) (group_ratios model) selectedGroup))"

section \<open>Dynamic prices\<close>

record DynamicPriceOptions =
  dp_tokenUnit :: TokenUnit
  dp_showRechargePrice :: "bool option"
  dp_priceRate :: "rat option"
  dp_usdExchangeRate :: "rat option"
  dp_groupRatioMultiplier :: "rat option"

record DynamicPriceEntry =
  de_key :: string
  de_field :: string
  de_label :: string
  de_shortLabel :: string
  de_value :: rat
  de_formatted :: string
  de_variable :: BillingVar

record DynamicPricingSummary =
  ds_tiers :: "ParsedTier list"
  ds_tier :: "ParsedTier option"
  ds_tierCount :: nat
  ds_hasRequestRules :: bool
  ds_isSpecialExpression :: bool
  ds_rawExpression :: string
  ds_entries :: "DynamicPriceEntry list"
  ds_primaryEntries :: "DynamicPriceEntry list"
  ds_secondaryEntries :: "DynamicPriceEntry list"

definition PRIMARY_DYNAMIC_FIELDS :: "string list" where
  "PRIMARY_DYNAMIC_FIELDS = [''inputPrice'', ''outputPrice'']"

definition isDynamicPricingModel :: "PricingModel \<Rightarrow> bool" where
  "isDynamicPricingModel model \<longleftrightarrow> pm_billing_mode model = Some ''tiered_expr'' \<and> opt_str_or (pm_billing_expr model) [] \<noteq> []"

definition getDynamicDisplayGroupRatio :: "PricingModel \<Rightarrow> string option \<Rightarrow> rat" where
  "getDynamicDisplayGroupRatio model selectedGroup =
     (case selectedGroup of
        Some g \<Rightarrow>
          if g \<noteq> [] \<and> map_of (group_ratios model) g \<noteq> None then the (map_of (group_ratios model) g)
          else if enabled_groups model = [] then 1
          else nullish (foldl (min_ratio_step (group_ratios model)) None (enabled_groups model)) 1
      | None \<Rightarrow>
          if enabled_groups model = [] then 1
          else nullish (foldl (min_ratio_step (group_ratios model)) None (enabled_groups model)) 1)"

definition formatDynamicUnitPrice :: "intl \<Rightarrow> SystemConfig \<Rightarrow> rat \<Rightarrow> DynamicPriceOptions \<Rightarrow> string" where
  "formatDynamicUnitPrice intl config valuePerMillionTokens options =
     formatBillingCurrencyFromUSD intl config
       (Some (applyRechargeRate
          (Fin (valuePerMillionTokens * nullish (dp_groupRatioMultiplier options) 1 / TOKEN_UNIT_DIVISORS (dp_tokenUnit options)))
          \<lparr>rr_show = nullish (dp_showRechargePrice options) False, rr_priceRate = nullish (dp_priceRate options) 1,
           rr_usdExchangeRate = nullish (dp_usdExchangeRate options) 1\<rparr>))
       (Some (digit_options 4 6 False))"

text \<open>Reading the rules may throw (\<open>None\<close>).\<close>

definition getDynamicPricingTiers :: "PricingModel \<Rightarrow> ParsedTier list option" where
  "getDynamicPricingTiers model =
     (if \<not> isDynamicPricingModel model then Some []
      else
        map_option (\<lambda>e. parseTiersFromExpr (se_billingExpr e))
          (splitBillingExprAndRequestRules (opt_str_or (pm_billing_expr model) [])))"

definition hasDynamicRequestRules :: "PricingModel \<Rightarrow> bool option" where
  "hasDynamicRequestRules model =
     (if \<not> isDynamicPricingModel model then Some False
      else
        Option.bind (splitBillingExprAndRequestRules (opt_str_or (pm_billing_expr model) []))
          (\<lambda>e. map_option (\<lambda>gs. nullish gs [] \<noteq> []) (tryParseRequestRuleExpr (se_requestRuleExpr e))))"

definition price_entry :: "intl \<Rightarrow> SystemConfig \<Rightarrow> DynamicPriceOptions \<Rightarrow> ParsedTier \<Rightarrow> BillingVar \<Rightarrow> DynamicPriceEntry list" where
  "price_entry intl config options tier variable =
     (case bv_field variable of
        None \<Rightarrow> []
      | Some fld \<Rightarrow>
          (case map_of (pt_prices tier) fld of
             None \<Rightarrow> []
           | Some v \<Rightarrow>
               if v \<le> 0 then []
               else
                 [\<lparr>de_key = bv_key variable, de_field = fld, de_label = bv_label variable, de_shortLabel = bv_shortLabel variable,
                   de_value = v, de_formatted = formatDynamicUnitPrice intl config v options, de_variable = variable\<rparr>]))"

definition is_primary :: "DynamicPriceEntry \<Rightarrow> bool" where
  "is_primary entry \<longleftrightarrow> de_field entry \<in> set PRIMARY_DYNAMIC_FIELDS"

text \<open>The comparison gives a positive number exactly when only the second entry is primary.\<close>

definition entry_le :: "DynamicPriceEntry \<Rightarrow> DynamicPriceEntry \<Rightarrow> bool" where
  "entry_le a b \<longleftrightarrow> is_primary a \<or> \<not> is_primary b"

definition getDynamicPriceEntries ::
    "intl \<Rightarrow> SystemConfig \<Rightarrow> ParsedTier option \<Rightarrow> DynamicPriceOptions \<Rightarrow> DynamicPriceEntry list" where
  "getDynamicPriceEntries intl config tier options =
     (case tier of
        None \<Rightarrow> []
      | Some t \<Rightarrow> sort_by entry_le (concat (map (price_entry intl config options t) BILLING_PRICING_VARS)))"

definition getDynamicPricingSummary ::
    "intl \<Rightarrow> SystemConfig \<Rightarrow> PricingModel \<Rightarrow> DynamicPriceOptions \<Rightarrow> DynamicPricingSummary option option" where
  "getDynamicPricingSummary intl config model options =
     (if \<not> isDynamicPricingModel model then Some None
      else
        do {
          tiers \<leftarrow> getDynamicPricingTiers model;
          rules \<leftarrow> hasDynamicRequestRules model;
          let tier = (case tiers of [] \<Rightarrow> None | t # _ \<Rightarrow> Some t);
              entries = getDynamicPriceEntries intl config tier options;
              rawExpression = opt_str_or (pm_billing_expr model) [] in
          Some (Some
            \<lparr>ds_tiers = tiers, ds_tier = tier, ds_tierCount = length tiers, ds_hasRequestRules = rules,
             ds_isSpecialExpression = (trim rawExpression \<noteq> [] \<and> tiers = []), ds_rawExpression = rawExpression,
             ds_entries = entries, ds_primaryEntries = filter is_primary entries,
             ds_secondaryEntries = filter (\<lambda>entry. \<not> is_primary entry) entries\<rparr>)
        })"

section \<open>Labels of tiers\<close>

text \<open>\<open>text.replace(pattern, r)\<close> with the flag \<open>g\<close>; the patterns below never match the empty text.\<close>

function replace_all :: "rx \<Rightarrow> string \<Rightarrow> string \<Rightarrow> string" where
  "replace_all m r s =
     (case s of
        [] \<Rightarrow> []
      | c # t \<Rightarrow>
          (case m s of
             [] \<Rightarrow> c # replace_all m r t
           | (q, _) # _ \<Rightarrow> if length q < length s then r @ replace_all m r q else c # replace_all m r t))"
  by pat_completeness auto
termination by (relation "measure (\<lambda>(m, r, s). length s)") auto

declare replace_all.simps [simp del]

text \<open>The comparison signs in UTF-8: a wide equals sign, and the two signs for an order, narrow and wide.\<close>

definition wide_equals :: string where "wide_equals = [CHR 0xEF, CHR 0xBC, CHR 0x9D]"

definition order_sign :: "string \<Rightarrow> string \<Rightarrow> string \<Rightarrow> rx" where
  "order_sign narrow equal wide =
     r_alt [r_seq (r_lit narrow) (r_opt 0 (r_alt [r_lit ''='', r_lit wide_equals])), r_lit equal,
       r_seq (r_lit wide) (r_opt 0 (r_alt [r_lit ''='', r_lit wide_equals]))]"

definition normalizeTierLabel :: "(string \<Rightarrow> string) \<Rightarrow> string option \<Rightarrow> string" where
  "normalizeTierLabel lower label =
     (case label of
        None \<Rightarrow> []
      | Some l \<Rightarrow>
          if l = [] then []
          else
            lower (remove_ws
              (replace_all (order_sign ''>'' [CHR 0xE2, CHR 0x89, CHR 0xA5] [CHR 0xEF, CHR 0xBC, CHR 0x9E]) ''>''
                (replace_all (order_sign ''<'' [CHR 0xE2, CHR 0x89, CHR 0xA4] [CHR 0xEF, CHR 0xBC, CHR 0x9C]) ''<'' l))))"

section \<open>Models of the page\<close>

definition getAvailableGroups :: "PricingModel \<Rightarrow> (string \<times> 'a) list \<Rightarrow> string list" where
  "getAvailableGroups model usableGroup =
     filter (\<lambda>g. g \<in> set (enabled_groups model)) (filter (\<lambda>g. g \<notin> set EXCLUDED_GROUPS) (map fst usableGroup))"

text \<open>The replacement text of \<open>String.prototype.replace\<close>: a dollar sign with another one, an ampersand, a backquote or
  an apostrophe stands for itself, the match, what precedes and what follows it.\<close>

fun expand_replacement :: "string \<Rightarrow> string \<Rightarrow> string \<Rightarrow> string \<Rightarrow> string" where
  "expand_replacement before found after [] = []"
| "expand_replacement before found after [c] = [c]"
| "expand_replacement before found after (c # d # r) =
     (if c = CHR ''$'' \<and> d = CHR ''$'' then CHR ''$'' # expand_replacement before found after r
      else if c = CHR ''$'' \<and> d = CHR ''&'' then found @ expand_replacement before found after r
      else if c = CHR ''$'' \<and> d = CHR 0x60 then before @ expand_replacement before found after r
      else if c = CHR ''$'' \<and> d = CHR 0x27 then after @ expand_replacement before found after r
      else c # expand_replacement before found after (d # r))"

function replace_loop :: "string \<Rightarrow> string \<Rightarrow> string \<Rightarrow> string" where
  "replace_loop modelName before s =
     (case s of
        [] \<Rightarrow> []
      | c # t \<Rightarrow>
          if startsWith s ''{model}''
          then expand_replacement before ''{model}'' (drop 7 s) modelName @ replace_loop modelName (before @ ''{model}'') (drop 7 s)
          else c # replace_loop modelName (before @ [c]) t)"
  by pat_completeness auto
termination by (relation "measure (\<lambda>(n, b, s). length s)") auto

declare replace_loop.simps [simp del]

definition replaceModelInPath :: "string \<Rightarrow> string \<Rightarrow> string" where
  "replaceModelInPath path modelName = replace_loop modelName [] path"

definition isTokenBasedModel :: "PricingModel \<Rightarrow> bool" where
  "isTokenBasedModel model \<longleftrightarrow> pm_quota_type model = QUOTA_TOKEN"

record PricingData =
  pd_data :: "PricingModel list option"
  pd_vendors :: "PricingVendor list option"
  pd_group_ratio :: "(string \<times> rat) list"

definition positive_rate :: "rat option \<Rightarrow> rat \<Rightarrow> rat" where
  "positive_rate r d = max (nullish r d) (1 / 1000)"

definition priceRate :: "rat option \<Rightarrow> rat" where
  "priceRate status_price = positive_rate status_price 1"

definition usdExchangeRate :: "rat option \<Rightarrow> rat option \<Rightarrow> rat" where
  "usdExchangeRate status_price status_rate = positive_rate status_rate (priceRate status_price)"

text \<open>The vendor a model names; identifier 0 names none, and the last vendor of an identifier counts.\<close>

definition vendor_of :: "PricingVendor list \<Rightarrow> PricingModel \<Rightarrow> PricingVendor option" where
  "vendor_of vendors model =
     (case pm_vendor_id model of
        None \<Rightarrow> None
      | Some i \<Rightarrow> if i = 0 then None else map_of (foldl (\<lambda>m v. map_set (pv_id v) v m) [] vendors) i)"

definition catalog_model :: "PricingVendor list \<Rightarrow> (string \<times> rat) list \<Rightarrow> PricingModel \<Rightarrow> PricingModel" where
  "catalog_model vendors groupRatio model =
     (let vendor = vendor_of vendors model in
      model\<lparr>pm_key := Some (pm_model_name model), pm_vendor_name := map_option pv_name vendor,
        pm_vendor_icon := Option.bind vendor pv_icon, pm_vendor_description := Option.bind vendor pv_description,
        pm_group_ratio := Some groupRatio\<rparr>)"

definition usePricingData :: "PricingData option \<Rightarrow> PricingModel list" where
  "usePricingData data =
     (case data of
        None \<Rightarrow> []
      | Some d \<Rightarrow>
          (case (pd_data d, pd_vendors d) of
             (Some ms, Some vs) \<Rightarrow> map (catalog_model vs (pd_group_ratio d)) ms
           | _ \<Rightarrow> []))"

section \<open>What the page shows\<close>

interpretation price_low: comparator price_low_le
  by unfold_locales (auto simp: price_low_le_def)

interpretation price_high: comparator price_high_le
  by unfold_locales (auto simp: price_high_le_def)

interpretation entry_order: comparator entry_le
  by unfold_locales (auto simp: entry_le_def)

text \<open>The models that pass every filter.\<close>

definition shown_model :: "(string \<Rightarrow> string) \<Rightarrow> ModelFilters \<Rightarrow> PricingModel \<Rightarrow> bool" where
  "shown_model lower f m \<longleftrightarrow>
     (mf_search f = [] \<or>
        (\<exists>t \<in> set [Some (pm_model_name m), pm_description m, pm_tags m, pm_vendor_name m].
           contains_text lower t (lower (mf_search f)))) \<and>
     (mf_vendor f = FILTER_ALL \<or> pm_vendor_name m = Some (mf_vendor f)) \<and>
     (mf_group f = FILTER_ALL \<or> has_entry (pm_enable_groups m) (mf_group f)) \<and>
     (mf_quotaType f = FILTER_ALL \<or> isTokenBasedModel m \<and> mf_quotaType f = QUOTA_TYPE_TOKEN \<or>
        pm_quota_type m = QUOTA_REQUEST \<and> mf_quotaType f \<noteq> QUOTA_TYPE_TOKEN) \<and>
     (mf_endpointType f = FILTER_ALL \<or> has_entry (pm_supported_endpoint_types m) (mf_endpointType f)) \<and>
     (mf_tag f = FILTER_ALL \<or> lower (mf_tag f) \<in> set (map lower (parseTags (pm_tags m))))"

lemma parseTags_empty: "opt_str_or t [] = [] \<Longrightarrow> parseTags t = []"
  by (auto simp: parseTags_def js_ops split: option.splits if_splits)

text \<open>Every filter keeps the models that pass it, in their order.\<close>

lemma filters_keep:
  "filterBySearch lower models q = filter (\<lambda>m. q = [] \<or> contains_text lower (Some (pm_model_name m)) (lower q) \<or>
     contains_text lower (pm_description m) (lower q) \<or> contains_text lower (pm_tags m) (lower q) \<or>
     contains_text lower (pm_vendor_name m) (lower q)) models"
  "filterByVendor models v = filter (\<lambda>m. v = FILTER_ALL \<or> pm_vendor_name m = Some v) models"
  "filterByGroup models g = filter (\<lambda>m. g = FILTER_ALL \<or> has_entry (pm_enable_groups m) g) models"
  "filterByQuotaType models t = filter (\<lambda>m. t = FILTER_ALL \<or> isTokenBasedModel m \<and> t = QUOTA_TYPE_TOKEN \<or>
     pm_quota_type m = QUOTA_REQUEST \<and> t \<noteq> QUOTA_TYPE_TOKEN) models"
  "filterByEndpointType models e = filter (\<lambda>m. e = FILTER_ALL \<or> has_entry (pm_supported_endpoint_types m) e) models"
  "filterByTag lower models x = filter (\<lambda>m. x = FILTER_ALL \<or> lower x \<in> set (map lower (parseTags (pm_tags m)))) models"
  using parseTags_empty
  by (auto simp: filterBySearch_def filterByVendor_def filterByGroup_def filterByQuotaType_def filterByEndpointType_def
      filterByTag_def isTokenBasedModel_def intro!: filter_cong)

lemma filtered_shown:
  "filterAndSortModels lower cmp models f = sortModels cmp (filter (shown_model lower f) models) (mf_sortBy f)"
  unfolding filterAndSortModels_def Let_def filters_keep filter_filter shown_model_def
  by (rule arg_cong [where f = "\<lambda>ms. sortModels cmp ms (mf_sortBy f)"], rule filter_cong) auto

lemma sorted_models:
  "mset (sortModels cmp models s) = mset models"
  "s = SORT_PRICE_LOW \<Longrightarrow> sorted_wrt price_low_le (sortModels cmp models s)"
  "s = SORT_PRICE_HIGH \<Longrightarrow> sorted_wrt price_high_le (sortModels cmp models s)"
  "s = SORT_NAME \<Longrightarrow> comparator (name_le cmp) \<Longrightarrow> sorted_wrt (name_le cmp) (sortModels cmp models s)"
  using price_low.sorted_sort_by price_high.sorted_sort_by comparator.sorted_sort_by [of "name_le cmp"]
  by (simp_all add: sortModels_def SORT_NAME_def SORT_PRICE_LOW_def SORT_PRICE_HIGH_def)

text \<open>C33: The catalogue page shows exactly the models that pass the search, vendor, group, billing, endpoint and tag filters
  that are set, each as often as it is listed; ordered by price they are increasing or decreasing, and ordered by name they
  follow the comparison of names.\<close>

theorem catalog_shows_matching:
  "mset (filteredModels lower cmp models s) = filter_mset (shown_model lower (current_filters s)) (mset models) \<and>
   (fs_sort s = Some SORT_PRICE_LOW \<longrightarrow>
      sorted_wrt (\<lambda>a b. getModelPrice a \<le> getModelPrice b) (filteredModels lower cmp models s)) \<and>
   (fs_sort s = Some SORT_PRICE_HIGH \<longrightarrow>
      sorted_wrt (\<lambda>a b. getModelPrice b \<le> getModelPrice a) (filteredModels lower cmp models s)) \<and>
   (fs_sort s = None \<and> comparator (name_le cmp) \<longrightarrow> sorted_wrt (name_le cmp) (filteredModels lower cmp models s))"
proof -
  have e: "filteredModels lower cmp models s =
      sortModels cmp (filter (shown_model lower (current_filters s)) models) (opt_str_or (fs_sort s) SORT_NAME)"
    by (simp add: filteredModels_def filtered_shown current_filters_def sortModels_def sort_by_def)
  have le: "price_low_le = (\<lambda>a b. getModelPrice a \<le> getModelPrice b)" "price_high_le = (\<lambda>a b. getModelPrice b \<le> getModelPrice a)"
    by (auto simp: fun_eq_iff price_low_le_def price_high_le_def)
  note o = sorted_models [where cmp = cmp and models = "filter (shown_model lower (current_filters s)) models" and
      s = "opt_str_or (fs_sort s) SORT_NAME"]
  show ?thesis
    unfolding e using o unfolding le
    by (simp add: js_ops SORT_PRICE_LOW_def SORT_PRICE_HIGH_def)
qed

text \<open>C34: A tag that the page offers finds a model. With a case mapping that settles after one application, choosing any
  offered tag without other filters shows a model.\<close>

theorem offered_tag_found:
  assumes "tag \<in> set (availableTags lower cmp models)" "\<And>t. lower (lower t) = lower t"
  shows "filteredModels lower cmp models (setTagFilter tag (clearFilters (clearSearch s))) \<noteq> []"
proof -
  let ?s = "setTagFilter tag (clearFilters (clearSearch s))"
  have f: "mf_search (current_filters ?s) = []" "mf_vendor (current_filters ?s) = FILTER_ALL" "mf_group (current_filters ?s) = FILTER_ALL"
    "mf_quotaType (current_filters ?s) = FILTER_ALL" "mf_endpointType (current_filters ?s) = FILTER_ALL"
    "mf_tag (current_filters ?s) = FILTER_ALL \<or> mf_tag (current_filters ?s) = tag"
    by (auto simp: current_filters_def setTagFilter_def clearFilters_def clearSearch_def updateFilters_def apply_update_def
        unless_default_def js_ops)
  from assms(1) obtain m where m: "m \<in> set models" "tag \<in> set (map lower (parseTags (pm_tags m)))" "models \<noteq> []"
    by (auto simp: availableTags_def extractAllTags_def split: if_splits)
  then have "lower tag = tag" using assms(2) by auto
  then have "shown_model lower (current_filters ?s) m"
    using f m(2) by (auto simp: shown_model_def)
  then have "m \<in># mset (filter (shown_model lower (current_filters ?s)) models)" using m(1) by simp
  then have "m \<in># mset (filteredModels lower cmp models ?s)"
    using m(3) by (simp add: filteredModels_def filtered_shown sorted_models(1))
  then show ?thesis by auto
qed

text \<open>The counters of the filter bar agree, and clearing leaves the search, the order and the display alone.\<close>

lemma active_count: "activeFilterCount s = length (active_filters s)" "hasActiveFilters s \<longleftrightarrow> activeFilterCount s \<noteq> 0"
  by (auto simp: activeFilterCount_def active_filters_def hasActiveFilters_def Let_def)

lemma cleared_filters:
  "activeFilterCount (clearFilters s) = 0" "mf_search (current_filters (clearFilters s)) = mf_search (current_filters s)"
  "mf_sortBy (current_filters (clearFilters s)) = mf_sortBy (current_filters s)"
  by (simp_all add: activeFilterCount_def current_filters_def clearFilters_def updateFilters_def apply_update_def js_ops Let_def)

section \<open>What the prices mean\<close>

lemma min_ratio_fold:
  "foldl (min_ratio_step ratios) acc gs =
     (let rs = List.map_filter (map_of ratios) gs in
      case acc of None \<Rightarrow> (if rs = [] then None else Some (Min (set rs))) | Some r \<Rightarrow> Some (Min (insert r (set rs))))"
proof (induction gs arbitrary: acc)
  case (Cons g gs)
  show ?case
  proof (cases "map_of ratios g")
    case None
    then show ?thesis using Cons by (simp add: min_ratio_step_def List.map_filter_simps)
  next
    case (Some r)
    let ?S = "set (List.map_filter (map_of ratios) gs)"
    have "Min (insert r (insert a ?S)) = Min (insert (min r a) ?S)" for a
      by (cases "?S = {}") (simp_all add: min.assoc [symmetric])
    then show ?thesis
      using Some Cons by (cases acc) (auto simp: min_ratio_step_def List.map_filter_simps Let_def min_def insert_commute split: if_splits)
  qed
qed (simp add: List.map_filter_simps split: option.splits)

lemma min_ratio_least:
  assumes "g \<in> set gs" "map_of ratios g = Some r"
  obtains g' where "g' \<in> set gs" "map_of ratios g' = Some (getMinGroupRatio gs ratios)"
    "\<And>h q. h \<in> set gs \<Longrightarrow> map_of ratios h = Some q \<Longrightarrow> getMinGroupRatio gs ratios \<le> q"
proof -
  let ?rs = "List.map_filter (map_of ratios) gs"
  have ne: "?rs \<noteq> []" "gs \<noteq> []" using assms by (force simp: map_filter_Nil_iff, auto)
  then have m: "getMinGroupRatio gs ratios = Min (set ?rs)"
    by (simp add: getMinGroupRatio_def min_ratio_fold nullish_def)
  have "Min (set ?rs) \<in> set ?rs" using ne by (intro Min_in) simp_all
  then obtain g' where "g' \<in> set gs" "map_of ratios g' = Some (getMinGroupRatio gs ratios)"
    unfolding m by (auto simp: set_map_filter)
  moreover have "getMinGroupRatio gs ratios \<le> q" if "h \<in> set gs" "map_of ratios h = Some q" for h q
    unfolding m using that by (intro Min_le [OF finite_set]) (auto simp: set_map_filter)
  ultimately show ?thesis using that by blast
qed

text \<open>C35: The price in the list is the best price. For a model billed by tokens with a ratio for some enabled group, the price
  shown without a selected group is the one at the least ratio of its enabled groups, and unless that ratio is 0 it is the
  price that the details show for a group with this ratio.\<close>

theorem best_price_shown:
  assumes "pm_quota_type model \<noteq> QUOTA_REQUEST" "g \<in> set (enabled_groups model)" "map_of (group_ratios model) g = Some r"
  shows "\<exists>g' r'. g' \<in> set (enabled_groups model) \<and> map_of (group_ratios model) g' = Some r' \<and>
    (\<forall>h q. h \<in> set (enabled_groups model) \<and> map_of (group_ratios model) h = Some q \<longrightarrow> r' \<le> q) \<and>
    formatPrice intl config model type unit rates None = token_price_text intl config model type unit rates r' \<and>
    (r' = 0 \<or> formatPrice intl config model type unit rates None =
       formatGroupPrice intl config model g' type unit rates (group_ratios model))"
proof -
  define r' where "r' = getMinGroupRatio (enabled_groups model) (group_ratios model)"
  obtain g' where g': "g' \<in> set (enabled_groups model)" "map_of (group_ratios model) g' = Some r'"
      "\<And>h q. h \<in> set (enabled_groups model) \<Longrightarrow> map_of (group_ratios model) h = Some q \<Longrightarrow> r' \<le> q"
    unfolding r'_def using min_ratio_least [OF assms(2,3)] by blast
  have "formatPrice intl config model type unit rates None = token_price_text intl config model type unit rates r'"
    using assms(1) by (simp add: formatPrice_def getEffectiveGroupRatio_def r'_def)
  moreover have "r' = 0 \<or> formatGroupPrice intl config model g' type unit rates (group_ratios model) =
      token_price_text intl config model type unit rates r'"
    using assms(1) g'(2) by (simp add: formatGroupPrice_def ratio_or_one_def)
  ultimately show ?thesis using g' by metis
qed

text \<open>A free group is not shown as free. The list shows the price of a selected group with ratio 0 at ratio 0, the details
  of the same model show it at ratio 1.\<close>

theorem free_group_charged:
  assumes "pm_quota_type model \<noteq> QUOTA_REQUEST" "map_of (group_ratios model) g = Some 0" "g \<noteq> []"
  shows "formatPrice intl config model type unit rates (Some g) = token_price_text intl config model type unit rates 0 \<and>
    formatGroupPrice intl config model g type unit rates (group_ratios model) = token_price_text intl config model type unit rates 1"
  using assms by (simp add: formatPrice_def formatGroupPrice_def getEffectiveGroupRatio_def ratio_or_one_def)

text \<open>The recharge price is what the user pays. When the currency shown is converted at the exchange rate of the page, the
  recharge price of a token price is shown as the amount of local currency that the recharge rate asks for, without a second
  conversion.\<close>

theorem recharge_price_paid:
  assumes "isCurrencyDisplayEnabled config" "rr_show rates" "calculateTokenPrice model type ratio = Fin price"
    and "meta_exchangeRate (getBillingDisplayMeta (getConfig config)) = rr_usdExchangeRate rates"
  shows "token_price_text intl config model type unit rates ratio =
    formatLocalCurrencyAmount intl config (Some (Fin (price * rr_priceRate rates / TOKEN_UNIT_DIVISORS unit)))
      (Some (digit_options 4 6 False))"
proof -
  have r: "0 < rr_usdExchangeRate rates" using rate_positive [of config] assms(4) by simp
  have "TOKEN_UNIT_DIVISORS unit \<noteq> 0" by (simp add: TOKEN_UNIT_DIVISORS_def split: TokenUnit.splits)
  then have "num_mul (num_div (applyRechargeRate (Fin price) rates) (Fin (TOKEN_UNIT_DIVISORS unit))) (Fin (rr_usdExchangeRate rates)) =
      Fin (price * rr_priceRate rates / TOKEN_UNIT_DIVISORS unit)"
    using assms(2) r by (simp add: applyRechargeRate_def num_mul_def num_div_def)
  then show ?thesis
    unfolding token_price_text_def currency_is_billing [OF assms(1)] assms(3) billing_converted assms(4) by simp
qed

text \<open>The rates of the page are positive, so a recharge price is never infinite.\<close>

lemma page_rates_positive: "0 < priceRate p" "0 < usdExchangeRate p u"
  by (simp_all add: priceRate_def usdExchangeRate_def positive_rate_def)

section \<open>Entries of a dynamic price\<close>

lemma partition_sorted: "sorted_wrt entry_le es \<Longrightarrow> es = filter is_primary es @ filter (\<lambda>e. \<not> is_primary e) es"
proof (induction es)
  case (Cons e es)
  show ?case
  proof (cases "is_primary e")
    case False
    then have "\<not> is_primary x" if "x \<in> set es" for x using Cons.prems that by (simp add: entry_le_def)
    then have "filter is_primary es = []" "filter (\<lambda>e. \<not> is_primary e) es = es" by (simp_all add: filter_empty_conv)
    then show ?thesis using False by simp
  qed (use Cons in simp)
qed simp

lemma entries_partition:
  "es = getDynamicPriceEntries intl config t options \<Longrightarrow> es = filter is_primary es @ filter (\<lambda>e. \<not> is_primary e) es"
  using partition_sorted entry_order.sorted_sort_by
  by (auto simp: getDynamicPriceEntries_def split: option.splits)

lemma price_entry_member:
  "e \<in> set (price_entry intl config options t v) \<longleftrightarrow>
     (\<exists>fld p. bv_field v = Some fld \<and> map_of (pt_prices t) fld = Some p \<and> 0 < p \<and>
        e = \<lparr>de_key = bv_key v, de_field = fld, de_label = bv_label v, de_shortLabel = bv_shortLabel v, de_value = p,
          de_formatted = formatDynamicUnitPrice intl config p options, de_variable = v\<rparr>)"
  by (cases "bv_field v"; cases "map_of (pt_prices t) (the (bv_field v))") (auto simp: price_entry_def not_le)

lemma entry_values:
  "e \<in> set (getDynamicPriceEntries intl config (Some t) options) \<longleftrightarrow>
     (\<exists>v \<in> set BILLING_PRICING_VARS. \<exists>fld p. bv_field v = Some fld \<and> map_of (pt_prices t) fld = Some p \<and> 0 < p \<and>
        e = \<lparr>de_key = bv_key v, de_field = fld, de_label = bv_label v, de_shortLabel = bv_shortLabel v, de_value = p,
          de_formatted = formatDynamicUnitPrice intl config p options, de_variable = v\<rparr>)"
  by (simp add: getDynamicPriceEntries_def price_entry_member)

section \<open>Samples\<close>

definition sample_model :: "string \<Rightarrow> rat \<Rightarrow> PricingModel" where
  "sample_model name ratio =
     \<lparr>pm_id = 1, pm_model_name = name, pm_description = None, pm_icon = None, pm_vendor_id = None, pm_vendor_name = None,
      pm_vendor_icon = None, pm_vendor_description = None, pm_quota_type = 0, pm_model_ratio = ratio, pm_completion_ratio = 4,
      pm_model_price = None, pm_cache_ratio = None, pm_create_cache_ratio = None, pm_image_ratio = None, pm_audio_ratio = None,
      pm_audio_completion_ratio = None, pm_enable_groups = Some [''vip'', ''free''], pm_tags = Some ''chat, vision'',
      pm_supported_endpoint_types = None, pm_key = None, pm_group_ratio = Some [(''vip'', 1 / 2), (''free'', 0)],
      pm_billing_mode = None, pm_billing_expr = None\<rparr>"

definition sample_models :: "PricingModel list" where
  "sample_models = [sample_model ''large'' 5, sample_model ''small'' 1]"

definition sample_filter :: FilterState where
  "sample_filter =
     \<lparr>fs_search = None, fs_sort = Some SORT_PRICE_LOW, fs_vendor = None, fs_group = Some ''vip'', fs_quotaType = None,
      fs_endpointType = None, fs_tag = None, fs_tokenUnit = None, fs_view = None, fs_rechargePrice = None\<rparr>"

theorem catalog_shows_matching_witness:
  "sorted_wrt (\<lambda>a b. getModelPrice a \<le> getModelPrice b) (filteredModels id (\<lambda>a b. 0) sample_models sample_filter) \<and>
   size (filteredModels id (\<lambda>a b. 0) sample_models sample_filter) = 2"
proof -
  have "shown_model id (current_filters sample_filter) m" if "m \<in> set sample_models" for m
    using that by (auto simp: shown_model_def current_filters_def sample_filter_def sample_models_def sample_model_def js_ops
        FILTER_ALL_def has_entry_def)
  then have "filter_mset (shown_model id (current_filters sample_filter)) (mset sample_models) = mset sample_models"
    by (simp add: filter_mset_eq_conv)
  then have "mset (filteredModels id (\<lambda>a b. 0) sample_models sample_filter) = mset sample_models"
    using catalog_shows_matching [of id "\<lambda>a b. 0" sample_models sample_filter] by simp
  from mset_eq_length [OF this]
  have "size (filteredModels id (\<lambda>a b. 0) sample_models sample_filter) = 2" by (simp add: sample_models_def)
  then show ?thesis
    using catalog_shows_matching [of id "\<lambda>a b. 0" sample_models sample_filter] by (simp add: sample_filter_def)
qed

lemma sample_tag: "''vision'' \<in> set (availableTags id (\<lambda>a b. 0) sample_models)"
  by code_simp

theorem offered_tag_found_witness:
  "filteredModels id (\<lambda>a b. 0) sample_models (setTagFilter ''vision'' (clearFilters (clearSearch sample_filter))) \<noteq> []"
  by (rule offered_tag_found [OF sample_tag]) simp

definition plain_rates :: RechargeRates where
  "plain_rates = \<lparr>rr_show = True, rr_priceRate = 2, rr_usdExchangeRate = 1\<rparr>"

definition dollar_config :: SystemConfig where
  "dollar_config = token_config\<lparr>sc_currency := None\<rparr>"

theorem best_price_shown_witness:
  "\<exists>g' r'. map_of (group_ratios (sample_model ''small'' 1)) g' = Some r' \<and>
     formatPrice (\<lambda>o' n. []) dollar_config (sample_model ''small'' 1) InputPrice UnitM plain_rates None =
       token_price_text (\<lambda>o' n. []) dollar_config (sample_model ''small'' 1) InputPrice UnitM plain_rates r'"
proof -
  have "pm_quota_type (sample_model ''small'' 1) \<noteq> QUOTA_REQUEST" "''vip'' \<in> set (enabled_groups (sample_model ''small'' 1))"
      "map_of (group_ratios (sample_model ''small'' 1)) ''vip'' = Some (1 / 2)"
    by (simp_all add: sample_model_def QUOTA_REQUEST_def enabled_groups_def group_ratios_def nullish_def)
  from best_price_shown [OF this] show ?thesis by blast
qed

theorem free_group_charged_witness:
  "formatGroupPrice (\<lambda>o' n. []) dollar_config (sample_model ''small'' 1) ''free'' InputPrice UnitM plain_rates
       (group_ratios (sample_model ''small'' 1)) =
     token_price_text (\<lambda>o' n. []) dollar_config (sample_model ''small'' 1) InputPrice UnitM plain_rates 1"
  using free_group_charged [of "sample_model ''small'' 1" "''free''"]
  by (simp add: sample_model_def QUOTA_REQUEST_def group_ratios_def nullish_def)

theorem recharge_price_paid_witness:
  "token_price_text (\<lambda>o' n. []) dollar_config (sample_model ''small'' 1) InputPrice UnitM plain_rates 1 =
     formatLocalCurrencyAmount (\<lambda>o' n. []) dollar_config (Some (Fin 4)) (Some (digit_options 4 6 False))"
proof -
  have "isCurrencyDisplayEnabled dollar_config" "meta_exchangeRate (getBillingDisplayMeta (getConfig dollar_config)) = 1"
    by (simp_all add: isCurrencyDisplayEnabled_def getCurrencyDisplay_def getDisplayMeta_def getBillingDisplayMeta_def getConfig_def
        dollar_config_def token_config_def no_currency_def DEFAULT_CURRENCY_CONFIG_def dollars_def nullish_def Let_def)
  then show ?thesis
    using recharge_price_paid [of dollar_config plain_rates "sample_model ''small'' 1" InputPrice 1 2 "\<lambda>o' n. []" UnitM]
    by (simp add: plain_rates_def calculateTokenPrice_def sample_model_def TOKEN_UNIT_DIVISORS_def)
qed

end
