(* ===== verification/RuleRoundtrip.thy ===== *)
theory RuleRoundtrip
  imports RequestRules
begin

text \<open>
  Reading back what the request rule editor prints. The two splitters share a contract, the locale \<open>splitter\<close>:
  parts that are trimmed, have matching parentheses and no separator outside them come back from their
  joined text. Printed conditions and factors are such parts, and the matchers read each of them.
\<close>

section \<open>Nesting depth\<close>

lemma bump_simps [simp]:
  "bump d CHR ''('' = d + 1" "bump d CHR '')'' = d - 1"
  "c \<noteq> CHR ''('' \<Longrightarrow> c \<noteq> CHR '')'' \<Longrightarrow> bump d c = d"
  by (simp_all add: bump_def)

definition depth_after :: "int \<Rightarrow> string \<Rightarrow> int" where
  "depth_after d s = foldl bump d s"

lemma depth_after_simps [simp]:
  "depth_after d [] = d" "depth_after d (c # s) = depth_after (bump d c) s"
  "depth_after d (s @ t) = depth_after (depth_after d s) t"
  by (simp_all add: depth_after_def)

text \<open>No separator at depth 0 starts inside \<open>s\<close>, when \<open>f\<close> follows it.\<close>

fun clear :: "string \<Rightarrow> int \<Rightarrow> string \<Rightarrow> string \<Rightarrow> bool" where
  "clear sep d [] f = True"
| "clear sep d (c # s) f = (\<not> (bump d c = 0 \<and> startsWith (c # s @ f) sep) \<and> clear sep (bump d c) s f)"

lemma clear_append: "clear sep d (s @ t) f \<longleftrightarrow> clear sep d s (t @ f) \<and> clear sep (depth_after d s) t f"
  by (induction s arbitrary: d) auto

lemma startsWith_more: "startsWith s p \<Longrightarrow> startsWith (s @ t) p"
  by (auto simp: startsWith_iff)

lemma startsWith_beyond: "startsWith (s @ p @ t) p \<Longrightarrow> startsWith (s @ p) p"
  by (auto simp: startsWith_def)

lemma split_loop_part:
  assumes "clear sep d s sep" "depth_after d s = 0" "sep = CHR '' '' # sep'"
  shows "split_loop sep d cur (s @ sep @ t) = trim (cur @ s) # split_loop sep 0 [] t"
  using assms
proof (induction s arbitrary: d cur)
  case Nil
  have "startsWith (CHR '' '' # sep' @ t) (CHR '' '' # sep')"
    by (simp add: startsWith_def)
  then show ?case using Nil by simp
next
  case (Cons c s)
  have "\<not> (bump d c = 0 \<and> startsWith (c # s @ sep @ t) sep)"
    using Cons.prems startsWith_beyond [of "c # s" sep t] by auto
  then show ?case using Cons by auto
qed

lemma split_loop_last:
  assumes "clear sep d s sep"
  shows "split_loop sep d cur s = [trim (cur @ s)]"
  using assms
proof (induction s arbitrary: d cur)
  case (Cons c s)
  have "\<not> (bump d c = 0 \<and> startsWith (c # s) sep)"
    using Cons.prems startsWith_more [of "c # s" sep sep] by auto
  then show ?case using Cons by auto
qed simp

text \<open>Parts that a splitter gives back.\<close>

definition whole_part :: "string \<Rightarrow> string \<Rightarrow> bool" where
  "whole_part sep s \<longleftrightarrow> clear sep 0 s sep \<and> depth_after 0 s = 0 \<and> s \<noteq> [] \<and> trim s = s"

locale splitter =
  fixes split :: "string \<Rightarrow> string list" and sep sep' :: string
  assumes split_eq: "split e = filter (\<lambda>part. part \<noteq> []) (split_loop sep 0 [] e)"
    and sep_blank: "sep = CHR '' '' # sep'"
begin

lemma loop_join: "parts \<noteq> [] \<Longrightarrow> list_all (whole_part sep) parts \<Longrightarrow> split_loop sep 0 [] (join sep parts) = parts"
proof (induction parts)
  case (Cons p parts)
  show ?case
  proof (cases "parts = []")
    case True
    then show ?thesis using Cons.prems by (simp add: whole_part_def split_loop_last)
  next
    case False
    have "split_loop sep 0 [] (p @ sep @ join sep parts) = trim ([] @ p) # split_loop sep 0 [] (join sep parts)"
      using Cons.prems by (intro split_loop_part [OF _ _ sep_blank]) (auto simp: whole_part_def)
    then show ?thesis using Cons False by (simp add: join_Cons whole_part_def)
  qed
qed simp

theorem split_join: "parts \<noteq> [] \<Longrightarrow> list_all (whole_part sep) parts \<Longrightarrow> split (join sep parts) = parts"
  by (simp add: split_eq loop_join filter_id_conv list_all_iff whole_part_def)

end

interpretation factors: splitter splitTopLevelMultiply "'' * ''" "''* ''"
  by unfold_locales (simp_all add: splitTopLevelMultiply_def)

interpretation conjuncts: splitter splitTopLevelAnd "'' && ''" "''&& ''"
  by unfold_locales (simp_all add: splitTopLevelAnd_def)

text \<open>Texts with matching parentheses.\<close>

fun above :: "int \<Rightarrow> string \<Rightarrow> bool" where
  "above d [] = True"
| "above d (c # s) = (0 \<le> bump d c \<and> above (bump d c) s)"

definition nested :: "string \<Rightarrow> bool" where
  "nested s \<longleftrightarrow> above 0 s \<and> depth_after 0 s = 0"

abbreviation no_parens :: "string \<Rightarrow> bool" where
  "no_parens s \<equiv> list_all (\<lambda>c. c \<noteq> CHR ''('' \<and> c \<noteq> CHR '')'') s"

lemma bump_shift: "bump (d + k) c = bump d c + k"
  by (simp add: bump_def Let_def)

lemma depth_shift: "depth_after (d + k) s = depth_after d s + k"
  by (induction s arbitrary: d) (auto simp: bump_shift)

lemma above_mono: "above d s \<Longrightarrow> d \<le> d' \<Longrightarrow> above d' s"
proof (induction s arbitrary: d d')
  case (Cons c s)
  have "bump d c \<le> bump d' c"
    using Cons.prems(2) by (simp add: bump_def Let_def)
  then show ?case using Cons by force
qed simp

lemma above_append: "above d (s @ t) \<longleftrightarrow> above d s \<and> above (depth_after d s) t"
  by (induction s arbitrary: d) auto

lemma nested_depth [simp]: "nested s \<Longrightarrow> depth_after d s = d"
  using depth_shift [of 0 d s] by (simp add: nested_def)

lemma nested_append [intro, simp]: "nested s \<Longrightarrow> nested t \<Longrightarrow> nested (s @ t)"
  by (simp add: nested_def above_append)

lemma nested_parens [intro, simp]: "nested s \<Longrightarrow> nested (''('' @ s @ '')'')"
  using above_mono [of 0 s 1] by (auto simp: nested_def above_append depth_shift [of 0 1, simplified])

lemma nested_plain: "no_parens s \<Longrightarrow> nested s"
proof -
  have "no_parens s \<Longrightarrow> 0 \<le> d \<Longrightarrow> above d s \<and> depth_after d s = d" for d
    by (induction s) auto
  then show "no_parens s \<Longrightarrow> nested s" by (simp add: nested_def)
qed

lemma clear_deep: "above (d - 1) s \<Longrightarrow> clear sep d s f"
proof (induction s arbitrary: d)
  case (Cons c s)
  have "bump (d - 1) c = bump d c - 1"
    using bump_shift [of d "- 1" c] by simp
  then show ?case using Cons by auto
qed simp

lemma clear_nested: "nested s \<Longrightarrow> 1 \<le> d \<Longrightarrow> clear sep d s f"
  using above_mono [of 0 s "d - 1"] by (intro clear_deep) (simp add: nested_def)

lemma clear_solid: "CHR '' '' \<notin> set s \<Longrightarrow> clear (CHR '' '' # sep) d s f"
  by (induction s arbitrary: d) (auto simp: startsWith_def)

lemma clear_parens: "nested s \<Longrightarrow> clear (CHR '' '' # sep) 0 (''('' @ s @ '')'') f"
  by (simp add: clear_append clear_nested startsWith_def)

lemma whole_parens: "nested s \<Longrightarrow> whole_part (CHR '' '' # sep) (''('' @ s @ '')'')"
proof -
  assume s: "nested s"
  have "trim (''('' @ s @ '')'') = ''('' @ s @ '')''"
    by (rule trim_edges) (simp_all add: is_ws_def)
  then show ?thesis
    unfolding whole_part_def using clear_parens [OF s] s by simp
qed

text \<open>A text that ends in a character that is not of the separator.\<close>

lemma clear_text:
  assumes "no_parens s" "s = t @ [c]" "c \<notin> set sep" "\<not> js_includes s sep"
  shows "clear sep d s f"
proof -
  have "clear sep d u f" if "s = v @ u" for u v
    using that
  proof (induction u arbitrary: v)
    case (Cons b u)
    have b: "b \<noteq> CHR ''(''" "b \<noteq> CHR '')''"
      using assms(1) Cons.prems by auto
    have "\<not> startsWith (b # u @ f) sep"
    proof
      assume "startsWith (b # u @ f) sep"
      then obtain w where w: "(b # u) @ f = sep @ w"
        by (auto simp: startsWith_iff)
      then consider (inner) x where "b # u = sep @ x" | (over) x where "sep = (b # u) @ x"
        unfolding append_eq_append_conv2 by blast
      then show False
      proof cases
        case inner
        then show ?thesis using assms(4) Cons.prems by (auto simp: js_includes_iff)
      next
        case over
        have "last (b # u) = c"
          using Cons.prems assms(2) by (metis last_appendR last_snoc list.distinct(1))
        then have "c \<in> set (b # u)" by (metis last_in_set list.distinct(1))
        then show ?thesis using over assms(3) by auto
      qed
    qed
    moreover have "clear sep d u f"
      using Cons.IH [of "v @ [b]"] Cons.prems by simp
    ultimately show ?case using b by simp
  qed simp
  from this [of "[]" s] show ?thesis by simp
qed

section \<open>Matchers on printed texts\<close>

lemma strip_prefix_append [simp]: "strip_prefix p (p @ s) = Some s"
  by (simp add: strip_prefix_def)

lemma strip_prefix_same [simp]: "strip_prefix p p = Some []"
  using strip_prefix_append [of p "[]"] by simp

lemma strip_prefix_Cons [simp]:
  "strip_prefix [] s = Some s"
  "strip_prefix (a # p) (b # s) = (if a = b then strip_prefix p s else None)"
  "strip_prefix (a # p) [] = None"
  by (auto simp: strip_prefix_def startsWith_def)

lemma m_name_append [simp]:
  "CHR 0x22 \<notin> set t \<Longrightarrow> t \<noteq> [] \<Longrightarrow> m_name (t @ CHR 0x22 # r) = Some (t, r)"
  by (auto simp: m_name_def Let_def takeWhile_append dropWhile_append)

definition stops :: "string \<Rightarrow> bool" where
  "stops r \<longleftrightarrow> (case r of [] \<Rightarrow> True | c # _ \<Rightarrow> \<not> num_char c)"

lemma m_number_append [simp]:
  assumes "list_all num_char t" "t \<noteq> []" "stops r"
  shows "m_number (t @ r) = Some (t, r)"
proof -
  have "takeWhile num_char (t @ r) = t @ takeWhile num_char r" "dropWhile num_char (t @ r) = dropWhile num_char r"
    using assms(1) by (simp_all add: list_all_iff)
  moreover have "takeWhile num_char r = []" "dropWhile num_char r = r"
    using assms(3) by (auto simp: stops_def split: list.splits)
  ultimately show ?thesis using assms(2) by (simp add: m_number_def)
qed

lemma m_end_simps [simp]: "m_end [] = Some ()" "m_end (c # s) = None"
  by (simp_all add: m_end_def)

lemma m_literal_tail_escape:
  assumes "m_literal_tail r = Some (t, q)"
  shows "m_literal_tail (escape_char c @ r) = Some (escape_char c @ t, q)"
proof -
  have hex: "hex_digit d \<noteq> CHR 0x22 \<and> hex_digit d \<noteq> CHR 0x5C" if "d < 16" for d
  proof -
    have "d \<in> set [0..<16]" using that by simp
    moreover have "list_all (\<lambda>d. hex_digit d \<noteq> CHR 0x22 \<and> hex_digit d \<noteq> CHR 0x5C) [0..<16]"
      by code_simp
    ultimately show ?thesis by (simp add: list_all_iff)
  qed
  have a: "(of_char c :: nat) div 16 < 16" if "(of_char c :: nat) < 32"
    using that by simp
  show ?thesis
    using assms hex [OF a] hex [of "of_char c mod 16"]
    by (auto simp: escape_char_def starts_line_end_def startsWith_def)
qed

lemma m_literal_quote [simp]: "m_literal (quote v @ r) = Some (quote v, r)"
proof -
  have "m_literal_tail (concat (map escape_char v) @ CHR 0x22 # r) = Some (concat (map escape_char v) @ [CHR 0x22], r)"
    by (induction v) (auto simp: m_literal_tail_escape)
  then show ?thesis by (simp add: m_literal_def quote_def)
qed

lemma parse_quote [simp]: "JSON_parse (quote v) = Some (JStr v)"
  using parse_stringify [of "JStr v"] by simp

text \<open>Numbers.\<close>

lemma exponent_chars: "exponent_ok s \<Longrightarrow> list_all num_char s"
  by (auto simp: exponent_ok_def num_char_def list_all_iff Let_def split: list.splits if_splits)

lemma digits_num: "c \<in> set (takeWhile is_digit s) \<Longrightarrow> num_char c"
  by (auto simp: num_char_def dest: set_takeWhileD)

lemma list_all_split: "list_all num_char (takeWhile is_digit s) \<Longrightarrow> list_all num_char (dropWhile is_digit s) \<Longrightarrow> list_all num_char s"
  by (metis list_all_append takeWhile_dropWhile_id)

lemma digits_prefix: "list_all num_char (dropWhile is_digit s) \<Longrightarrow> list_all num_char s"
  by (rule list_all_split) (auto simp: list_all_iff digits_num)

lemma num_char_simps [simp]: "num_char CHR ''.''" "num_char CHR ''-''" "\<not> num_char CHR '' ''" "\<not> num_char CHR '')''"
  by (simp_all add: num_char_def is_digit_def)

lemma unsigned_chars:
  assumes "dropWhile is_digit t = u"
    and "u = [] \<or> (\<exists>r. u = CHR ''.'' # r \<and> exponent_ok (dropWhile is_digit r)) \<or> exponent_ok u"
  shows "list_all num_char t"
proof (rule digits_prefix)
  have "list_all num_char u"
    using assms(2) exponent_chars digits_prefix by auto
  then show "list_all num_char (dropWhile is_digit t)" by (simp only: assms(1))
qed

lemma numeric_chars: "numeric_literal s \<Longrightarrow> list_all num_char s \<and> s \<noteq> []"
proof -
  assume n: "numeric_literal s"
  define t where "t = (case s of [] \<Rightarrow> [] | c # r \<Rightarrow> if c = CHR ''-'' then r else c # r)"
  define u where "u = dropWhile is_digit t"
  have ne: "s \<noteq> []" using n by (auto simp: numeric_literal_def)
  have "u = [] \<or> (\<exists>r. u = CHR ''.'' # r \<and> exponent_ok (dropWhile is_digit r)) \<or> exponent_ok u"
    using n unfolding numeric_literal_def t_def [symmetric] Let_def u_def [symmetric]
    by (cases u) (auto split: if_splits)
  then have "list_all num_char t"
    by (rule unsigned_chars [OF u_def [symmetric]])
  then show ?thesis using ne by (cases s) (auto simp: t_def split: if_splits)
qed

lemma num_char_plain: "num_char c \<Longrightarrow> \<not> is_ws c \<and> c \<noteq> CHR '' '' \<and> c \<noteq> CHR ''('' \<and> c \<noteq> CHR '')'' \<and> c \<noteq> CHR 0x22"
  by (auto simp: num_char_def is_digit_def is_ws_def)

lemma numeric_facts:
  assumes "numeric_literal s"
  shows "list_all num_char s" "s \<noteq> []" "trim s = s" "no_parens s" "CHR '' '' \<notin> set s"
  using numeric_chars [OF assms] num_char_plain
  by (auto simp: list_all_iff intro!: trim_no_ws)

section \<open>Conditions that are read back\<close>

definition plain_name :: "string \<Rightarrow> bool" where
  "plain_name s \<longleftrightarrow> s \<noteq> [] \<and> list_all (\<lambda>c. escape_char c = [c]) s \<and> no_parens s"

lemma plain_quote: "plain_name s \<Longrightarrow> quote s = dq @ s @ dq"
proof -
  have "list_all (\<lambda>c. escape_char c = [c]) s \<Longrightarrow> concat (map escape_char s) = s"
    by (induction s) auto
  then show "plain_name s \<Longrightarrow> quote s = dq @ s @ dq"
    by (simp add: quote_def plain_name_def)
qed

lemma plain_facts:
  assumes "plain_name s"
  shows "s \<noteq> []" "CHR 0x22 \<notin> set s" "no_parens s"
proof -
  have "escape_char CHR 0x22 \<noteq> [CHR 0x22]" by (simp add: escape_char_def)
  then show "CHR 0x22 \<notin> set s" using assms unfolding plain_name_def list_all_iff by metis
qed (use assms in \<open>simp_all add: plain_name_def\<close>)

definition is_range :: "RequestCondition \<Rightarrow> bool" where
  "is_range c = (case c of TimeCond t \<Rightarrow> tc_mode t = MATCH_RANGE | ParamHeader _ \<Rightarrow> False)"

definition readable_time :: "TimeCondition \<Rightarrow> bool" where
  "readable_time c \<longleftrightarrow>
     tc_timeFunc c \<in> set TIME_FUNCS \<and> plain_name (tc_timezone c) \<and>
     (if tc_mode c = MATCH_RANGE
      then tc_value c = [] \<and> numeric_literal (tc_rangeStart c) \<and> numeric_literal (tc_rangeEnd c)
      else tc_mode c \<in> set [MATCH_EQ, MATCH_GTE, MATCH_LT] \<and> numeric_literal (tc_value c) \<and>
           tc_rangeStart c = [] \<and> tc_rangeEnd c = [])"

definition readable_param :: "ParamHeaderCondition \<Rightarrow> bool" where
  "readable_param c \<longleftrightarrow>
     ph_source c \<in> set [''param'', ''header''] \<and> plain_name (ph_path c) \<and> trim (ph_path c) = ph_path c \<and>
     trim (ph_value c) = ph_value c \<and> no_parens (ph_value c) \<and>
     (ph_mode c = MATCH_EXISTS \<and> ph_value c = [] \<or>
      ph_mode c = MATCH_CONTAINS \<and> ph_source c = ''header'' \<or>
      ph_mode c = MATCH_EQ \<and> \<not> js_includes (buildExprLiteral MATCH_EQ (ph_value c)) '' && '' \<and>
        \<not> has_line_end (buildExprLiteral MATCH_EQ (ph_value c)))"

definition readable_condition :: "RequestCondition \<Rightarrow> bool" where
  "readable_condition c = (case c of TimeCond t \<Rightarrow> readable_time t | ParamHeader p \<Rightarrow> readable_param p)"

definition readable_group :: "RequestRuleGroup \<Rightarrow> bool" where
  "readable_group g \<longleftrightarrow>
     numeric_literal (rg_multiplier g) \<and> rg_conditions g \<noteq> [] \<and> list_all readable_condition (rg_conditions g) \<and>
     (length (rg_conditions g) = 1 \<or>
      list_all (\<lambda>c. is_range c \<or> \<not> js_includes (buildRequestConditionExpr c) '' || '') (rg_conditions g))"

lemma normalize_readable: "readable_condition c \<Longrightarrow> normalizeCondition (Some (as_partial c)) = c"
  by (cases c)
    (auto simp: readable_condition_def readable_time_def readable_param_def normalizeCondition_def as_partial_def
      isTimeFunc_def getRequestRuleMatchOptions_def mode_defs js_ops plain_name_def TIME_FUNCS_def Let_def
      split: if_splits)

section \<open>Printed conditions\<close>

lemma startsWith_simps:
  "startsWith s []" "startsWith (a # s) (b # p) \<longleftrightarrow> a = b \<and> startsWith s p" "\<not> startsWith [] (b # p)"
  by (auto simp: startsWith_def)

lemma time_text:
  assumes "readable_time c" "tc_mode c \<noteq> MATCH_RANGE"
  shows "buildRequestConditionExpr (TimeCond c) =
           tc_timeFunc c @ ''('' @ dq @ tc_timezone c @ dq @ '') '' @ time_mode_op (tc_mode c) @ '' '' @ tc_value c"
proof -
  have "normalizeCondition (Some (as_partial (TimeCond c))) = TimeCond c"
    by (rule normalize_readable) (simp add: readable_condition_def assms)
  moreover have "numeric_literal (tc_value c)" "plain_name (tc_timezone c)"
    using assms by (auto simp: readable_time_def)
  ultimately show ?thesis
    using assms(2) by (simp add: buildRequestConditionExpr_def buildTimeConditionExpr_def numeric_facts plain_quote)
qed

lemma range_text:
  assumes "readable_time c" "tc_mode c = MATCH_RANGE"
  shows "buildRequestConditionExpr (TimeCond c) =
           tc_timeFunc c @ ''('' @ dq @ tc_timezone c @ dq @ '') >= '' @ tc_rangeStart c @ '' || '' @
           tc_timeFunc c @ ''('' @ dq @ tc_timezone c @ dq @ '') < '' @ tc_rangeEnd c"
proof -
  have "normalizeCondition (Some (as_partial (TimeCond c))) = TimeCond c"
    by (rule normalize_readable) (simp add: readable_condition_def assms)
  moreover have "numeric_literal (tc_rangeStart c)" "numeric_literal (tc_rangeEnd c)" "plain_name (tc_timezone c)"
    using assms by (auto simp: readable_time_def)
  ultimately show ?thesis
    using assms(2) by (simp add: buildRequestConditionExpr_def buildTimeConditionExpr_def numeric_facts plain_quote)
qed

lemma param_text:
  assumes "readable_param c"
  shows "buildRequestConditionExpr (ParamHeader c) =
           (let e = ph_source c @ ''('' @ dq @ ph_path c @ dq @ '')'' in
            if ph_mode c = MATCH_EXISTS then e @ (if ph_source c = ''header'' then '' != '' @ dq @ dq else '' != nil'')
            else if ph_mode c = MATCH_CONTAINS then ''has('' @ e @ '', '' @ quote (ph_value c) @ '')''
            else e @ '' == '' @ buildExprLiteral MATCH_EQ (ph_value c))"
proof -
  have "normalizeCondition (Some (as_partial (ParamHeader c))) = ParamHeader c"
    by (rule normalize_readable) (simp add: readable_condition_def assms)
  moreover have "plain_name (ph_path c)" "ph_path c \<noteq> []"
    using assms by (auto simp: readable_param_def plain_name_def)
  ultimately show ?thesis
    using assms by (auto simp: buildRequestConditionExpr_def readable_param_def plain_quote Let_def mode_defs
        buildExprLiteral_def)
qed

lemma one_of_time:
  assumes "fn \<in> set TIME_FUNCS"
  shows "m_one_of TIME_FUNCS [CHR ''('', CHR 0x22] (fn @ CHR ''('' # CHR 0x22 # r) = Some (fn, r)"
proof -
  have "fn = ''hour'' \<or> fn = ''minute'' \<or> fn = ''weekday'' \<or> fn = ''month'' \<or> fn = ''day''"
    using assms by (simp add: TIME_FUNCS_def)
  then show ?thesis
    by (elim disjE) (simp_all add: TIME_FUNCS_def m_one_of_def startsWith_simps)
qed

lemma one_of_time_op:
  assumes "opr \<in> set [''=='', ''>='', ''<'']"
  shows "m_one_of [''=='', ''>='', ''<''] '' '' (opr @ CHR '' '' # r) = Some (opr, r)"
proof -
  have "opr = ''=='' \<or> opr = ''>='' \<or> opr = ''<''" using assms by simp
  then show ?thesis by (elim disjE) (simp_all add: m_one_of_def startsWith_simps)
qed

lemma stops_simps [simp]: "stops []" "stops (CHR '' '' # r)" "stops (CHR '')'' # r)"
  by (simp_all add: stops_def)

lemma m_number_end [simp]: "list_all num_char t \<Longrightarrow> t \<noteq> [] \<Longrightarrow> m_number t = Some (t, [])"
  using m_number_append [of t "[]"] by simp

lemma m_number_stuck [simp]: "m_number [] = None" "\<not> num_char c \<Longrightarrow> m_number (c # r) = None"
  by (simp_all add: m_number_def)

lemma m_time_range_text:
  assumes "fn \<in> set TIME_FUNCS" "plain_name tz" "numeric_literal a" "numeric_literal b" "stops r"
  shows "m_time_range (fn @ ''('' @ dq @ tz @ dq @ '') >= '' @ a @ '' || '' @ fn @ ''('' @ dq @ tz @ dq @ '') < '' @ b @ r)
    = Some ((fn, tz, a, b), r)"
proof -
  have "strip_prefix (CHR '' '' # CHR ''|'' # CHR ''|'' # CHR '' '' # fn @ CHR ''('' # CHR 0x22 # tz @ CHR 0x22 # '') < '')
      (CHR '' '' # CHR ''|'' # CHR ''|'' # CHR '' '' # fn @ CHR ''('' # CHR 0x22 # tz @ CHR 0x22 # '') < '' @ b @ r) = Some (b @ r)"
    using strip_prefix_append [of "'' || '' @ fn @ ''('' @ dq @ tz @ dq @ '') < ''" "b @ r"] by simp
  then show ?thesis
    using assms by (simp add: m_time_range_def one_of_time plain_facts numeric_facts)
qed

lemma read_range:
  assumes "readable_time c" "tc_mode c = MATCH_RANGE"
  shows "tryParseTimeCondition (buildRequestConditionExpr (TimeCond c)) = Some (TimeCond c)"
    and "tryParseTimeCondition (''('' @ buildRequestConditionExpr (TimeCond c) @ '')'') = Some (TimeCond c)"
proof -
  have f: "tc_timeFunc c \<in> set TIME_FUNCS" "plain_name (tc_timezone c)" "numeric_literal (tc_rangeStart c)"
      "numeric_literal (tc_rangeEnd c)" "tc_value c = []"
    using assms by (auto simp: readable_time_def)
  have c: "range_condition (tc_timeFunc c, tc_timezone c, tc_rangeStart c, tc_rangeEnd c) = TimeCond c"
    using assms(2) f(5) by (simp add: range_condition_def)
  show "tryParseTimeCondition (buildRequestConditionExpr (TimeCond c)) = Some (TimeCond c)"
    using m_time_range_text [OF f(1-4), of "[]"] c
    by (simp add: tryParseTimeCondition_def range_text [OF assms])
  have n: "m_time_range (CHR ''('' # s) = None" for s
    by (simp add: m_time_range_def m_one_of_def TIME_FUNCS_def startsWith_simps)
  show "tryParseTimeCondition (''('' @ buildRequestConditionExpr (TimeCond c) @ '')'') = Some (TimeCond c)"
    using m_time_range_text [OF f(1-4), of "'')''"] c
    by (simp add: tryParseTimeCondition_def range_text [OF assms] n)
qed

lemma read_time:
  assumes "readable_time c" "tc_mode c \<noteq> MATCH_RANGE"
  shows "tryParseTimeCondition (buildRequestConditionExpr (TimeCond c)) = Some (TimeCond c)"
proof -
  have f: "tc_timeFunc c \<in> set TIME_FUNCS" "plain_name (tc_timezone c)" "numeric_literal (tc_value c)"
      "tc_rangeStart c = []" "tc_rangeEnd c = []" "tc_mode c \<in> set [MATCH_EQ, MATCH_GTE, MATCH_LT]"
    using assms by (auto simp: readable_time_def)
  have p: "strip_prefix ''('' (tc_timeFunc c @ r) = None" for r
    using f(1) by (auto simp: TIME_FUNCS_def)
  have o: "time_mode_op (tc_mode c) \<in> set [''=='', ''>='', ''<'']"
    by (auto simp: time_mode_op_def mode_defs js_ops)
  have a: "m_time_range (buildRequestConditionExpr (TimeCond c)) = None"
    using f(6) numeric_facts [OF f(3)] plain_facts [OF f(2)] f(1)
    unfolding time_text [OF assms]
    by (auto simp: m_time_range_def one_of_time time_mode_op_def mode_defs js_ops)
  have b: "m_time_compare (buildRequestConditionExpr (TimeCond c)) =
      Some (tc_timeFunc c, tc_timezone c, time_mode_op (tc_mode c), tc_value c)"
    using o numeric_facts [OF f(3)] plain_facts [OF f(2)] f(1)
    unfolding time_text [OF assms]
    by (simp add: m_time_compare_def one_of_time one_of_time_op)
  have m: "time_op_mode (time_mode_op (tc_mode c)) = tc_mode c"
    using f(6) by (auto simp: time_op_mode_def time_mode_op_def mode_defs js_ops)
  have s: "strip_prefix ''('' (buildRequestConditionExpr (TimeCond c)) = None"
    unfolding time_text [OF assms] by (rule p)
  show ?thesis
    using a b m f(4,5) s by (simp add: tryParseTimeCondition_def)
qed

lemma not_time:
  "tryParseTimeCondition (''param('' @ s) = None" "tryParseTimeCondition (''header('' @ s) = None"
  "tryParseTimeCondition (''has('' @ s) = None"
  by (simp_all add: tryParseTimeCondition_def m_time_range_def m_time_compare_def m_one_of_def TIME_FUNCS_def
      startsWith_simps)

lemma one_of_source:
  "m_one_of [''param'', ''header''] [CHR ''('', CHR 0x22] (''param('' @ CHR 0x22 # r) = Some (''param'', r)"
  "m_one_of [''param'', ''header''] [CHR ''('', CHR 0x22] (''header('' @ CHR 0x22 # r) = Some (''header'', r)"
  by (simp_all add: m_one_of_def startsWith_simps)

lemma literal_back:
  assumes "trim v = v"
  shows "parseExprLiteral (buildExprLiteral MATCH_EQ v) = Some (JStr v)"
    and "buildExprLiteral MATCH_EQ v \<noteq> []"
proof -
  have t: "trim (quote v) = quote v"
    by (rule trim_edges) (simp_all add: quote_def is_ws_def)
  have n: "\<not> numeric_literal (quote v)"
    by (simp add: numeric_literal_def quote_def is_digit_def)
  have "quote v \<noteq> ''true''" "quote v \<noteq> ''false''" "quote v \<noteq> []"
    by (simp_all add: quote_def)
  moreover have "numeric_literal v \<Longrightarrow> v \<noteq> []" by (rule numeric_facts)
  ultimately show "parseExprLiteral (buildExprLiteral MATCH_EQ v) = Some (JStr v)" "buildExprLiteral MATCH_EQ v \<noteq> []"
    using assms t n by (auto simp: parseExprLiteral_def buildExprLiteral_def mode_defs Let_def)
qed

lemma read_exists:
  assumes "plain_name p"
  shows "tryParseRequestCondition (''header('' @ dq @ p @ dq @ '') != '' @ dq @ dq) = Some (Some (param_header ''header'' p MATCH_EXISTS []))"
    and "tryParseRequestCondition (''param('' @ dq @ p @ dq @ '') != nil'') = Some (Some (param_header ''param'' p MATCH_EXISTS []))"
proof -
  note f = plain_facts [OF assms]
  have "m_header_exists (''header('' @ dq @ p @ dq @ '') != '' @ dq @ dq) = Some p"
    using f by (simp add: m_header_exists_def)
  then show "tryParseRequestCondition (''header('' @ dq @ p @ dq @ '') != '' @ dq @ dq) = Some (Some (param_header ''header'' p MATCH_EXISTS []))"
    unfolding tryParseRequestCondition_def not_time by simp
  have "m_header_exists (''param('' @ dq @ p @ dq @ '') != nil'') = None"
    by (simp add: m_header_exists_def)
  moreover have "m_param_exists (''param('' @ dq @ p @ dq @ '') != nil'') = Some p"
    using f by (simp add: m_param_exists_def)
  ultimately show "tryParseRequestCondition (''param('' @ dq @ p @ dq @ '') != nil'') = Some (Some (param_header ''param'' p MATCH_EXISTS []))"
    unfolding tryParseRequestCondition_def not_time by simp
qed

lemma read_contains:
  assumes "plain_name p"
  shows "tryParseRequestCondition (''has('' @ ''header('' @ dq @ p @ dq @ ''), '' @ quote v @ '')'') =
    Some (Some (param_header ''header'' p MATCH_CONTAINS v))"
proof -
  let ?s = "''has('' @ ''header('' @ dq @ p @ dq @ ''), '' @ quote v @ '')''"
  have "m_header_exists ?s = None" "m_param_exists ?s = None"
    by (simp_all add: m_header_exists_def m_param_exists_def)
  moreover have "m_header_contains ?s = Some (p, quote v)"
    using plain_facts [OF assms] by (simp add: m_header_contains_def)
  ultimately show ?thesis
    unfolding tryParseRequestCondition_def not_time by (simp add: literal_text_def)
qed

lemma read_equals:
  assumes "plain_name p" "src \<in> set [''param'', ''header'']" "lit \<noteq> []" "\<not> has_line_end lit"
  shows "tryParseRequestCondition (src @ ''('' @ dq @ p @ dq @ '') == '' @ lit) =
    Some (map_option (\<lambda>v. param_header src p MATCH_EQ (js_to_string v)) (parseExprLiteral lit))"
proof -
  let ?s = "src @ ''('' @ dq @ p @ dq @ '') == '' @ lit"
  have src: "src = ''param'' \<or> src = ''header''" using assms(2) by simp
  note f = plain_facts [OF assms(1)]
  have "tryParseTimeCondition ?s = None"
    using src not_time(1,2) [of "dq @ p @ dq @ '') == '' @ lit"] by auto
  moreover have "m_header_exists ?s = None" "m_param_exists ?s = None" "m_header_contains ?s = None"
      "m_param_contains ?s = None" "m_param_compare ?s = None"
    using src f by (auto simp: m_header_exists_def m_param_exists_def m_header_contains_def m_param_contains_def m_param_compare_def)
  moreover have "m_equals ?s = Some (src, p, lit)"
    using src f assms(3,4) one_of_source [of "p @ CHR 0x22 # '') == '' @ lit"] by (auto simp: m_equals_def)
  ultimately show ?thesis
    unfolding tryParseRequestCondition_def by simp
qed

lemma read_param:
  assumes "readable_param c"
  shows "tryParseRequestCondition (buildRequestConditionExpr (ParamHeader c)) = Some (Some (ParamHeader c))"
proof -
  have p: "plain_name (ph_path c)" "ph_source c \<in> set [''param'', ''header'']" "trim (ph_value c) = ph_value c"
    using assms by (auto simp: readable_param_def)
  have c: "param_header (ph_source c) (ph_path c) (ph_mode c) (ph_value c) = ParamHeader c"
    by (simp add: param_header_def)
  note t = param_text [OF assms, unfolded Let_def]
  consider (ex) "ph_mode c = MATCH_EXISTS" "ph_value c = []"
    | (has) "ph_mode c = MATCH_CONTAINS" "ph_source c = ''header''"
    | (eq) "ph_mode c = MATCH_EQ" "\<not> has_line_end (buildExprLiteral MATCH_EQ (ph_value c))"
    using assms by (auto simp: readable_param_def)
  then show ?thesis
  proof cases
    case ex
    then show ?thesis
      using p(2) read_exists [OF p(1)] c by (auto simp: t)
  next
    case has
    then show ?thesis
      using read_contains [OF p(1), of "ph_value c"] c by (simp add: t mode_defs)
  next
    case eq
    then show ?thesis
      using read_equals [OF p(1,2) literal_back(2) [OF p(3)] eq(2)] literal_back(1) [OF p(3)] c
      by (simp add: t mode_defs)
  qed
qed

lemma read_condition:
  assumes "readable_condition c"
  shows "tryParseRequestCondition (buildRequestConditionExpr c) = Some (Some c)"
proof (cases c)
  case (ParamHeader p)
  then show ?thesis using assms read_param by (simp add: readable_condition_def)
next
  case (TimeCond t)
  then show ?thesis
    using assms read_time [of t] read_range(1) [of t]
    by (cases "tc_mode t = MATCH_RANGE") (simp_all add: readable_condition_def tryParseRequestCondition_def)
qed

text \<open>The printed conditions are parts of the conjunction.\<close>

definition word :: "string \<Rightarrow> bool" where
  "word s \<longleftrightarrow> s \<noteq> [] \<and> no_parens s \<and> list_all (\<lambda>c. \<not> is_ws c) s"

lemma blank_ws [simp]: "is_ws CHR '' ''"
  by (simp add: is_ws_def)

lemma word_solid: "word s \<Longrightarrow> CHR '' '' \<notin> set s"
  unfolding word_def list_all_iff using blank_ws by blast

lemma time_func_word: "fn \<in> set TIME_FUNCS \<Longrightarrow> word fn"
proof -
  have "list_all word TIME_FUNCS" by (simp add: word_def TIME_FUNCS_def is_ws_def)
  then show "fn \<in> set TIME_FUNCS \<Longrightarrow> word fn" by (simp add: list_all_iff)
qed

lemma source_word: "src \<in> set [''param'', ''header''] \<Longrightarrow> word src"
proof -
  have "list_all word [''param'', ''header'']" by (simp add: word_def is_ws_def)
  then show "src \<in> set [''param'', ''header''] \<Longrightarrow> word src" unfolding list_all_iff by blast
qed

lemma numeric_word: "numeric_literal n \<Longrightarrow> word n"
  using numeric_facts [of n] num_char_plain unfolding word_def list_all_iff by blast

text \<open>A call with a quoted name.\<close>

definition call :: "string \<Rightarrow> string \<Rightarrow> string" where
  "call fn p = fn @ ''('' @ dq @ p @ dq @ '')''"

lemma quoted_nested: "plain_name p \<Longrightarrow> nested (dq @ p @ dq)"
  using plain_facts(3) [of p] by (intro nested_plain) simp

lemma call_nested: "word fn \<Longrightarrow> plain_name p \<Longrightarrow> nested (call fn p)"
  using nested_append [OF nested_plain [of fn] nested_parens [OF quoted_nested [of p]]]
  by (simp add: call_def word_def)

lemma call_clear:
  assumes "word fn" "plain_name p"
  shows "clear (CHR '' '' # sep) 0 (call fn p) f"
proof -
  have "clear (CHR '' '' # sep) 0 (fn @ ''('' @ (dq @ p @ dq) @ '')'') f"
    unfolding clear_append [of _ _ fn]
    using assms clear_parens [OF quoted_nested [OF assms(2)], of sep f] nested_plain [of fn]
    by (simp add: clear_solid word_solid word_def del: append.simps)
  then show ?thesis by (simp add: call_def)
qed

lemma call_rest:
  assumes "word fn" "plain_name p"
  shows "clear (CHR '' '' # sep) 0 (call fn p @ rest) f \<longleftrightarrow> clear (CHR '' '' # sep) 0 rest f"
  using call_clear [OF assms] call_nested [OF assms] by (simp add: clear_append)

lemma clear_blank: "n \<noteq> [] \<Longrightarrow> hd n \<noteq> CHR ''&'' \<Longrightarrow> clear '' && '' d (CHR '' '' # n) f = clear '' && '' d n f"
  by (cases n) (simp_all add: startsWith_simps)

lemma clear_char: "c \<noteq> CHR '' '' \<Longrightarrow> c \<noteq> CHR ''('' \<Longrightarrow> c \<noteq> CHR '')'' \<Longrightarrow> clear '' && '' d (c # n) f = clear '' && '' d n f"
  by (simp add: startsWith_simps)

lemma numeric_hd: "numeric_literal n \<Longrightarrow> hd n \<noteq> CHR ''&''"
  using numeric_chars [of n] by (cases n) (auto simp: num_char_def is_digit_def)

lemma numeric_clear: "numeric_literal n \<Longrightarrow> clear '' && '' d n f"
  by (intro clear_solid word_solid numeric_word)

lemmas clear_tail = clear_blank clear_char numeric_hd numeric_clear

lemma numeric_nested: "numeric_literal n \<Longrightarrow> nested n"
  by (intro nested_plain numeric_facts)

lemma trim_outer: "s = a # t @ [b] \<Longrightarrow> \<not> is_ws a \<Longrightarrow> \<not> is_ws b \<Longrightarrow> trim s = s"
  by (rule trim_edges) auto

lemma word_ends:
  assumes "word a" "word b"
  shows "trim (a @ s @ b) = a @ s @ b"
proof (rule trim_edges)
  show "a @ s @ b \<noteq> []" using assms by (simp add: word_def)
  show "\<not> is_ws (hd (a @ s @ b))" using assms unfolding word_def list_all_iff by (simp add: hd_append)
  show "\<not> is_ws (last (a @ s @ b))" using assms unfolding word_def list_all_iff by simp
qed

lemma wholeI:
  assumes "nested s" "\<And>f. clear '' && '' 0 s f" "s \<noteq> []" "trim s = s"
  shows "nested s \<and> whole_part '' && '' s"
  using assms by (simp add: whole_part_def)

lemma time_whole:
  assumes "readable_time c" "tc_mode c \<noteq> MATCH_RANGE"
  shows "nested (buildRequestConditionExpr (TimeCond c)) \<and> whole_part '' && '' (buildRequestConditionExpr (TimeCond c))"
proof (rule wholeI)
  let ?o = "time_mode_op (tc_mode c)"
  have w: "word (tc_timeFunc c)" "plain_name (tc_timezone c)" "numeric_literal (tc_value c)"
    using assms by (auto simp: readable_time_def intro: time_func_word)
  have o: "?o = ''=='' \<or> ?o = ''>='' \<or> ?o = ''<''"
    by (auto simp: time_mode_op_def mode_defs js_ops)
  have e: "buildRequestConditionExpr (TimeCond c) = call (tc_timeFunc c) (tc_timezone c) @ ('' '' @ ?o @ '' '') @ tc_value c"
    by (simp add: time_text [OF assms] call_def)
  have "nested '' ''" "nested ?o"
    using o by (auto intro: nested_plain)
  then show "nested (buildRequestConditionExpr (TimeCond c))"
    unfolding e using w by (simp add: call_nested numeric_nested del: append.simps)
  show "clear '' && '' 0 (buildRequestConditionExpr (TimeCond c)) f" for f
    unfolding e call_rest [OF w(1,2)]
    using o w(3) numeric_facts(2) [OF w(3)] by (elim disjE) (simp_all add: clear_tail del: clear.simps(2))
  show "trim (buildRequestConditionExpr (TimeCond c)) = buildRequestConditionExpr (TimeCond c)"
    unfolding time_text [OF assms] using word_ends [OF w(1) numeric_word [OF w(3)],
        of "''('' @ dq @ tc_timezone c @ dq @ '') '' @ ?o @ '' ''"] by simp
  show "buildRequestConditionExpr (TimeCond c) \<noteq> []" using e by simp
qed

lemma range_whole:
  assumes "readable_time c" "tc_mode c = MATCH_RANGE"
  shows "nested (buildRequestConditionExpr (TimeCond c)) \<and> whole_part '' && '' (buildRequestConditionExpr (TimeCond c))"
proof (rule wholeI)
  let ?f = "call (tc_timeFunc c) (tc_timezone c)"
  have w: "word (tc_timeFunc c)" "plain_name (tc_timezone c)" "numeric_literal (tc_rangeStart c)" "numeric_literal (tc_rangeEnd c)"
    using assms by (auto simp: readable_time_def intro: time_func_word)
  have e: "buildRequestConditionExpr (TimeCond c) = ?f @ '' >= '' @ tc_rangeStart c @ '' || '' @ ?f @ '' < '' @ tc_rangeEnd c"
    by (simp add: range_text [OF assms] call_def)
  have "nested '' >= ''" "nested '' || ''" "nested '' < ''"
    by (simp_all add: nested_plain)
  then show "nested (buildRequestConditionExpr (TimeCond c))"
    unfolding e using w by (simp add: call_nested numeric_nested del: append.simps)
  have t: "clear '' && '' 0 ('' < '' @ tc_rangeEnd c) f" for f
    using w(4) numeric_facts(2) [OF w(4)] by (simp add: clear_tail del: clear.simps(2))
  have h: "hd (?f @ r) \<noteq> CHR ''&''" for r
    using assms(1) by (auto simp: readable_time_def TIME_FUNCS_def call_def)
  have "clear '' && '' 0 ('' || '' @ ?f @ '' < '' @ tc_rangeEnd c) f" for f
    using h call_rest [OF w(1,2), of "''&& ''"] t by (simp add: clear_tail del: clear.simps(2))
  then have "clear '' && '' 0 (tc_rangeStart c @ '' || '' @ ?f @ '' < '' @ tc_rangeEnd c) f" for f
    using numeric_clear [OF w(3)] numeric_nested [OF w(3)] by (simp add: clear_append [of _ _ "tc_rangeStart c"] del: clear.simps(2))
  then show "clear '' && '' 0 (buildRequestConditionExpr (TimeCond c)) f" for f
    unfolding e call_rest [OF w(1,2)]
    using numeric_facts(2) [OF w(3)] numeric_hd [OF w(3)] by (simp add: clear_tail del: clear.simps(2))
  show "trim (buildRequestConditionExpr (TimeCond c)) = buildRequestConditionExpr (TimeCond c)"
    unfolding range_text [OF assms] using word_ends [OF w(1) numeric_word [OF w(4)],
        of "''('' @ dq @ tc_timezone c @ dq @ '') >= '' @ tc_rangeStart c @ '' || '' @ tc_timeFunc c @ ''('' @ dq @ tc_timezone c @ dq @ '') < ''"]
    by simp
  show "buildRequestConditionExpr (TimeCond c) \<noteq> []" using e by simp
qed

lemma escape_no_parens: "c \<noteq> CHR ''('' \<Longrightarrow> c \<noteq> CHR '')'' \<Longrightarrow> no_parens (escape_char c)"
proof -
  have h: "hex_digit d \<noteq> CHR ''('' \<and> hex_digit d \<noteq> CHR '')''" if "d < 16" for d
  proof -
    have "list_all (\<lambda>d. hex_digit d \<noteq> CHR ''('' \<and> hex_digit d \<noteq> CHR '')'') [0..<16]" by code_simp
    then show ?thesis using that by (simp add: list_all_iff)
  qed
  have a: "(of_char c :: nat) div 16 < 16" if "(of_char c :: nat) < 32" using that by simp
  show "c \<noteq> CHR ''('' \<Longrightarrow> c \<noteq> CHR '')'' \<Longrightarrow> no_parens (escape_char c)"
    using h [OF a] h [of "of_char c mod 16"] by (simp add: escape_char_def)
qed

lemma quote_no_parens: "no_parens v \<Longrightarrow> no_parens (quote v)"
proof -
  have "no_parens v \<Longrightarrow> no_parens (concat (map escape_char v))"
    by (induction v) (simp_all add: escape_no_parens)
  then show "no_parens v \<Longrightarrow> no_parens (quote v)" by (simp add: quote_def)
qed

lemma quote_ends: "\<exists>t. quote v = t @ dq"
  by (simp add: quote_def)

text \<open>The literal of an equality.\<close>

lemma literal_cases:
  assumes "trim v = v"
  obtains "buildExprLiteral MATCH_EQ v = quote v" | "word (buildExprLiteral MATCH_EQ v)" "hd (buildExprLiteral MATCH_EQ v) \<noteq> CHR ''&''"
proof -
  have "word ''true''" "word ''false''" by (simp_all add: word_def is_ws_def)
  then show ?thesis
    using that assms numeric_word [of v] numeric_hd [of v]
    by (cases "v = ''true'' \<or> v = ''false''"; cases "numeric_literal v")
      (auto simp: buildExprLiteral_def mode_defs)
qed

lemma literal_facts:
  assumes "trim v = v" "no_parens v" "\<not> js_includes (buildExprLiteral MATCH_EQ v) '' && ''"
    "l = buildExprLiteral MATCH_EQ v"
  shows "nested l \<and> clear '' && '' d l f \<and> l \<noteq> [] \<and> hd l \<noteq> CHR ''&'' \<and> \<not> is_ws (last l)"
  using assms(1)
proof (cases rule: literal_cases)
  case 1
  obtain t where t: "quote v = t @ dq" using quote_ends by blast
  have "clear '' && '' d (quote v) f"
    using assms(3) 1 quote_no_parens [OF assms(2)] by (intro clear_text [OF _ t]) simp_all
  then show ?thesis
    unfolding assms(4) 1 using nested_plain [OF quote_no_parens [OF assms(2)]] by (simp add: quote_def is_ws_def)
next
  case 2
  then show ?thesis
    unfolding assms(4) using word_solid [OF 2(1)] clear_solid nested_plain
    by (simp add: word_def list_all_iff)
qed

text \<open>A text after a call.\<close>

lemma call_part:
  assumes "word fn" "plain_name p" "nested r" "\<And>f. clear '' && '' 0 r f" "r \<noteq> []" "\<not> is_ws (last r)"
  shows "nested (call fn p @ r) \<and> whole_part '' && '' (call fn p @ r)"
proof (rule wholeI)
  show "nested (call fn p @ r)" using assms call_nested by simp
  show "clear '' && '' 0 (call fn p @ r) f" for f
    unfolding call_rest [OF assms(1,2)] by (rule assms(4))
  show "call fn p @ r \<noteq> []" using assms(5) by simp
  have "\<not> is_ws (hd fn)" "fn \<noteq> []" using assms(1) unfolding word_def list_all_iff by simp_all
  then show "trim (call fn p @ r) = call fn p @ r"
    using assms(5,6) by (intro trim_edges) (simp_all add: call_def)
qed

lemma has_part:
  assumes "nested s"
  shows "nested (''has'' @ ''('' @ s @ '')'') \<and> whole_part '' && '' (''has'' @ ''('' @ s @ '')'')"
proof (rule wholeI)
  show "nested (''has'' @ ''('' @ s @ '')'')"
    by (rule nested_append [OF nested_plain nested_parens [OF assms]]) simp
  show "clear '' && '' 0 (''has'' @ ''('' @ s @ '')'') f" for f
    using clear_parens [OF assms, of "''&& ''" f] by (simp add: startsWith_simps)
  show "trim (''has'' @ ''('' @ s @ '')'') = ''has'' @ ''('' @ s @ '')''"
    by (rule trim_edges) (simp_all add: is_ws_def)
qed simp

lemma param_whole:
  assumes "readable_param c"
  shows "nested (buildRequestConditionExpr (ParamHeader c)) \<and> whole_part '' && '' (buildRequestConditionExpr (ParamHeader c))"
proof -
  have p: "plain_name (ph_path c)" "word (ph_source c)" "trim (ph_value c) = ph_value c" "no_parens (ph_value c)"
    using assms source_word by (auto simp: readable_param_def)
  let ?e = "call (ph_source c) (ph_path c)" and ?l = "buildExprLiteral MATCH_EQ (ph_value c)"
  consider (ex) "ph_mode c = MATCH_EXISTS"
    | (has) "ph_mode c = MATCH_CONTAINS" "ph_source c = ''header''"
    | (eq) "ph_mode c = MATCH_EQ" "\<not> js_includes ?l '' && ''"
    using assms by (auto simp: readable_param_def)
  then show ?thesis
  proof cases
    case ex
    define r where "r = (if ph_source c = ''header'' then '' != '' @ dq @ dq else '' != nil'')"
    have "buildRequestConditionExpr (ParamHeader c) = ?e @ r"
      using ex by (simp add: param_text [OF assms] call_def r_def)
    moreover have "nested r" "\<And>f. clear '' && '' 0 r f" "r \<noteq> []" "\<not> is_ws (last r)"
      by (simp_all add: r_def nested_plain startsWith_simps is_ws_def)
    ultimately show ?thesis using call_part [OF p(2,1)] by simp
  next
    case has
    have e: "buildRequestConditionExpr (ParamHeader c) = ''has'' @ ''('' @ (?e @ '', '' @ quote (ph_value c)) @ '')''"
      using has by (simp add: param_text [OF assms] call_def mode_defs)
    have n: "nested (?e @ '', '' @ quote (ph_value c))"
      using call_nested [OF p(2,1)] nested_plain [OF quote_no_parens [OF p(4)]] by (simp add: nested_plain del: append.simps)
    then show ?thesis unfolding e by (rule has_part)
  next
    case eq
    note l = literal_facts [OF p(3,4) eq(2) refl]
    have "buildRequestConditionExpr (ParamHeader c) = ?e @ ('' == '' @ ?l)"
      using eq by (simp add: param_text [OF assms] call_def mode_defs)
    moreover have "nested ('' == '' @ ?l)"
      using l by (intro nested_append) (simp_all add: nested_plain)
    moreover have "clear '' && '' 0 ('' == '' @ ?l) f" for f
      using l [of 0 f] by (simp add: clear_tail del: clear.simps(2))
    ultimately show ?thesis using call_part [OF p(2,1)] l by simp
  qed
qed

lemma condition_whole:
  "readable_condition c \<Longrightarrow> nested (buildRequestConditionExpr c) \<and> whole_part '' && '' (buildRequestConditionExpr c)"
  using time_whole range_whole param_whole by (cases c) (auto simp: readable_condition_def)

section \<open>Printed groups\<close>

lemma read_wrapped:
  assumes "readable_condition c" "is_range c"
  shows "tryParseRequestCondition (''('' @ buildRequestConditionExpr c @ '')'') = Some (Some c)"
  using assms read_range(2)
  by (cases c) (simp_all add: is_range_def readable_condition_def tryParseRequestCondition_def)

lemma join_nested: "nested sep \<Longrightarrow> list_all nested parts \<Longrightarrow> nested (join sep parts)"
  by (induction sep parts rule: join.induct) (auto simp: nested_def [of "[]"])

lemma parse_conditions_map:
  "list_all (\<lambda>c. trim (f c) = f c \<and> tryParseRequestCondition (f c) = Some (Some c)) cs \<Longrightarrow>
   parse_conditions (map f cs) = Some (Some cs)"
  by (induction cs) auto

text \<open>The text of one condition inside a group.\<close>

definition part_text :: "RequestCondition list \<Rightarrow> RequestCondition \<Rightarrow> string" where
  "part_text cs c =
     (if length cs = 1 then buildRequestConditionExpr c else wrap_alternative (buildRequestConditionExpr c))"

lemma part_facts:
  assumes "readable_condition c" "length cs = 1 \<or> is_range c \<or> \<not> js_includes (buildRequestConditionExpr c) '' || ''"
  shows "nested (part_text cs c) \<and> whole_part '' && '' (part_text cs c) \<and>
    tryParseRequestCondition (part_text cs c) = Some (Some c)"
  using condition_whole [OF assms(1)] read_condition [OF assms(1)] read_wrapped [OF assms(1)] assms(2)
    whole_parens [of "buildRequestConditionExpr c" "''&& ''"] nested_parens [of "buildRequestConditionExpr c"]
  by (auto simp: part_text_def wrap_alternative_def)

lemma group_parts:
  assumes "readable_group g" "c \<in> set (rg_conditions g)"
  shows "nested (part_text (rg_conditions g) c) \<and> whole_part '' && '' (part_text (rg_conditions g) c) \<and>
    tryParseRequestCondition (part_text (rg_conditions g) c) = Some (Some c)"
  using assms by (intro part_facts) (auto simp: readable_group_def list_all_iff)

abbreviation conditions_text :: "RequestRuleGroup \<Rightarrow> string" where
  "conditions_text g \<equiv> join '' && '' (map (part_text (rg_conditions g)) (rg_conditions g))"

lemma factor_text:
  assumes "readable_group g"
  shows "buildRuleGroupFactor g = ''('' @ conditions_text g @ '' ? '' @ rg_multiplier g @ '' : 1)''"
proof -
  let ?cs = "rg_conditions g"
  have r: "numeric_literal (rg_multiplier g)" "?cs \<noteq> []" "\<And>c. c \<in> set ?cs \<Longrightarrow> readable_condition c"
    using assms by (auto simp: readable_group_def list_all_iff)
  have ne: "buildRequestConditionExpr c \<noteq> []" if "c \<in> set ?cs" for c
    using condition_whole [OF r(3) [OF that]] by (simp add: whole_part_def)
  have f: "filter (\<lambda>e. e \<noteq> []) (map buildRequestConditionExpr ?cs) = map buildRequestConditionExpr ?cs"
    using ne by (simp add: filter_id_conv)
  have "(if length ?cs = 1 then hd (map buildRequestConditionExpr ?cs)
      else join '' && '' (map wrap_alternative (map buildRequestConditionExpr ?cs))) = conditions_text g"
  proof (cases "length ?cs = 1")
    case True
    then obtain c where "?cs = [c]" by (auto simp: length_Suc_conv)
    then show ?thesis by (simp add: part_text_def)
  next
    case False
    then have "map wrap_alternative (map buildRequestConditionExpr ?cs) = map (part_text ?cs) ?cs"
      by (simp add: part_text_def)
    then show ?thesis using False by (simp only: if_False)
  qed
  then show ?thesis
    using r(1,2) unfolding buildRuleGroupFactor_def f by (simp add: numeric_facts)
qed

lemma conditions_read:
  assumes "readable_group g"
  shows "nested (conditions_text g)" "conditions_text g \<noteq> []"
    "parse_conditions (splitTopLevelAnd (conditions_text g)) = Some (Some (rg_conditions g))"
proof -
  let ?cs = "rg_conditions g"
  have ne: "?cs \<noteq> []" using assms by (simp add: readable_group_def)
  note p = group_parts [OF assms]
  show "nested (conditions_text g)"
    using p by (intro join_nested) (auto simp: list_all_iff nested_plain)
  have "[] \<notin> set (map (part_text ?cs) ?cs)"
    using p unfolding whole_part_def by (metis imageE set_map)
  then show "conditions_text g \<noteq> []" using ne by (intro join_eq_Nil) simp_all
  have "splitTopLevelAnd (conditions_text g) = map (part_text ?cs) ?cs"
    using ne p by (intro conjuncts.split_join) (auto simp: list_all_iff)
  then show "parse_conditions (splitTopLevelAnd (conditions_text g)) = Some (Some ?cs)"
    using p by (simp add: parse_conditions_map list_all_iff whole_part_def)
qed

lemma m_factor_text:
  assumes "numeric_literal m" "s \<noteq> []"
  shows "m_factor (''('' @ s @ '' ? '' @ m @ '' : 1)'') = Some (s, m)"
proof -
  have "m_number (rev m @ CHR '' '' # r) = Some (rev m, CHR '' '' # r)" for r
    using numeric_facts [OF assms(1)] by simp
  then show ?thesis using assms(2) by (simp add: m_factor_def)
qed

lemma factor_read:
  assumes "readable_group g"
  shows "tryParseRuleGroupFactor (buildRuleGroupFactor g) = Some (Some g)"
proof -
  have m: "numeric_literal (rg_multiplier g)" "rg_conditions g \<noteq> []" using assms by (simp_all add: readable_group_def)
  show ?thesis
    using m_factor_text [OF m(1) conditions_read(2) [OF assms]] conditions_read(3) [OF assms] m(2)
    unfolding factor_text [OF assms] tryParseRuleGroupFactor_def by simp
qed

lemma factor_whole:
  assumes "readable_group g"
  shows "whole_part '' * '' (buildRuleGroupFactor g)" "nested (buildRuleGroupFactor g)"
    "\<exists>t. buildRuleGroupFactor g = ''('' @ t @ '')''"
proof -
  have m: "numeric_literal (rg_multiplier g)" using assms by (simp add: readable_group_def)
  let ?s = "conditions_text g @ '' ? '' @ rg_multiplier g @ '' : 1''"
  have n: "nested ?s"
    using conditions_read(1) [OF assms] numeric_nested [OF m] by (simp add: nested_plain del: append.simps)
  have e: "buildRuleGroupFactor g = ''('' @ ?s @ '')''"
    by (simp add: factor_text [OF assms])
  show "whole_part '' * '' (buildRuleGroupFactor g)" "nested (buildRuleGroupFactor g)"
    unfolding e using whole_parens [OF n] nested_parens [OF n] by blast+
  show "\<exists>t. buildRuleGroupFactor g = ''('' @ t @ '')''" using e by blast
qed

lemma parse_factors_map:
  "list_all readable_group gs \<Longrightarrow> parse_factors (map buildRuleGroupFactor gs) = Some (Some gs)"
  by (induction gs) (auto simp: factor_read)

lemma rule_text:
  assumes "list_all readable_group gs"
  shows "buildRequestRuleExpr gs = join '' * '' (map buildRuleGroupFactor gs)"
proof -
  have "filter (\<lambda>f. f \<noteq> []) (map buildRuleGroupFactor gs) = map buildRuleGroupFactor gs"
    using assms factor_whole(3) by (fastforce simp: filter_id_conv list_all_iff)
  then show ?thesis by (simp add: buildRequestRuleExpr_def)
qed

lemma join_ends:
  assumes "parts \<noteq> []" "list_all (\<lambda>p. \<exists>t. p = ''('' @ t @ '')'') parts"
  shows "\<exists>t. join sep parts = ''('' @ t @ '')''"
  using assms
proof (induction parts)
  case (Cons p parts)
  obtain t where p: "p = ''('' @ t @ '')''" using Cons.prems by auto
  show ?case
  proof (cases "parts = []")
    case False
    then obtain u where "join sep parts = ''('' @ u @ '')''" using Cons by auto
    then have "join sep (p # parts) = ''('' @ (t @ '')'' @ sep @ ''('' @ u) @ '')''"
      using False p by (simp add: join_Cons)
    then show ?thesis by blast
  qed (simp add: p)
qed simp

lemma rule_trim:
  assumes "list_all readable_group gs" "gs \<noteq> []"
  shows "trim (buildRequestRuleExpr gs) = buildRequestRuleExpr gs" "buildRequestRuleExpr gs \<noteq> []"
proof -
  have "\<exists>t. join '' * '' (map buildRuleGroupFactor gs) = ''('' @ t @ '')''"
    using assms factor_whole(3) by (intro join_ends) (auto simp: list_all_iff)
  then obtain t where t: "buildRequestRuleExpr gs = ''('' @ t @ '')''"
    using rule_text [OF assms(1)] by auto
  show "trim (buildRequestRuleExpr gs) = buildRequestRuleExpr gs"
    unfolding t by (rule trim_edges) (simp_all add: is_ws_def)
  show "buildRequestRuleExpr gs \<noteq> []" unfolding t by simp
qed

lemma rule_split:
  assumes "list_all readable_group gs" "gs \<noteq> []"
  shows "splitTopLevelMultiply (buildRequestRuleExpr gs) = map buildRuleGroupFactor gs"
  unfolding rule_text [OF assms(1)]
  using assms factor_whole(1) by (intro factors.split_join) (auto simp: list_all_iff)

lemma rules_read:
  assumes "list_all readable_group gs"
  shows "tryParseRequestRuleExpr (buildRequestRuleExpr gs) = Some (Some gs)"
proof (cases "gs = []")
  case True
  then show ?thesis by (simp add: tryParseRequestRuleExpr_def buildRequestRuleExpr_def)
next
  case False
  then show ?thesis
    using rule_trim [OF assms False] rule_split [OF assms False] parse_factors_map [OF assms]
    by (simp add: tryParseRequestRuleExpr_def)
qed

text \<open>C28: rules that a careful user can write are read back as they were: when every group has a numeric multiplier and
  conditions of the readable kinds, parsing the printed rule expression gives the same groups.\<close>

theorem request_rules_roundtrip:
  assumes "list_all readable_group gs"
  shows "tryParseRequestRuleExpr (buildRequestRuleExpr gs) = Some (Some gs)"
  using assms by (rule rules_read)

definition sample_rules :: "RequestRuleGroup list" where
  "sample_rules =
     [\<lparr>rg_conditions =
         [TimeCond \<lparr>tc_timeFunc = ''hour'', tc_timezone = ''Asia/Shanghai'', tc_mode = MATCH_RANGE, tc_value = [],
                    tc_rangeStart = ''21'', tc_rangeEnd = ''6''\<rparr>,
          ParamHeader \<lparr>ph_source = ''header'', ph_path = ''x-plan'', ph_mode = MATCH_CONTAINS, ph_value = ''pro''\<rparr>],
       rg_multiplier = ''0.5''\<rparr>,
      \<lparr>rg_conditions =
         [ParamHeader \<lparr>ph_source = ''param'', ph_path = ''stream'', ph_mode = MATCH_EQ, ph_value = ''true''\<rparr>],
       rg_multiplier = ''2''\<rparr>]"

lemma sample_rules_readable: "list_all readable_group sample_rules"
  by code_simp

theorem request_rules_roundtrip_witness:
  "tryParseRequestRuleExpr (buildRequestRuleExpr sample_rules) = Some (Some sample_rules)"
  using request_rules_roundtrip [OF sample_rules_readable] .

section \<open>Unwrapping\<close>

lemma outer_length: "hasFullOuterParens s \<Longrightarrow> 2 \<le> length s"
proof -
  assume "hasFullOuterParens s"
  then have "startsWith s ''(''" "endsWith s '')''" by (auto simp: hasFullOuterParens_def split: if_splits)
  then show ?thesis
    by (cases s; cases "tl s") (auto simp: startsWith_def endsWith_def)
qed

lemma inside_length: "hasFullOuterParens s \<Longrightarrow> length (trim (inside s)) + 2 \<le> length s"
  using outer_length [of s] trim_length [of "inside s"] by (simp add: inside_def)

lemma unwrap_loop_layers:
  "\<not> hasFullOuterParens (unwrap_loop s) \<and> (\<exists>n. 2 * n \<le> length s \<and> unwrap_loop s = ((\<lambda>u. trim (inside u)) ^^ n) s)"
proof (induction s rule: unwrap_loop.induct)
  case (1 s)
  show ?case
  proof (cases "hasFullOuterParens s")
    case True
    then have e: "unwrap_loop s = unwrap_loop (trim (inside s))" by (subst unwrap_loop.simps) simp
    obtain n where n: "2 * n \<le> length (trim (inside s))"
        "unwrap_loop (trim (inside s)) = ((\<lambda>u. trim (inside u)) ^^ n) (trim (inside s))"
      using 1 [OF True] by blast
    have "2 * Suc n \<le> length s" using n(1) inside_length [OF True] by simp
    moreover have "unwrap_loop s = ((\<lambda>u. trim (inside u)) ^^ Suc n) s"
      unfolding e n(2) funpow_Suc_right by simp
    ultimately show ?thesis using 1 [OF True] e by metis
  next
    case False
    then have "unwrap_loop s = s" by (subst unwrap_loop.simps) simp
    then show ?thesis using False by (intro conjI exI [of _ 0]) simp_all
  qed
qed


section \<open>Combining and splitting\<close>

lemma outer_loop_deep: "above (d - 1) s \<Longrightarrow> depth_after d s = 1 \<Longrightarrow> outer_loop d (s @ '')'')"
proof (induction s arbitrary: d)
  case (Cons c s)
  have "bump (d - 1) c = bump d c - 1"
    using bump_shift [of d "- 1" c] by simp
  then show ?case using Cons by auto
qed simp

lemma outer_parens: "nested t \<Longrightarrow> hasFullOuterParens (''('' @ t @ '')'')"
  using outer_loop_deep [of 1 t] by (simp add: hasFullOuterParens_def startsWith_def endsWith_def nested_def [of t])

lemma unwrap_parens:
  assumes "nested t" "trim t = t"
  shows "unwrapOuterParens (''('' @ t @ '')'') = unwrapOuterParens t"
proof -
  have "trim (''('' @ t @ '')'') = ''('' @ t @ '')''"
    by (rule trim_edges) (simp_all add: is_ws_def)
  moreover have "unwrap_loop (''('' @ t @ '')'') = unwrap_loop t"
    using outer_parens [OF assms(1)] assms(2) by (subst unwrap_loop.simps) (simp add: inside_def)
  ultimately show ?thesis by (simp add: unwrapOuterParens_def assms(2))
qed

lemma sort_rule_parts:
  "list_all readable_group gs \<Longrightarrow> sort_parts (map buildRuleGroupFactor gs) = Some (map buildRuleGroupFactor gs, [])"
proof (induction gs)
  case (Cons g gs)
  have "tryParseRequestRuleExpr (buildRuleGroupFactor g) = Some (Some [g])"
    using Cons.prems rule_text [of "[g]"] rule_trim [of "[g]"] rule_split [of "[g]"] factor_read [of g]
    by (simp add: tryParseRequestRuleExpr_def)
  then show ?case using Cons by simp
qed simp

lemma combined_splits:
  assumes "list_all readable_group gs" "gs \<noteq> []" "trim base \<noteq> []" "nested (trim base)"
    and "tryParseRequestRuleExpr (''('' @ trim base @ '')'') = Some None"
  shows "splitBillingExprAndRequestRules (combineBillingExpr base (buildRequestRuleExpr gs)) =
    Some \<lparr>se_billingExpr = unwrapOuterParens base, se_requestRuleExpr = buildRequestRuleExpr gs\<rparr>"
proof -
  let ?b = "''('' @ trim base @ '')''" and ?fs = "map buildRuleGroupFactor gs"
  note r = rule_trim [OF assms(1,2)] and e = rule_text [OF assms(1)]
  have c: "combineBillingExpr base (buildRequestRuleExpr gs) = join '' * '' (?b # ?fs)"
    using r assms(2,3) by (simp add: combineBillingExpr_def e join_Cons)
  have "\<exists>t. join '' * '' (?b # ?fs) = ''('' @ t @ '')''"
    using assms(1) factor_whole(3) by (intro join_ends) (auto simp: list_all_iff)
  then have t: "trim (join '' * '' (?b # ?fs)) = join '' * '' (?b # ?fs)" "join '' * '' (?b # ?fs) \<noteq> []"
    by (auto intro!: trim_edges simp: is_ws_def)
  have s: "splitTopLevelMultiply (join '' * '' (?b # ?fs)) = ?b # ?fs"
    using assms(1) factor_whole(1) whole_parens [OF assms(4)] by (intro factors.split_join) (auto simp: list_all_iff)
  have p: "sort_parts (?b # ?fs) = Some (?fs, [?b])"
    using sort_rule_parts [OF assms(1)] assms(5) by simp
  have "splitBillingExprAndRequestRules (join '' * '' (?b # ?fs)) =
      Some \<lparr>se_billingExpr = unwrapOuterParens ?b, se_requestRuleExpr = join '' * '' ?fs\<rparr>"
    unfolding splitBillingExprAndRequestRules_def Let_def t(1) s p using t(2) assms(2) by simp
  moreover have "unwrapOuterParens ?b = unwrapOuterParens base"
    using unwrap_parens [OF assms(4) trim_idem] by (simp add: unwrapOuterParens_def)
  ultimately show ?thesis unfolding c by (simp only: e)
qed

text \<open>C29: a billing expression combined with rules splits back: the rules are the printed ones and the base comes
  without its outer parentheses, if its parentheses match and it is not a rule itself.\<close>

theorem split_combine:
  assumes "list_all readable_group gs" "gs \<noteq> []" "trim base \<noteq> []" "nested (trim base)"
    and "tryParseRequestRuleExpr (''('' @ trim base @ '')'') = Some None"
  shows "splitBillingExprAndRequestRules (combineBillingExpr base (buildRequestRuleExpr gs)) =
    Some \<lparr>se_billingExpr = unwrapOuterParens base, se_requestRuleExpr = buildRequestRuleExpr gs\<rparr>"
  using assms by (rule combined_splits)

theorem split_combine_witness:
  "splitBillingExprAndRequestRules (combineBillingExpr ''tier(base, p * 2.5 + c * 15)'' (buildRequestRuleExpr sample_rules)) =
    Some \<lparr>se_billingExpr = unwrapOuterParens ''tier(base, p * 2.5 + c * 15)'',
          se_requestRuleExpr = buildRequestRuleExpr sample_rules\<rparr>"
proof (rule split_combine [OF sample_rules_readable])
  show "sample_rules \<noteq> []" by (simp add: sample_rules_def)
  show "trim ''tier(base, p * 2.5 + c * 15)'' \<noteq> []" "nested (trim ''tier(base, p * 2.5 + c * 15)'')"
    "tryParseRequestRuleExpr (''('' @ trim ''tier(base, p * 2.5 + c * 15)'' @ '')'') = Some None"
    by code_simp+
qed

section \<open>Conditions after editing\<close>

definition condition_ok :: "RequestCondition \<Rightarrow> bool" where
  "condition_ok c =
     (case c of
        TimeCond t \<Rightarrow>
          tc_timeFunc t \<in> set TIME_FUNCS \<and> tc_timezone t \<noteq> [] \<and>
          tc_mode t \<in> set (map fst (getRequestRuleMatchOptions SOURCE_TIME))
      | ParamHeader p \<Rightarrow>
          ph_source p \<in> set [SOURCE_PARAM, SOURCE_HEADER] \<and>
          ph_mode p \<in> set (map fst (getRequestRuleMatchOptions (ph_source p))))"

text \<open>Whatever fields an edited condition lacks or has wrong, normalising it gives a condition of one of the
  three sources with a known time function, a time zone and a match mode that the editor offers for that source.\<close>

theorem normalized_condition_ok: "condition_ok (normalizeCondition c)"
  by (auto simp: condition_ok_def normalizeCondition_def isTimeFunc_def getRequestRuleMatchOptions_def mode_defs
      TIME_FUNCS_def js_ops Let_def split: option.splits)

lemma normalize_ok: "condition_ok c \<Longrightarrow> normalizeCondition (Some (as_partial c)) = c"
  by (cases c)
    (auto simp: condition_ok_def normalizeCondition_def as_partial_def isTimeFunc_def getRequestRuleMatchOptions_def
      mode_defs TIME_FUNCS_def js_ops Let_def)

section \<open>Comparisons of a parameter\<close>

text \<open>The two parts into which a comparison is split.\<close>

lemma comparison_unread:
  assumes "plain_name p" "opr \<in> set [''>'', ''>='', ''<'', ''<='']"
  shows "tryParseRequestCondition (call ''param'' p @ '' '' @ opr @ '' '' @ v) = Some None"
proof -
  let ?s = "call ''param'' p @ '' '' @ opr @ '' '' @ v"
  note f = plain_facts [OF assms(1)]
  have o: "opr = ''>'' \<or> opr = ''>='' \<or> opr = ''<'' \<or> opr = ''<=''" using assms(2) by simp
  have "tryParseTimeCondition ?s = None"
    using not_time(1) [of "dq @ p @ dq @ '')'' @ '' '' @ opr @ '' '' @ v"] by (simp add: call_def)
  moreover have "m_header_exists ?s = None" "m_header_contains ?s = None"
    by (simp_all add: call_def m_header_exists_def m_header_contains_def)
  moreover have "m_param_exists ?s = None" "m_param_contains ?s = None" "m_param_compare ?s = None"
    using f o by (auto simp: call_def m_param_exists_def m_param_contains_def m_param_compare_def)
  moreover have "m_equals ?s = None"
    using f o one_of_source(1) by (auto simp: call_def m_equals_def)
  ultimately show ?thesis unfolding tryParseRequestCondition_def by simp
qed

lemma comparison_whole:
  assumes "plain_name p" "opr \<in> set [''>'', ''>='', ''<'', ''<='']" "numeric_literal v"
  shows "nested (call ''param'' p @ '' '' @ opr @ '' '' @ v) \<and> whole_part '' && '' (call ''param'' p @ '' '' @ opr @ '' '' @ v)"
proof -
  have o: "opr = ''>'' \<or> opr = ''>='' \<or> opr = ''<'' \<or> opr = ''<=''" using assms(2) by simp
  let ?r = "'' '' @ opr @ '' '' @ v"
  have "nested '' ''" "nested opr" using o by (auto intro: nested_plain)
  then have "nested ?r" using numeric_nested [OF assms(3)] by (simp del: append.simps)
  moreover have "clear '' && '' 0 ?r f" for f
    using o numeric_facts(2) [OF assms(3)] assms(3) by (elim disjE) (simp_all add: clear_tail del: clear.simps(2))
  moreover have "\<not> is_ws (last ?r)"
    using numeric_word [OF assms(3)] unfolding word_def list_all_iff by simp
  ultimately show ?thesis
    using call_part [of "''param''" p ?r] source_word assms(1) by simp
qed

lemma exists_whole: "plain_name p \<Longrightarrow> whole_part '' && '' (call ''param'' p @ '' != nil'')"
  using call_part [of "''param''" p "'' != nil''"] source_word
  by (simp add: nested_plain startsWith_simps is_ws_def)

lemma factor_unread:
  assumes "numeric_literal m" "nested s" "s \<noteq> []" "parse_conditions (splitTopLevelAnd s) = Some None"
  shows "tryParseRequestRuleExpr (''('' @ s @ '' ? '' @ m @ '' : 1)'') = Some None"
proof -
  let ?s = "s @ '' ? '' @ m @ '' : 1''" and ?f = "''('' @ s @ '' ? '' @ m @ '' : 1)''"
  have "nested ?s"
    using assms(2) numeric_nested [OF assms(1)] by (simp add: nested_plain del: append.simps)
  then have w: "whole_part '' * '' ?f"
    using whole_parens [of ?s "''* ''"] by simp
  then have "splitTopLevelMultiply ?f = [?f]" "trim ?f = ?f"
    using factors.split_join [of "[?f]"] by (simp_all add: whole_part_def)
  moreover have "tryParseRuleGroupFactor ?f = Some None"
    unfolding tryParseRuleGroupFactor_def m_factor_text [OF assms(1,3)] using assms(4) by simp
  ultimately show ?thesis by (simp add: tryParseRequestRuleExpr_def)
qed

lemma guarded_unread:
  assumes "plain_name p" "numeric_literal m" "nested b" "whole_part '' && '' b" "tryParseRequestCondition b = Some None"
    and e: "buildRequestConditionExpr c = call ''param'' p @ '' != nil'' @ '' && '' @ b"
  shows "tryParseRequestRuleExpr (buildRequestRuleExpr [\<lparr>rg_conditions = [c], rg_multiplier = m\<rparr>]) = Some None"
proof -
  let ?a = "call ''param'' p @ '' != nil''"
  let ?s = "join '' && '' [?a, b]"
  have s: "buildRequestConditionExpr c = ?s" by (simp add: e)
  have a: "trim ?a = ?a" "nested ?a"
    using exists_whole [OF assms(1)] call_nested [OF source_word assms(1)] by (simp_all add: whole_part_def nested_plain)
  have n: "nested ?s" using a(2) assms(3) by (intro join_nested) (simp_all add: nested_plain)
  have "splitTopLevelAnd ?s = [?a, b]"
    using exists_whole [OF assms(1)] assms(4) by (intro conjuncts.split_join) simp_all
  moreover have "tryParseRequestCondition ?a = Some (Some (param_header ''param'' p MATCH_EXISTS []))"
    using read_exists(2) [OF assms(1)] by (simp add: call_def)
  ultimately have r: "parse_conditions (splitTopLevelAnd ?s) = Some None"
    using a(1) assms(4,5) by (simp add: whole_part_def)
  have "buildRequestRuleExpr [\<lparr>rg_conditions = [c], rg_multiplier = m\<rparr>] = ''('' @ ?s @ '' ? '' @ m @ '' : 1)''"
    using assms(2) s by (simp add: buildRequestRuleExpr_def buildRuleGroupFactor_def numeric_facts)
  then show ?thesis using factor_unread [OF assms(2) n _ r] by simp
qed

text \<open>C32: a rule that compares a numeric request parameter is printed but never read back: its text contains the
  conjunction at which the reader splits before it matches conditions, so the rule expression parses as null.\<close>

theorem numeric_comparison_not_read:
  assumes "plain_name p" "trim p = p" "numeric_literal v" "numeric_literal m"
    and "mode \<in> set [MATCH_GT, MATCH_GTE, MATCH_LT, MATCH_LTE]"
  shows "tryParseRequestRuleExpr (buildRequestRuleExpr
      [\<lparr>rg_conditions = [param_header ''param'' p mode v], rg_multiplier = m\<rparr>]) = Some None"
proof -
  let ?c = "param_header ''param'' p mode v" and ?o = "compare_mode_op mode"
  have o: "?o \<in> set [''>'', ''>='', ''<'', ''<='']"
    using assms(5) by (auto simp: compare_mode_op_def mode_defs js_ops)
  have n: "normalizeCondition (Some (as_partial ?c)) = ?c"
    using assms(5) by (intro normalize_ok) (auto simp: condition_ok_def param_header_def getRequestRuleMatchOptions_def mode_defs)
  have e: "buildRequestConditionExpr ?c = call ''param'' p @ '' != nil'' @ '' && '' @ call ''param'' p @ '' '' @ ?o @ '' '' @ v"
    using assms plain_facts(1) [OF assms(1)] n numeric_facts(3) [OF assms(3)]
    by (auto simp: buildRequestConditionExpr_def param_header_def plain_quote call_def mode_defs)
  show ?thesis
    using comparison_whole [OF assms(1) o assms(3)] comparison_unread [OF assms(1) o]
    by (intro guarded_unread [OF assms(1,4) _ _ _ e]) simp_all
qed

theorem numeric_comparison_not_read_witness:
  "tryParseRequestRuleExpr (buildRequestRuleExpr
      [\<lparr>rg_conditions = [param_header ''param'' ''max_tokens'' MATCH_GT ''1000''], rg_multiplier = ''2''\<rparr>]) = Some None"
proof (rule numeric_comparison_not_read)
  show "plain_name ''max_tokens''" "trim ''max_tokens'' = ''max_tokens''" "numeric_literal ''1000''" "numeric_literal ''2''"
    by code_simp+
qed (simp add: mode_defs)

lemma param_contains_not_read:
  assumes "plain_name p" "trim p = p" "trim v = v" "no_parens v" "numeric_literal m"
  shows "tryParseRequestRuleExpr (buildRequestRuleExpr
      [\<lparr>rg_conditions = [param_header ''param'' p MATCH_CONTAINS v], rg_multiplier = m\<rparr>]) = Some None"
proof -
  let ?c = "param_header ''param'' p MATCH_CONTAINS v"
  let ?b = "''has'' @ ''('' @ (call ''param'' p @ '', '' @ quote v) @ '')''"
  have n: "normalizeCondition (Some (as_partial ?c)) = ?c"
    by (intro normalize_ok) (simp add: condition_ok_def param_header_def getRequestRuleMatchOptions_def mode_defs)
  have e: "buildRequestConditionExpr ?c = call ''param'' p @ '' != nil'' @ '' && '' @ ?b"
    using assms plain_facts(1) [OF assms(1)] n
    by (simp add: buildRequestConditionExpr_def param_header_def plain_quote call_def mode_defs buildExprLiteral_def)
  have "nested (call ''param'' p @ '', '' @ quote v)"
    using call_nested [OF source_word assms(1)] nested_plain [OF quote_no_parens [OF assms(4)]]
    by (simp add: nested_plain del: append.simps)
  note h = has_part [OF this]
  have "tryParseRequestCondition ?b = Some None"
    unfolding tryParseRequestCondition_def
    using not_time(3) [of "(call ''param'' p @ '', '' @ quote v) @ '')''"]
    by (simp add: call_def m_header_exists_def m_param_exists_def m_header_contains_def m_param_contains_def
        m_param_compare_def m_equals_def m_one_of_def startsWith_simps)
  then show ?thesis
    using h by (intro guarded_unread [OF assms(1,5) _ _ _ e]) simp_all
qed

end
