(* ===== verification/TierRoundtrip.thy ===== *)
theory TierRoundtrip
  imports TierPricing RuleRoundtrip
begin

text \<open>
  Reading back what the tier editor prints. \<open>first\<close> is the preferred match of a pattern; the lemmas follow it along
  the printed text: numbers, prices, conditions, tiers.
\<close>

section \<open>Preferred matches\<close>

definition first :: "rx \<Rightarrow> string \<Rightarrow> (string \<times> string option list) option" where
  "first a s = (case a s of [] \<Rightarrow> None | x # _ \<Rightarrow> Some x)"

lemma first_Some: "first a s = Some x \<longleftrightarrow> (\<exists>xs. a s = x # xs)"
  by (auto simp: first_def split: list.splits)

lemma lit_simps [simp]:
  "r_lit [] s = [(s, [])]" "r_lit (a # p) (b # s) = (if a = b then r_lit p s else [])" "r_lit (a # p) [] = []"
  by (auto simp: r_lit_def startsWith_def)

lemma many_simps [simp]:
  "r_many P [] = [([], [])]" "r_many P (c # s) = (if P c then r_many P s @ [(c # s, [])] else [(c # s, [])])"
proof -
  show "r_many P [] = [([], [])]" by (simp add: r_many_def)
  have "map (\<lambda>k. (drop k (c # s), [])) (rev [0..<Suc (Suc n)]) =
      map (\<lambda>k. (drop k s, [])) (rev [0..<Suc n]) @ [(c # s, [] :: string option list)]" for n
  proof -
    have "[0..<Suc (Suc n)] = 0 # map Suc [0..<Suc n]" by (simp add: upt_conv_Cons map_Suc_upt del: upt_Suc)
    then show ?thesis by (simp add: rev_map comp_def del: upt_Suc)
  qed
  then show "r_many P (c # s) = (if P c then r_many P s @ [(c # s, [])] else [(c # s, [])])"
    by (simp add: r_many_def del: upt_Suc) (simp add: r_many_def)
qed

lemma some_simps [simp]: "r_some P [] = []" "r_some P (c # s) = (if P c then r_many P s else [])"
proof -
  show "r_some P [] = []" by (simp add: r_some_def)
  have "map (\<lambda>k. (drop k (c # s), [])) (rev [1..<Suc (Suc n)]) =
      map (\<lambda>k. (drop k s, [] :: string option list)) (rev [0..<Suc n])" for n
  proof -
    have "[1..<Suc (Suc n)] = map Suc [0..<Suc n]" by (simp add: map_Suc_upt del: upt_Suc)
    then show ?thesis by (simp add: rev_map comp_def del: upt_Suc)
  qed
  then show "r_some P (c # s) = (if P c then r_many P s else [])"
    by (simp add: r_some_def r_many_def del: upt_Suc)
qed

lemma first_lit [simp]: "first (r_lit p) (p @ s) = Some (s, [])"
  by (simp add: first_def r_lit_def)

lemma first_many: "list_all P t \<Longrightarrow> ends P s \<Longrightarrow> first (r_many P) (t @ s) = Some (s, [])"
proof (induction t)
  case Nil
  then show ?case by (cases s) (simp_all add: first_def)
next
  case (Cons c t)
  then show ?case by (auto simp: first_Some)
qed

lemma first_some: "list_all P t \<Longrightarrow> t \<noteq> [] \<Longrightarrow> ends P s \<Longrightarrow> first (r_some P) (t @ s) = Some (s, [])"
  using first_many [of P "tl t" s] by (cases t) (simp_all add: first_def)

lemma first_seq:
  assumes "first a s = Some (r, c)" "first b r = Some (q, d)"
  shows "first (r_seq a b) s = Some (q, c @ d)"
  using assms by (auto simp: first_Some r_seq_def)

lemma first_cap: "first a (t @ s) = Some (s, c) \<Longrightarrow> first (r_cap a) (t @ s) = Some (s, Some t # c)"
  by (auto simp: first_Some r_cap_def)

lemma first_opt: "first a s = Some x \<Longrightarrow> first (r_opt k a) s = Some x"
  by (auto simp: first_Some r_opt_def)

lemma first_opt_none: "a s = [] \<Longrightarrow> first (r_opt k a) s = Some (s, replicate k None)"
  by (simp add: first_def r_opt_def)

lemma first_all_Cons:
  "first a s = Some (r, c) \<Longrightarrow> first (r_all as) r = Some (q, d) \<Longrightarrow> first (r_all (a # as)) s = Some (q, c @ d)"
  by (simp add: first_seq)

lemma first_all_Nil [simp]: "first (r_all []) s = Some (s, [])"
  by (simp add: first_def)

lemma seq_assoc: "r_seq (r_seq a b) c s = r_seq a (r_seq b c) s"
proof -
  have "concat (map (\<lambda>(r, x). map (\<lambda>(q, d). (q, x @ d)) (c r))
        (concat (map (\<lambda>(r, x). map (\<lambda>(q, d). (q, x @ d)) (b r)) xs))) =
      concat (map (\<lambda>(r, x). map (\<lambda>(q, d). (q, x @ d)) (r_seq b c r)) xs)" for xs
    by (induction xs) (auto simp: r_seq_def map_concat comp_def case_prod_beta)
  then show ?thesis by (simp add: r_seq_def)
qed

lemma all_append: "r_all (as @ bs) = r_seq (r_all as) (r_all bs)"
proof (induction as)
  case Nil
  show ?case by (rule ext) (simp add: r_seq_def case_prod_beta)
next
  case (Cons a as)
  then show ?case by (intro ext) (simp add: seq_assoc)
qed

lemma first_all_append:
  "first (r_all as) s = Some (r, c) \<Longrightarrow> first (r_all bs) r = Some (q, d) \<Longrightarrow> first (r_all (as @ bs)) s = Some (q, c @ d)"
  unfolding all_append by (rule first_seq)

text \<open>Alternatives, tried with what follows them.\<close>

lemma seq_alt: "r_seq (r_alt as) b s = concat (map (\<lambda>a. r_seq a b s) as)"
  by (induction as) (simp_all add: r_alt_def r_seq_def)

lemma cap_alt: "r_cap (r_alt as) = r_alt (map r_cap as)"
  by (rule ext) (simp add: r_cap_def r_alt_def map_concat comp_def)

lemma seq_fails: "a s = [] \<Longrightarrow> r_seq a b s = []"
  by (simp add: r_seq_def)

lemma cap_lit: "r_cap (r_lit p) s = (if startsWith s p then [(drop (length p) s, [Some p])] else [])"
proof (cases "startsWith s p")
  case True
  then obtain t where "s = p @ t" by (auto simp: startsWith_iff)
  then show ?thesis by (simp add: r_cap_def r_lit_def)
qed (simp add: r_cap_def r_lit_def)

section \<open>Reading prices\<close>

abbreviation price_keys :: "string list" where
  "price_keys \<equiv> [''p'', ''c'', ''cr'', ''cc'', ''cc1h'', ''img'', ''img_o'', ''ai'', ''ao'']"

lemma price_literals: "map (\<lambda>v. r_lit (bv_key v)) BILLING_PRICING_VARS = map r_lit price_keys"
  by (simp add: BILLING_PRICING_VARS_def BILLING_VARS_def billing_var_def)

lemma ws_facts [simp]: "\<not> is_ws CHR ''*''" "\<not> is_ws CHR ''+''" "\<not> is_ws CHR ''?''" "\<not> is_ws CHR '':''" "\<not> is_ws CHR ''&''"
  "\<not> is_ws CHR 0x22" "\<not> is_ws CHR '')''"
  by (simp_all add: is_ws_def)

lemma number_ends:
  assumes "number_text n"
  shows "ends is_ws (n @ r)" "list_all num_char n" "list_all cond_char n" "n \<noteq> []"
proof -
  obtain c t where n: "n = c # t" using assms by (cases n) (simp_all add: number_text_def)
  have "is_digit c \<or> c = CHR ''.''" using assms n by (simp add: number_text_def)
  then have "\<not> is_ws c" using digit_not_ws by (auto simp: is_ws_def)
  then show "ends is_ws (n @ r)" by (simp add: n)
  show "list_all num_char n" "list_all cond_char n"
    using assms by (auto simp: number_text_def list_all_iff num_char_def cond_char_def)
  show "n \<noteq> []" using n by simp
qed

lemma blank_many: "list_all is_ws '' ''" "list_all is_ws []"
  by simp_all

text \<open>A coefficient: blanks, the operator, blanks, the number.\<close>

abbreviation factor_rx :: "rx list" where
  "factor_rx \<equiv> [ws, r_lit ''*'', ws, r_cap (r_some num_char)]"

lemma factor_first:
  assumes "number_text n" "ends num_char r"
  shows "first (r_all factor_rx) ('' * '' @ n @ r) = Some (r, [Some n])"
proof -
  have a: "first ws ('' '' @ ''*'' @ '' '' @ n @ r) = Some (''*'' @ '' '' @ n @ r, [])"
    by (rule first_many) simp_all
  have b: "first ws ('' '' @ n @ r) = Some (n @ r, [])"
    by (rule first_many) (simp_all add: number_ends [OF assms(1)])
  have c: "first (r_cap (r_some num_char)) (n @ r) = Some (r, [Some n])"
    by (intro first_cap first_some) (simp_all add: number_ends [OF assms(1)] assms(2))
  have d: "first (r_lit ''*'') (''*'' @ '' '' @ n @ r) = Some ('' '' @ n @ r, [])" by (rule first_lit)
  have "first (r_all factor_rx) ('' '' @ ''*'' @ '' '' @ n @ r) = Some (r, [] @ [] @ [] @ [Some n] @ [])"
    by (intro first_all_Cons [OF a] first_all_Cons [OF d] first_all_Cons [OF b] first_all_Cons [OF c] first_all_Nil)
  then show ?thesis by simp
qed

lemma factor_fails: "\<not> is_ws c \<Longrightarrow> c \<noteq> CHR ''*'' \<Longrightarrow> r_all factor_rx (c # s) = []"
  by (simp add: r_seq_def)

lemma cap_lit_seq:
  "r_seq (r_cap (r_lit k)) b s = (if startsWith s k then map (\<lambda>(q, d). (q, Some k # d)) (b (drop (length k) s)) else [])"
  by (simp add: r_seq_def cap_lit)

lemma price_seq:
  assumes "k \<in> set price_keys" "\<And>c t. c \<in> set ''r1h_o'' \<union> set ''c'' \<Longrightarrow> b (c # t) = []"
  shows "r_seq (r_cap (r_alt (map r_lit price_keys))) b (k @ CHR '' '' # s) = map (\<lambda>(q, d). (q, Some k # d)) (b (CHR '' '' # s))"
proof -
  have "k = ''p'' \<or> k = ''c'' \<or> k = ''cr'' \<or> k = ''cc'' \<or> k = ''cc1h'' \<or> k = ''img'' \<or> k = ''img_o'' \<or> k = ''ai'' \<or> k = ''ao''"
    using assms(1) by simp
  then show ?thesis
    unfolding cap_alt seq_alt using assms(2)
    by (elim disjE) (simp_all add: cap_lit_seq startsWith_simps)
qed

lemma price_first:
  assumes "k \<in> set price_keys" "number_text n" "ends num_char r" "at_word_start prev"
  shows "first (BILLING_VAR_REGEX prev) (k @ '' * '' @ n @ r) = Some (r, [Some k, Some n])"
proof -
  have "r_seq (r_cap (r_alt (map r_lit price_keys))) (r_all factor_rx) (k @ CHR '' '' # ''* '' @ n @ r) =
      map (\<lambda>(q, d). (q, Some k # d)) (r_all factor_rx (CHR '' '' # ''* '' @ n @ r))"
    by (rule price_seq [OF assms(1)], rule factor_fails) (auto simp: is_ws_def)
  moreover obtain xs where "r_all factor_rx (CHR '' '' # ''* '' @ n @ r) = (r, [Some n]) # xs"
    using factor_first [OF assms(2,3)] by (auto simp: first_Some)
  ultimately show ?thesis
    using assms(4) by (simp add: first_def BILLING_VAR_REGEX_def price_literals)
qed

text \<open>Between the prices nothing matches.\<close>

lemma price_none:
  assumes "c \<in> set '' +''"
  shows "BILLING_VAR_REGEX prev (c # s) = []"
proof -
  have "c = CHR '' '' \<or> c = CHR ''+''" using assms by simp
  then show ?thesis
    unfolding BILLING_VAR_REGEX_def price_literals r_all.simps cap_alt seq_alt
    by (elim disjE) (simp_all add: cap_lit_seq startsWith_simps)
qed

lemma exec_none: "m prev (c # s) = [] \<Longrightarrow> exec_all m prev (c # s) = exec_all m (Some c) s"
  by (subst exec_all.simps) simp

lemma exec_match:
  assumes "first (m prev) (t @ r) = Some (r, g)" "t \<noteq> []"
  shows "exec_all m prev (t @ r) = g # exec_all m (Some (last t)) r"
proof -
  obtain xs where x: "m prev (t @ r) = (r, g) # xs" using assms(1) by (auto simp: first_Some)
  obtain c u where t: "t = c # u" using assms(2) by (cases t) auto
  have "(t @ r) ! (length (t @ r) - length r - 1) = last t"
    using assms(2) by (simp add: nth_append last_conv_nth)
  then show ?thesis using x t by (subst exec_all.simps) simp
qed

lemma exec_Nil [simp]: "exec_all m prev [] = []"
  by (subst exec_all.simps) simp

lemma blank_start [simp]: "at_word_start (Some CHR '' '')" "at_word_start None"
  by (simp_all add: at_word_start_def is_word_def is_digit_def)

abbreviation price_text :: "string \<times> rat \<Rightarrow> string" where
  "price_text kv \<equiv> fst kv @ '' * '' @ show_num (snd kv)"

definition priced :: "string \<times> rat \<Rightarrow> bool" where
  "priced kv \<longleftrightarrow> fst kv \<in> set price_keys \<and> decimal (snd kv)"

lemma exec_prices:
  assumes "list_all priced kvs" "at_word_start prev"
  shows "exec_all BILLING_VAR_REGEX prev (join '' + '' (map price_text kvs)) =
    map (\<lambda>kv. [Some (fst kv), Some (show_num (snd kv))]) kvs"
  using assms
proof (induction kvs arbitrary: prev)
  case (Cons kv kvs)
  have k: "fst kv \<in> set price_keys" "number_text (show_num (snd kv))"
    using Cons.prems(1) show_decimal by (simp_all add: priced_def)
  have step: "exec_all BILLING_VAR_REGEX prev (price_text kv @ r) =
      [Some (fst kv), Some (show_num (snd kv))] # exec_all BILLING_VAR_REGEX (Some (last (price_text kv))) r"
    if "ends num_char r" for r
    using price_first [OF k that Cons.prems(2)] by (intro exec_match) simp_all
  show ?case
  proof (cases "kvs = []")
    case True
    then show ?thesis using step [of "[]"] by simp
  next
    case False
    have "exec_all BILLING_VAR_REGEX p ('' + '' @ s) = exec_all BILLING_VAR_REGEX (Some CHR '' '') s" for p s
      by (simp add: exec_none price_none)
    then show ?thesis
      using step [of "'' + '' @ join '' + '' (map price_text kvs)"] Cons False by (simp add: join_Cons)
  qed
qed simp

lemma coeffs_distinct:
  assumes "distinct (map fst cs @ map fst kvs)" "list_all priced kvs"
  shows "foldl add_coeff cs (map (\<lambda>kv. [Some (fst kv), Some (show_num (snd kv))]) kvs) =
    cs @ map (\<lambda>kv. (fst kv, Some (snd kv))) kvs"
  using assms
proof (induction kvs arbitrary: cs)
  case (Cons kv kvs)
  have "js_Number (show_num (snd kv)) = Some (snd kv)"
    using Cons.prems(2) show_decimal(1) by (simp add: priced_def)
  then have "add_coeff cs [Some (fst kv), Some (show_num (snd kv))] = cs @ [(fst kv, Some (snd kv))]"
    using Cons.prems(1) by (auto simp: add_coeff_def nullish_def)
  then show ?case using Cons by simp
qed simp

lemma body_prices:
  assumes "list_all priced kvs" "distinct (map fst kvs)"
  shows "parseTierBody (join '' + '' (map price_text kvs)) =
    map (\<lambda>(k, fld). (fld, or_zero (map_of kvs k))) BILLING_VAR_KEY_TO_FIELD"
proof -
  have "map_of (map (\<lambda>kv. (fst kv, Some (snd kv))) kvs) k = map_option Some (map_of kvs k)" for k
    by (induction kvs) auto
  then have "nullish (map_of (map (\<lambda>kv. (fst kv, Some (snd kv))) kvs) k) None = map_of kvs k" for k
    by (cases "map_of kvs k") (simp_all add: nullish_def)
  then show ?thesis
    unfolding parseTierBody_def Let_def
    using exec_prices [OF assms(1)] coeffs_distinct [of "[]" kvs] assms by simp
qed

declare r_all.simps [simp del]

section \<open>Reading conditions\<close>

lemma cond_blank [simp]: "\<not> cond_char CHR '' ''"
  by (simp add: cond_char_def is_digit_def)

definition numeric_condition :: "TierCondition \<Rightarrow> bool" where
  "numeric_condition c \<longleftrightarrow>
     tn_var c \<in> set [''p'', ''c'', ''len''] \<and> tn_op c \<in> set [''<'', ''<='', ''>'', ''>=''] \<and>
     (case tn_value c of NumValue (Some r) \<Rightarrow> decimal r | _ \<Rightarrow> False)"

abbreviation condition_text :: "TierCondition \<Rightarrow> string" where
  "condition_text c \<equiv> tn_var c @ '' '' @ tn_op c @ '' '' @ show_value (tn_value c)"

lemma condition_facts:
  assumes "numeric_condition c"
  shows "tn_var c \<in> set [''p'', ''c'', ''len'']" "tn_op c \<in> set [''<'', ''<='', ''>'', ''>='']"
    "number_text (show_value (tn_value c))" "NumValue (js_Number (show_value (tn_value c))) = tn_value c"
    "tn_value c \<noteq> TextValue []"
  using assms show_decimal
  by (auto simp: numeric_condition_def show_value_def split: tier_value.splits option.splits)

lemma vars_seq:
  assumes "v \<in> set [''p'', ''c'', ''len'']"
  shows "r_seq (r_cap cond_vars) b (v @ CHR '' '' # s) = map (\<lambda>(q, d). (q, Some v # d)) (b (CHR '' '' # s))"
    and "r_seq cond_vars b (v @ CHR '' '' # s) = b (CHR '' '' # s)"
proof -
  have "v = ''p'' \<or> v = ''c'' \<or> v = ''len''" using assms by simp
  then show "r_seq (r_cap cond_vars) b (v @ CHR '' '' # s) = map (\<lambda>(q, d). (q, Some v # d)) (b (CHR '' '' # s))"
    "r_seq cond_vars b (v @ CHR '' '' # s) = b (CHR '' '' # s)"
    unfolding cond_vars_def cap_alt seq_alt
    by (elim disjE; simp add: cap_lit_seq startsWith_simps; simp add: r_seq_def case_prod_beta)+
qed

lemma ops_seq:
  assumes "opr \<in> set [''<'', ''<='', ''>'', ''>='']" "\<And>t. b (CHR ''='' # t) = []"
  shows "r_seq (r_cap cond_ops) b (opr @ CHR '' '' # s) = map (\<lambda>(q, d). (q, Some opr # d)) (b (CHR '' '' # s))"
    and "r_seq cond_ops b (opr @ CHR '' '' # s) = b (CHR '' '' # s)"
proof -
  have "opr = ''<'' \<or> opr = ''<='' \<or> opr = ''>'' \<or> opr = ''>=''" using assms(1) by simp
  then show "r_seq (r_cap cond_ops) b (opr @ CHR '' '' # s) = map (\<lambda>(q, d). (q, Some opr # d)) (b (CHR '' '' # s))"
    "r_seq cond_ops b (opr @ CHR '' '' # s) = b (CHR '' '' # s)"
    unfolding cond_ops_def cap_alt seq_alt
    by (elim disjE; simp add: cap_lit_seq startsWith_simps assms(2); simp add: r_seq_def case_prod_beta assms(2))+
qed

lemma ops_first:
  assumes "opr \<in> set [''<'', ''<='', ''>'', ''>='']" "\<And>t. b (CHR ''='' # t) = []" "first b (CHR '' '' # s) = Some (q, d)"
  shows "first (r_seq (r_cap cond_ops) b) (opr @ CHR '' '' # s) = Some (q, Some opr # d)"
    and "first (r_seq cond_ops b) (opr @ CHR '' '' # s) = Some (q, d)"
  using assms(3) ops_seq [where b = b, OF assms(1,2)] by (auto simp: first_Some)

lemma vars_first:
  assumes "v \<in> set [''p'', ''c'', ''len'']" "first b (CHR '' '' # s) = Some (q, d)"
  shows "first (r_seq (r_cap cond_vars) b) (v @ CHR '' '' # s) = Some (q, Some v # d)"
    and "first (r_seq cond_vars b) (v @ CHR '' '' # s) = Some (q, d)"
  using assms(2) vars_seq [where b = b, OF assms(1)] by (auto simp: first_Some)

lemma first_blank: "ends is_ws s \<Longrightarrow> first ws (CHR '' '' # s) = Some (s, [])"
  using first_many [of is_ws "'' ''" s] by simp

lemma op_ends: "opr \<in> set [''<'', ''<='', ''>'', ''>=''] \<Longrightarrow> ends is_ws (opr @ s)"
  by (auto simp: is_ws_def)

lemma equals_fails: "r_all [ws, r_some cond_char] (CHR ''='' # t) = []" "r_all [ws, r_cap (r_some cond_char)] (CHR ''='' # t) = []"
  by (simp_all add: r_all.simps r_seq_def is_ws_def r_cap_def cond_char_def is_digit_def)

lemma condition_first:
  assumes "numeric_condition c" "ends cond_char r"
  shows "first cond_match (condition_text c @ r) = Some (r, [Some (tn_var c), Some (tn_op c), Some (show_value (tn_value c))])"
    and "first one_cond (condition_text c @ r) = Some (r, [])"
proof -
  let ?n = "show_value (tn_value c)"
  note f = condition_facts [OF assms(1)]
  note n = number_ends [OF f(3)]
  have a: "first (r_cap (r_some cond_char)) (?n @ r) = Some (r, [Some ?n])" "first (r_some cond_char) (?n @ r) = Some (r, [])"
    using n assms(2) by (intro first_cap first_some; simp)+
  let ?C = "r_all [ws, r_cap (r_some cond_char)]" and ?N = "r_all [ws, r_some cond_char]"
  have b: "first ?C (CHR '' '' # ?n @ r) = Some (r, [Some ?n])" "first ?N (CHR '' '' # ?n @ r) = Some (r, [])"
    using first_all_Cons [OF first_blank [OF n(1)] first_all_Cons [OF a(1) first_all_Nil]]
      first_all_Cons [OF first_blank [OF n(1)] first_all_Cons [OF a(2) first_all_Nil]] by simp_all
  have "first (r_all [r_cap cond_ops, ws, r_cap (r_some cond_char)]) (tn_op c @ CHR '' '' # ?n @ r) = Some (r, [Some (tn_op c), Some ?n])"
    unfolding r_all.simps(2) [of "r_cap cond_ops"] by (rule ops_first(1) [where b = ?C, OF f(2) equals_fails(2) b(1)])
  note o = first_all_Cons [OF first_blank [OF op_ends [OF f(2)]] this]
  have "first (r_all [cond_ops, ws, r_some cond_char]) (tn_op c @ CHR '' '' # ?n @ r) = Some (r, [])"
    unfolding r_all.simps(2) [of cond_ops] by (rule ops_first(2) [where b = ?N, OF f(2) equals_fails(1) b(2)])
  note p = first_all_Cons [OF first_blank [OF op_ends [OF f(2)]] this]
  show "first cond_match (condition_text c @ r) = Some (r, [Some (tn_var c), Some (tn_op c), Some ?n])"
    using vars_first(1) [OF f(1) o] by (simp add: cond_match_def r_all.simps)
  show "first one_cond (condition_text c @ r) = Some (r, [])"
    using vars_first(2) [OF f(1) p] by (simp add: one_cond_def r_all.simps)
qed

text \<open>The conjunction of conditions.\<close>

abbreviation more_rx :: "rx list" where
  "more_rx \<equiv> [ws, r_lit ''&&'', ws, one_cond]"

lemma more_first:
  assumes "numeric_condition c" "ends cond_char r"
  shows "first (r_all more_rx) ('' && '' @ condition_text c @ r) = Some (r, [])"
proof -
  have v: "ends is_ws (condition_text c @ r)"
    using condition_facts(1) [OF assms(1)] by (auto simp: is_ws_def)
  have "first (r_all more_rx) ('' '' @ ''&&'' @ '' '' @ condition_text c @ r) = Some (r, [] @ [] @ [] @ [] @ [])"
  proof (intro first_all_Cons first_all_Nil)
    show "first ws ('' '' @ ''&&'' @ '' '' @ condition_text c @ r) = Some (''&&'' @ '' '' @ condition_text c @ r, [])"
      by (rule first_many) simp_all
    show "first ws ('' '' @ condition_text c @ r) = Some (condition_text c @ r, [])"
      using first_blank [OF v] by simp
  qed (simp_all only: first_lit first_all_Nil condition_first [OF assms])
  then show ?thesis by simp
qed

lemma more_conds:
  assumes "list_all numeric_condition cs" "length cs \<le> n" "ends cond_char r" "r_all more_rx r = []"
  shows "first (r_rounds n (r_all more_rx)) (concat (map (\<lambda>c. '' && '' @ condition_text c) cs) @ r) = Some (r, [])"
  using assms
proof (induction cs arbitrary: n)
  case Nil
  then show ?case by (cases n) (simp_all add: first_def)
next
  case (Cons c cs)
  obtain n' where n: "n = Suc n'" using Cons.prems(2) by (cases n) auto
  let ?r = "concat (map (\<lambda>c. '' && '' @ condition_text c) cs) @ r"
  have e: "ends cond_char ?r"
    using Cons.prems(3) by (cases cs) simp_all
  obtain xs where x: "r_all more_rx ('' && '' @ condition_text c @ ?r) = (?r, []) # xs"
    using more_first [OF _ e] Cons.prems(1) by (auto simp: first_Some)
  obtain ys where y: "r_rounds n' (r_all more_rx) ?r = (r, []) # ys"
    using Cons.IH [of n'] Cons.prems n by (auto simp: first_Some)
  have "r_rounds n (r_all more_rx) ('' && '' @ condition_text c @ ?r) =
      ((r, []) # ys) @ concat (map (\<lambda>(r, c). r_rounds n' (r_all more_rx) r) xs) @ [('' && '' @ condition_text c @ ?r, [])]"
    unfolding n r_rounds.simps x using y by (simp del: r_all.simps)
  then show ?case by (simp add: first_Some del: r_all.simps)
qed

lemma join_head: "join sep (map f (c # cs)) = f c @ concat (map (\<lambda>c. sep @ f c) cs)"
  by (induction cs arbitrary: c) simp_all

abbreviation conditions_str :: "TierCondition list \<Rightarrow> string" where
  "conditions_str cs \<equiv> join '' && '' (map condition_text cs)"

lemma condGroup_first:
  assumes "list_all numeric_condition cs" "cs \<noteq> []" "ends cond_char r" "r_all more_rx r = []"
  shows "first condGroup (conditions_str cs @ r) = Some (r, [Some (conditions_str cs)])"
proof -
  obtain c ds where cs: "cs = c # ds" using assms(2) by (cases cs) auto
  let ?m = "concat (map (\<lambda>c. '' && '' @ condition_text c) ds)"
  have e: "ends cond_char (?m @ r)"
    using assms(3) by (cases ds) simp_all
  have "length ds \<le> length ?m"
    by (induction ds) simp_all
  then have "first (r_star (r_all more_rx)) (?m @ r) = Some (r, [])"
    unfolding r_star_def first_def
    using more_conds [of ds "length (?m @ r)" r] assms cs by (simp add: first_def)
  moreover have "first one_cond (condition_text c @ ?m @ r) = Some (?m @ r, [])"
    using condition_first(2) [OF _ e] assms(1) cs by simp
  ultimately have "first (r_seq one_cond (r_star (r_all more_rx))) (condition_text c @ ?m @ r) = Some (r, [] @ [])"
    by (intro first_seq)
  then have "first (r_seq one_cond (r_star (r_all more_rx))) (conditions_str cs @ r) = Some (r, [])"
    by (simp only: cs join_head append_assoc append_Nil)
  then show ?thesis unfolding condGroup_def by (rule first_cap)
qed

text \<open>Splitting at the conjunctions.\<close>

lemma no_amp: "numeric_condition c \<Longrightarrow> CHR ''&'' \<notin> set (condition_text c)"
  using condition_facts(1-3) [of c] by (auto simp: number_text_def list_all_iff is_digit_def)

lemma find_amp:
  assumes "CHR ''&'' \<notin> set t"
  shows "find_sub ''&&'' (t @ ''&&'' @ s) = Some (length t)" "find_sub ''&&'' t = None"
proof -
  obtain i where i: "find_sub ''&&'' (t @ ''&&'' @ s) = Some i" "i \<le> length t" using find_sub_occ by blast
  obtain a b where ab: "t @ ''&&'' @ s = a @ ''&&'' @ b" "length a = i" using find_sub_SomeD [OF i(1)] by blast
  have "\<not> i < length t"
  proof
    assume "i < length t"
    then have "t ! i = CHR ''&''" using ab by (metis nth_append nth_append_length append_Cons)
    then show False using assms \<open>i < length t\<close> by (metis nth_mem)
  qed
  then show "find_sub ''&&'' (t @ ''&&'' @ s) = Some (length t)" using i by simp
  show "find_sub ''&&'' t = None"
  proof (cases "find_sub ''&&'' t")
    case (Some j)
    then obtain a b where "t = a @ ''&&'' @ b" using find_sub_SomeD by blast
    then show ?thesis using assms by simp
  qed
qed

lemma split_conds_step:
  assumes "CHR ''&'' \<notin> set t"
  shows "split_conds (t @ ''&&'' @ s) = trimEnd t # split_conds (dropWhile is_ws s)"
  using find_amp(1) [OF assms, of s] by (subst split_conds.simps) simp

lemma number_last: "number_text n \<Longrightarrow> \<not> is_ws (last n)"
proof -
  assume n: "number_text n"
  then have "last n \<in> set n" by (simp add: number_text_def)
  then have "is_digit (last n) \<or> last n = CHR ''.''" using n by (simp add: number_text_def list_all_iff)
  then show "\<not> is_ws (last n)"
  proof
    assume "last n = CHR ''.''"
    then show ?thesis by (simp add: is_ws_def)
  qed (rule digit_not_ws)
qed

lemma condition_edges:
  assumes "numeric_condition c"
  shows "trim (condition_text c) = condition_text c" "ends is_ws (condition_text c @ s)" "trimEnd (condition_text c @ '' '') = condition_text c"
proof -
  note f = condition_facts(1-3) [OF assms]
  have l: "\<not> is_ws (last (condition_text c))"
    using number_last [OF f(3)] f(3) by (simp add: number_text_def)
  have v: "tn_var c = ''p'' \<or> tn_var c = ''c'' \<or> tn_var c = ''len''" using f(1) by simp
  then have h: "\<not> is_ws (hd (condition_text c))" by (elim disjE) (simp_all add: is_ws_def)
  show "trim (condition_text c) = condition_text c" using h l by (intro trim_edges) simp_all
  show "ends is_ws (condition_text c @ s)" using v by (elim disjE) (simp_all add: is_ws_def)
  have "trimEnd (condition_text c @ '' '') = trimEnd (condition_text c)"
    by (simp add: trimEnd_def)
  also have "\<dots> = condition_text c" using l by (intro trimEnd_last) simp_all
  finally show "trimEnd (condition_text c @ '' '') = condition_text c" .
qed

lemma split_conds_join:
  assumes "list_all numeric_condition cs" "cs \<noteq> []"
  shows "split_conds (conditions_str cs) = map condition_text cs"
  using assms
proof (induction cs)
  case (Cons c cs)
  have c: "numeric_condition c" using Cons.prems by simp
  show ?case
  proof (cases "cs = []")
    case True
    then show ?thesis using find_amp(2) [OF no_amp [OF c]] by (subst split_conds.simps) simp
  next
    case False
    have a: "CHR ''&'' \<notin> set (condition_text c @ '' '')" using no_amp [OF c] by simp
    have t: "conditions_str (c # cs) = (condition_text c @ '' '') @ ''&&'' @ '' '' @ conditions_str cs"
      using False by (simp add: join_Cons)
    obtain d ds where d: "cs = d # ds" using False by (cases cs) auto
    have "ends is_ws (conditions_str cs)"
      using condition_edges(2) [of d] Cons.prems d by (simp only: d join_head) simp
    then have w: "dropWhile is_ws ('' '' @ conditions_str cs) = conditions_str cs"
      by (cases "conditions_str cs") simp_all
    have "split_conds (conditions_str (c # cs)) =
        trimEnd (condition_text c @ '' '') # split_conds (dropWhile is_ws ('' '' @ conditions_str cs))"
      unfolding t by (rule split_conds_step [OF a])
    also have "\<dots> = map condition_text (c # cs)"
      unfolding w condition_edges(3) [OF c] using Cons False by simp
    finally show ?thesis .
  qed
qed simp

lemma read_conditions_str:
  assumes "list_all numeric_condition cs"
  shows "read_conditions (conditions_str cs) = cs"
proof (cases "cs = []")
  case False
  have "full_match cond_match (trim (condition_text c)) = Some [Some (tn_var c), Some (tn_op c), Some (show_value (tn_value c))]"
    if "numeric_condition c" for c
    using condition_first(1) [OF that, of "[]"] condition_edges(1) [OF that]
    by (auto simp: full_match_def first_Some)
  moreover have "conditions_str cs \<noteq> []" using False by (cases cs) (simp_all add: join_head del: list.map)
  ultimately show ?thesis
    unfolding read_conditions_def split_conds_join [OF assms False]
    using assms condition_facts(4)
    by (simp add: List.map_filter_def list_all_iff comp_def nullish_def map_idI)
qed (simp add: read_conditions_def)

section \<open>Reading printed tiers\<close>

lemma first_label:
  assumes "CHR 0x22 \<notin> set l"
  shows "first (r_cap (r_many (\<lambda>c. c \<noteq> CHR 0x22))) (l @ CHR 0x22 # s) = Some (CHR 0x22 # s, [Some l])"
  using assms by (intro first_cap first_many) (auto simp: list_all_iff)

abbreviation call_rx :: "rx list" where
  "call_rx \<equiv> [r_lit (''tier('' @ dq), r_cap (r_many (\<lambda>c. c \<noteq> CHR 0x22)), r_lit (dq @ '',''), ws]"

abbreviation call_head :: "string \<Rightarrow> string \<Rightarrow> string" where
  "call_head l s \<equiv> ''tier('' @ dq @ l @ dq @ '', '' @ s"

lemma call_first:
  assumes "CHR 0x22 \<notin> set l" "ends is_ws s"
  shows "first (r_all call_rx) (call_head l s) = Some (s, [Some l])"
proof -
  have "first (r_all call_rx) ((''tier('' @ dq) @ (l @ CHR 0x22 # '', '' @ s)) = Some (s, [] @ [Some l] @ [] @ [] @ [])"
  proof (intro first_all_Cons)
    show "first (r_cap (r_many (\<lambda>c. c \<noteq> CHR 0x22))) (l @ CHR 0x22 # '', '' @ s) = Some (CHR 0x22 # '', '' @ s, [Some l])"
      by (rule first_label [OF assms(1)])
    show "first (r_lit (dq @ '','')) (CHR 0x22 # '', '' @ s) = Some (CHR '' '' # s, [])"
      using first_lit [of "dq @ '',''" "CHR '' '' # s"] by simp
    show "first ws (CHR '' '' # s) = Some (s, [])" by (rule first_blank [OF assms(2)])
  qed (simp_all only: first_lit first_all_Nil)
  then show ?thesis by simp
qed

lemma tier_start_eq: "r_all (tier_start @ xs) = r_seq (r_opt 1 (r_all [condGroup, ws, r_lit ''?'', ws])) (r_all (call_rx @ xs))"
  by (simp add: tier_start_def r_all.simps)

lemma group_fails: "c \<noteq> CHR ''p'' \<Longrightarrow> c \<noteq> CHR ''c'' \<Longrightarrow> c \<noteq> CHR ''l'' \<Longrightarrow> condGroup (c # s) = []"
  by (simp add: condGroup_def one_cond_def cond_vars_def r_all.simps r_seq_def r_alt_def r_cap_def)

lemma tier_fails:
  assumes "c \<noteq> CHR ''p''" "c \<noteq> CHR ''c''" "c \<noteq> CHR ''l''" "c \<noteq> CHR ''t''"
  shows "r_all (tier_start @ xs) (c # s) = []"
  unfolding tier_start_eq using group_fails [OF assms(1-3)] assms(4)
  by (simp add: r_seq_def r_opt_def r_all.simps)

lemma tier_plain_first:
  assumes "CHR 0x22 \<notin> set l" "ends is_ws s" "first (r_all xs) s = Some (r, g)"
  shows "first (r_all (tier_start @ xs)) (call_head l s) = Some (r, None # Some l # g)"
proof -
  have "first (r_opt 1 (r_all [condGroup, ws, r_lit ''?'', ws])) (call_head l s) = Some (call_head l s, [None])"
    using first_opt_none [of "r_all [condGroup, ws, r_lit ''?'', ws]" "call_head l s" 1] group_fails
    by (simp add: r_all.simps seq_fails)
  from first_seq [OF this first_all_append [OF call_first [OF assms(1,2)] assms(3)]]
  show ?thesis unfolding tier_start_eq by simp
qed

lemma more_fails: "r_all more_rx ('' ? '' @ s) = []"
  by (simp add: r_all.simps r_seq_def)

lemma tier_cond_first:
  assumes "list_all numeric_condition cs" "cs \<noteq> []"
    and "CHR 0x22 \<notin> set l" "ends is_ws s" "first (r_all xs) s = Some (r, g)"
  shows "first (r_all (tier_start @ xs)) (conditions_str cs @ '' ? '' @ call_head l s) =
    Some (r, Some (conditions_str cs) # Some l # g)"
proof -
  have "first (r_all [condGroup, ws, r_lit ''?'', ws]) (conditions_str cs @ '' '' @ ''?'' @ '' '' @ call_head l s) =
      Some (call_head l s, [Some (conditions_str cs)] @ [] @ [] @ [] @ [])"
  proof (intro first_all_Cons)
    show "first condGroup (conditions_str cs @ '' '' @ ''?'' @ '' '' @ call_head l s) =
        Some ('' '' @ ''?'' @ '' '' @ call_head l s, [Some (conditions_str cs)])"
      using more_fails [of "call_head l s"] by (intro condGroup_first [OF assms(1,2)]) simp_all
    show "first ws ('' '' @ ''?'' @ '' '' @ call_head l s) = Some (''?'' @ '' '' @ call_head l s, [])"
      using first_blank [of "''?'' @ '' '' @ call_head l s"] by simp
    show "first ws ('' '' @ call_head l s) = Some (call_head l s, [])"
      using first_blank [of "call_head l s"] by (simp add: is_ws_def)
  qed (simp_all only: first_lit first_all_Nil)
  then have "first (r_opt 1 (r_all [condGroup, ws, r_lit ''?'', ws])) (conditions_str cs @ '' ? '' @ call_head l s) =
      Some (call_head l s, [Some (conditions_str cs)])"
    using first_opt by simp
  from first_seq [OF this first_all_append [OF call_first [OF assms(3,4)] assms(5)]]
  show ?thesis unfolding tier_start_eq by simp
qed

text \<open>The body of a printed tier.\<close>

definition extra_prices :: "VisualTier \<Rightarrow> (string \<times> rat) list" where
  "extra_prices tier =
     [(''cr'', vt_cache_read_unit_cost tier), (''cc'', vt_cache_create_unit_cost tier), (''cc1h'', vt_cache_create_1h_unit_cost tier),
      (''img'', vt_image_unit_cost tier), (''img_o'', vt_image_output_unit_cost tier), (''ai'', vt_audio_input_unit_cost tier),
      (''ao'', vt_audio_output_unit_cost tier)]"

definition tier_prices :: "VisualTier \<Rightarrow> (string \<times> rat) list" where
  "tier_prices tier =
     [(''p'', or_zero (vt_input_unit_cost tier)), (''c'', or_zero (vt_output_unit_cost tier))] @
     filter (\<lambda>kv. snd kv \<noteq> 0) (extra_prices tier)"

definition printable_tier :: "VisualTier \<Rightarrow> bool" where
  "printable_tier tier \<longleftrightarrow>
     CHR 0x22 \<notin> set (vt_label tier) \<and> list_all numeric_condition (vt_conditions tier) \<and>
     list_all (\<lambda>kv. decimal (snd kv)) (tier_prices tier)"

lemma cache_vars:
  "BILLING_CACHE_VAR_MAP =
     [(''cache_read_unit_cost'', ''cr''), (''cache_create_unit_cost'', ''cc''), (''cache_create_1h_unit_cost'', ''cc1h''),
      (''image_unit_cost'', ''img''), (''image_output_unit_cost'', ''img_o''), (''audio_input_unit_cost'', ''ai''),
      (''audio_output_unit_cost'', ''ao'')]"
  by (simp add: BILLING_CACHE_VAR_MAP_def BILLING_EXTRA_VARS_def BILLING_VARS_def billing_var_def nullish_def)

lemma body_text: "buildTierBodyExpr tier = join '' + '' (map price_text (tier_prices tier))"
proof -
  let ?cost = "\<lambda>fv. (snd fv, or_zero (map_of (tier_fields tier) (fst fv)))"
  have f: "map (\<lambda>(fld, v). v @ '' * '' @ show_num (or_zero (map_of (tier_fields tier) fld)))
      (filter (\<lambda>(fld, v). or_zero (map_of (tier_fields tier) fld) \<noteq> 0) xs) =
    map price_text (filter (\<lambda>kv. snd kv \<noteq> 0) (map ?cost xs))" for xs
    by (induction xs) auto
  have c: "map ?cost BILLING_CACHE_VAR_MAP = extra_prices tier"
    by (simp add: cache_vars tier_fields_def extra_prices_def nullish_def)
  show ?thesis
    unfolding buildTierBodyExpr_def tier_prices_def f c map_append by simp
qed

lemma extra_keys: "map fst (extra_prices tier) = [''cr'', ''cc'', ''cc1h'', ''img'', ''img_o'', ''ai'', ''ao'']"
  by (simp add: extra_prices_def)

lemma price_key: "kv \<in> set (tier_prices tier) \<Longrightarrow> fst kv \<in> set price_keys"
proof -
  assume "kv \<in> set (tier_prices tier)"
  then have "fst kv \<in> set ([''p'', ''c''] @ map fst (extra_prices tier))" by (auto simp: tier_prices_def)
  then show ?thesis unfolding extra_keys by simp
qed

lemma prices_priced: "printable_tier tier \<Longrightarrow> list_all priced (tier_prices tier)"
  using price_key [of _ tier] unfolding printable_tier_def priced_def list_all_iff by blast

lemma distinct_filter_keys: "distinct (map fst kvs) \<Longrightarrow> distinct (map fst (filter P kvs))"
  by (induction kvs) auto

lemma prices_distinct: "distinct (map fst (tier_prices tier))"
proof -
  let ?y = "filter (\<lambda>kv. snd kv \<noteq> 0) (extra_prices tier)"
  have d: "distinct (map fst ?y)" by (rule distinct_filter_keys) (simp add: extra_keys)
  have "set (map fst ?y) \<subseteq> set (map fst (extra_prices tier))" by auto
  then have "''p'' \<notin> set (map fst ?y)" "''c'' \<notin> set (map fst ?y)" unfolding extra_keys by auto
  then show ?thesis unfolding tier_prices_def using d by simp
qed

text \<open>What the reader makes of a body: every price under the name of its field.\<close>

definition price_list :: "VisualTier \<Rightarrow> (string \<times> rat) list" where
  "price_list tier =
     [(''inputPrice'', or_zero (vt_input_unit_cost tier)), (''outputPrice'', or_zero (vt_output_unit_cost tier)),
      (''cacheReadPrice'', vt_cache_read_unit_cost tier), (''cacheCreatePrice'', vt_cache_create_unit_cost tier),
      (''cacheCreate1hPrice'', vt_cache_create_1h_unit_cost tier), (''imagePrice'', vt_image_unit_cost tier),
      (''imageOutputPrice'', vt_image_output_unit_cost tier), (''audioInputPrice'', vt_audio_input_unit_cost tier),
      (''audioOutputPrice'', vt_audio_output_unit_cost tier)]"

lemma map_of_nonzero: "distinct (map fst kvs) \<Longrightarrow> or_zero (map_of (filter (\<lambda>kv. snd kv \<noteq> 0) kvs) k) = or_zero (map_of kvs k)"
proof (induction kvs)
  case (Cons kv kvs)
  have "map_of (filter (\<lambda>kv. snd kv \<noteq> 0) kvs) k = None" if "k = fst kv"
  proof -
    have "k \<notin> fst ` set (filter (\<lambda>kv. snd kv \<noteq> 0) kvs)" using Cons.prems that by auto
    then show ?thesis by (simp only: map_of_eq_None_iff not_False_eq_True)
  qed
  then show ?case using Cons by (cases kv) (auto simp: nullish_def)
qed simp

lemma price_of:
  "or_zero (map_of (tier_prices tier) k) =
     (if k = ''p'' then or_zero (vt_input_unit_cost tier) else if k = ''c'' then or_zero (vt_output_unit_cost tier)
      else or_zero (map_of (extra_prices tier) k))"
  using map_of_nonzero [of "extra_prices tier" k] by (simp add: tier_prices_def extra_keys nullish_def)

lemma read_body: "printable_tier tier \<Longrightarrow> parseTierBody (buildTierBodyExpr tier) = price_list tier"
  unfolding body_text body_prices [OF prices_priced prices_distinct] price_of
  by (simp add: BILLING_VAR_KEY_TO_FIELD_def BILLING_PRICING_VARS_def BILLING_VARS_def billing_var_def extra_prices_def
      price_list_def nullish_def)

lemma body_facts:
  assumes "printable_tier tier"
  shows "ends is_ws (buildTierBodyExpr tier @ s)" "buildTierBodyExpr tier \<noteq> []" "CHR '')'' \<notin> set (buildTierBodyExpr tier)"
proof -
  obtain kvs where k: "tier_prices tier = (''p'', or_zero (vt_input_unit_cost tier)) # kvs" by (simp add: tier_prices_def)
  show "ends is_ws (buildTierBodyExpr tier @ s)" "buildTierBodyExpr tier \<noteq> []"
    unfolding body_text k by (simp_all only: join_head) (simp_all add: is_ws_def)
  have "CHR '')'' \<notin> set (price_text kv)" if "kv \<in> set (tier_prices tier)" for kv
  proof -
    have "priced kv" using prices_priced [OF assms] that by (simp add: list_all_iff)
    then have "number_text (show_num (snd kv))" "fst kv \<in> set price_keys" using show_decimal(2) by (simp_all add: priced_def)
    then show ?thesis by (auto simp: number_text_def list_all_iff is_digit_def)
  qed
  then show "CHR '')'' \<notin> set (buildTierBodyExpr tier)"
    unfolding body_text by (auto dest!: join_set)
qed

lemma printed_conditions: "list_all numeric_condition cs \<Longrightarrow> buildConditionStr cs = conditions_str cs"
proof -
  assume cs: "list_all numeric_condition cs"
  have "tn_var c \<noteq> [] \<and> tn_op c \<noteq> [] \<and> tn_value c \<noteq> TextValue []" if "c \<in> set cs" for c
    using condition_facts [of c] cs that by (auto simp: list_all_iff)
  then have "filter (\<lambda>c. tn_var c \<noteq> [] \<and> tn_op c \<noteq> [] \<and> tn_value c \<noteq> TextValue []) cs = cs"
    by (simp add: filter_id_conv)
  then show ?thesis by (simp only: buildConditionStr_def)
qed

lemma conditions_nonempty: "conditions_str cs = [] \<longleftrightarrow> cs = []"
proof (cases cs)
  case (Cons c ds)
  then show ?thesis by (simp only: join_head) simp
qed simp

lemmas conditions_nonempty_simp [simp] = conditions_nonempty [simplified]

text \<open>A tier as it is printed inside an expression: the conditions may be left out.\<close>

definition tier_text :: "string \<Rightarrow> TierCondition list \<Rightarrow> VisualTier \<Rightarrow> string" where
  "tier_text label cs tier = (if cs = [] then [] else conditions_str cs @ '' ? '') @ tier_call label tier"

definition tier_groups :: "string \<Rightarrow> TierCondition list \<Rightarrow> string option list" where
  "tier_groups label cs = [if cs = [] then None else Some (conditions_str cs), Some label]"

lemma tier_text_first:
  assumes "CHR 0x22 \<notin> set label" "list_all numeric_condition cs" "printable_tier tier"
    and "first (r_all xs) (buildTierBodyExpr tier @ CHR '')'' # r) = Some (r, g)"
  shows "first (r_all (tier_start @ xs)) (tier_text label cs tier @ r) = Some (r, tier_groups label cs @ g)"
  using tier_plain_first [OF assms(1) body_facts(1) [OF assms(3)] assms(4)]
    tier_cond_first [OF assms(2) _ assms(1) body_facts(1) [OF assms(3)] assms(4)]
  by (simp add: tier_text_def tier_groups_def tier_call_def)

lemma body_first:
  assumes "printable_tier tier"
  shows "first (r_all [r_cap (r_some (\<lambda>c. c \<noteq> CHR '')'')), r_lit '')'']) (buildTierBodyExpr tier @ CHR '')'' # r) =
    Some (r, [Some (buildTierBodyExpr tier)])"
proof -
  have "first (r_cap (r_some (\<lambda>c. c \<noteq> CHR '')''))) (buildTierBodyExpr tier @ CHR '')'' # r) =
      Some (CHR '')'' # r, [Some (buildTierBodyExpr tier)])"
    using body_facts [OF assms] by (intro first_cap first_some) (auto simp: list_all_iff)
  moreover have "first (r_lit '')'') (CHR '')'' # r) = Some (r, [])" using first_lit [of "'')''" r] by simp
  ultimately have "first (r_all [r_cap (r_some (\<lambda>c. c \<noteq> CHR '')'')), r_lit '')'']) (buildTierBodyExpr tier @ CHR '')'' # r) =
      Some (r, [Some (buildTierBodyExpr tier)] @ [] @ [])"
    by (intro first_all_Cons) (simp_all only: first_all_Nil)
  then show ?thesis by simp
qed

text \<open>The tiers of a printed expression, one after the other.\<close>

lemma tier_text_nonempty: "tier_text label cs tier \<noteq> []"
  by (simp add: tier_text_def tier_call_def)

lemma exec_tiers:
  assumes "\<And>prev x r. x \<in> set ts \<Longrightarrow> first (m prev) (f x @ r) = Some (r, g x)" "\<And>x. x \<in> set ts \<Longrightarrow> f x \<noteq> []"
    and "\<And>prev c s. c \<in> set '' :'' \<Longrightarrow> m prev (c # s) = []"
    and "\<And>prev. exec_all m prev end_text = []" "ts \<noteq> []"
  shows "exec_all m prev (join '' : '' (map f ts) @ end_text) = map g ts"
  using assms
proof (induction ts arbitrary: prev)
  case (Cons t ts)
  have m: "exec_all m prev (f t @ r) = g t # exec_all m (Some (last (f t))) r" for r
    using Cons.prems(1,2) by (intro exec_match) simp_all
  show ?case
  proof (cases "ts = []")
    case True
    then show ?thesis using m [of end_text] Cons.prems(4) by simp
  next
    case False
    have "exec_all m p ('' : '' @ s) = exec_all m (Some CHR '' '') s" for p s
      using Cons.prems(3) by (simp add: exec_none)
    then show ?thesis
      using m [of "'' : '' @ join '' : '' (map f ts) @ end_text"] Cons False by (simp add: join_Cons)
  qed
qed simp

lemma tierRe_first:
  assumes "CHR 0x22 \<notin> set label" "list_all numeric_condition cs" "printable_tier tier"
  shows "first (tierRe prev) (tier_text label cs tier @ r) = Some (r, tier_groups label cs @ [Some (buildTierBodyExpr tier)])"
  unfolding tierRe_def by (rule tier_text_first [OF assms body_first [OF assms(3)]])

lemma tierRe_none: "c \<in> set '' :'' \<Longrightarrow> tierRe prev (c # s) = []"
  unfolding tierRe_def by (rule tier_fails) auto

lemma tierRe_end: "exec_all tierRe prev [] = []" "exec_all tierRe prev '' : p * 0 + c * 0'' = []"
  by simp code_simp

text \<open>The label and the conditions with which a tier is printed, by the number of tiers and its position.\<close>

definition printed_label :: "nat \<Rightarrow> nat \<times> VisualTier \<Rightarrow> string" where
  "printed_label n it =
     str_or (vt_label (snd it)) (if n = 1 then ''default'' else ''tier_'' @ show_nat (fst it + 1))"

definition printed_conds :: "nat \<Rightarrow> nat \<times> VisualTier \<Rightarrow> TierCondition list" where
  "printed_conds n it = (if n = 1 \<or> fst it < n - 1 then vt_conditions (snd it) else [])"

abbreviation printed_tier :: "nat \<Rightarrow> nat \<times> VisualTier \<Rightarrow> string" where
  "printed_tier n it \<equiv> tier_text (printed_label n it) (printed_conds n it) (snd it)"

definition end_of :: "VisualTier list \<Rightarrow> string" where
  "end_of tiers = (if length tiers = 1 \<and> vt_conditions (hd tiers) \<noteq> [] then '' : p * 0 + c * 0'' else [])"

lemma generated_text:
  assumes "list_all printable_tier tiers" "tiers \<noteq> []"
  shows "generateExprFromVisualConfig (Some tiers) =
    join '' : '' (map (printed_tier (length tiers)) (List.enumerate 0 tiers)) @ end_of tiers"
proof (cases "length tiers = 1")
  case True
  then obtain t where t: "tiers = [t]" by (auto simp: length_Suc_conv)
  have "buildConditionStr (vt_conditions t) = conditions_str (vt_conditions t)"
    using assms t by (intro printed_conditions) (simp add: printable_tier_def)
  then show ?thesis
    using t by (simp add: generateExprFromVisualConfig_def tier_text_def printed_label_def printed_conds_def end_of_def
        conditions_nonempty Let_def)
next
  case False
  have "tier_part (length tiers) it = printed_tier (length tiers) it" if "it \<in> set (List.enumerate 0 tiers)" for it
  proof -
    have "snd it \<in> set tiers" using that by (metis in_set_enumerate_eq add_0_right diff_zero nth_mem)
    then have "buildConditionStr (vt_conditions (snd it)) = conditions_str (vt_conditions (snd it))"
      using assms(1) by (intro printed_conditions) (simp add: printable_tier_def list_all_iff)
    then show ?thesis
      using False by (cases it) (simp add: tier_part_def tier_text_def printed_label_def printed_conds_def conditions_nonempty Let_def)
  qed
  then have "map (tier_part (length tiers)) (List.enumerate 0 tiers) = map (printed_tier (length tiers)) (List.enumerate 0 tiers)"
    by simp
  then show ?thesis
    using False assms(2) by (simp only: generateExprFromVisualConfig_def end_of_def option.case if_False simp_thms append_Nil2)
qed

lemma show_nat_quote: "CHR 0x22 \<notin> set (show_nat n)"
  using show_nat_chars [of "CHR 0x22" n] by (auto simp: is_digit_def)

lemma printed_facts:
  assumes "list_all printable_tier tiers" "it \<in> set (List.enumerate 0 tiers)"
  shows "CHR 0x22 \<notin> set (printed_label n it)" "list_all numeric_condition (printed_conds n it)" "printable_tier (snd it)"
proof -
  have "snd it \<in> set tiers" using assms(2) by (metis in_set_enumerate_eq add_0_right diff_zero nth_mem)
  then show p: "printable_tier (snd it)" using assms(1) by (simp add: list_all_iff)
  show "CHR 0x22 \<notin> set (printed_label n it)"
    using p show_nat_quote by (simp add: printed_label_def printable_tier_def str_or_def)
  show "list_all numeric_condition (printed_conds n it)"
    using p by (simp add: printed_conds_def printable_tier_def)
qed

lemma condition_start: "numeric_condition c \<Longrightarrow> \<exists>a s. condition_text c = a # s \<and> a \<noteq> CHR ''v''"
  using condition_facts(1) [of c] by auto

lemma tier_text_start: "list_all numeric_condition cs \<Longrightarrow> \<exists>a s. tier_text label cs tier = a # s \<and> a \<noteq> CHR ''v''"
proof (cases cs)
  case (Cons c ds)
  assume "list_all numeric_condition cs"
  then obtain a s where "condition_text c = a # s" "a \<noteq> CHR ''v''" using condition_start [of c] Cons by auto
  then show ?thesis unfolding tier_text_def Cons join_head by simp
qed (simp add: tier_text_def tier_call_def)

lemma version_none:
  assumes "list_all printable_tier tiers" "tiers \<noteq> []"
  shows "snd (stripExprVersion (generateExprFromVisualConfig (Some tiers))) = generateExprFromVisualConfig (Some tiers)"
    and "generateExprFromVisualConfig (Some tiers) \<noteq> []"
proof -
  obtain it its where e: "List.enumerate 0 tiers = it # its" using assms(2) by (cases tiers) simp_all
  then have "it \<in> set (List.enumerate 0 tiers)" by simp
  from tier_text_start [OF printed_facts(2) [OF assms(1) this]]
  obtain a s where "printed_tier (length tiers) it = a # s" "a \<noteq> CHR ''v''" by blast
  then have "\<exists>u. generateExprFromVisualConfig (Some tiers) = a # u" "a \<noteq> CHR ''v''"
    unfolding generated_text [OF assms] e by (simp_all only: join_head) simp_all
  then show "snd (stripExprVersion (generateExprFromVisualConfig (Some tiers))) = generateExprFromVisualConfig (Some tiers)"
    "generateExprFromVisualConfig (Some tiers) \<noteq> []"
    by (auto simp: stripExprVersion_def startsWith_def Let_def)
qed

lemma grp_simps [simp]: "grp (x # xs) 0 = nullish x []" "grp (x # xs) (Suc n) = grp xs n"
  by simp_all

lemma groups_read:
  assumes "list_all numeric_condition cs"
  shows "read_conditions (grp (tier_groups label cs @ g) 0) = cs" "grp (tier_groups label cs @ g) 1 = label"
proof -
  show "read_conditions (grp (tier_groups label cs @ g) 0) = cs"
  proof (cases "cs = []")
    case False
    then have "grp (tier_groups label cs @ g) 0 = conditions_str cs" by (simp add: tier_groups_def nullish_def)
    then show ?thesis by (simp only: read_conditions_str [OF assms])
  qed (simp add: tier_groups_def nullish_def read_conditions_def)
qed (simp add: tier_groups_def nullish_def)

lemma tiers_read:
  assumes "list_all printable_tier tiers" "tiers \<noteq> []"
  shows "parseTiersFromExpr (generateExprFromVisualConfig (Some tiers)) =
    map (\<lambda>it. \<lparr>pt_label = printed_label (length tiers) it, pt_conditions = printed_conds (length tiers) it,
        pt_prices = price_list (snd it)\<rparr>) (List.enumerate 0 tiers)"
proof -
  let ?n = "length tiers" and ?its = "List.enumerate 0 tiers"
  let ?g = "\<lambda>it. tier_groups (printed_label ?n it) (printed_conds ?n it) @ [Some (buildTierBodyExpr (snd it))]"
  note f = printed_facts [OF assms(1)]
  have "exec_all tierRe None (join '' : '' (map (printed_tier ?n) ?its) @ end_of tiers) = map ?g ?its"
  proof (rule exec_tiers)
    show "first (tierRe prev) (printed_tier ?n it @ r) = Some (r, ?g it)" if "it \<in> set ?its" for prev it r
      using f [OF that] by (intro tierRe_first)
    show "exec_all tierRe prev (end_of tiers) = []" for prev
      using tierRe_end [of prev] by (simp add: end_of_def)
    show "?its \<noteq> []" using assms(2) by (cases tiers) simp_all
  qed (simp_all only: tier_text_nonempty tierRe_none not_False_eq_True)
  then have "parseTiersFromExpr (generateExprFromVisualConfig (Some tiers)) = map parsed_tier (map ?g ?its)"
    unfolding parseTiersFromExpr_def version_none(1) [OF assms] using version_none(2) [OF assms]
    by (simp only: generated_text [OF assms] if_False)
  also have "\<dots> = map (\<lambda>it. \<lparr>pt_label = printed_label ?n it, pt_conditions = printed_conds ?n it,
      pt_prices = price_list (snd it)\<rparr>) ?its"
    using f read_body groups_read by (simp add: parsed_tier_def tier_groups_def nullish_def)
  finally show ?thesis .
qed

text \<open>The price table shows what the editor wrote. For every configuration of tiers with decimal prices and numeric
  conditions, reading the printed expression gives the tiers in order, each with its label (or the one printed
  for a missing label), the conditions it was printed with (those of the last of several tiers are not printed) and
  exactly its prices, zero where none was set.\<close>

theorem printed_tiers_read:
  assumes "list_all printable_tier tiers" "tiers \<noteq> []"
  shows "parseTiersFromExpr (generateExprFromVisualConfig (Some tiers)) =
    map (\<lambda>it. \<lparr>pt_label = printed_label (length tiers) it, pt_conditions = printed_conds (length tiers) it,
        pt_prices = price_list (snd it)\<rparr>) (List.enumerate 0 tiers)"
  using assms by (rule tiers_read)

section \<open>Reading the visual configuration back\<close>

abbreviation extra_rx :: "string \<Rightarrow> rx list" where
  "extra_rx k \<equiv> [ws, r_lit ''+'', ws, r_lit k] @ factor_rx"

lemma optCache_eq: "optCache k = r_opt 1 (r_all (extra_rx k))"
  by (simp add: optCache_def)

abbreviation extra_names :: "string list" where
  "extra_names \<equiv> [''cr'', ''cc'', ''cc1h'', ''img'', ''img_o'', ''ai'', ''ao'']"

lemma extra_name_ends: "k \<in> set extra_names \<Longrightarrow> ends is_ws (k @ s)"
  by (auto simp: is_ws_def)

lemma plus_first:
  assumes "ends is_ws (k @ s)" "first (r_all xs) s = Some (r, g)"
  shows "first (r_all ([ws, r_lit ''+'', ws, r_lit k] @ xs)) ('' + '' @ k @ s) = Some (r, g)"
proof -
  have "first (r_all [ws, r_lit ''+'', ws, r_lit k]) ('' '' @ ''+'' @ '' '' @ k @ s) = Some (s, [] @ [] @ [] @ [] @ [])"
  proof (intro first_all_Cons)
    show "first ws ('' '' @ ''+'' @ '' '' @ k @ s) = Some (''+'' @ '' '' @ k @ s, [])"
      using first_blank [of "''+'' @ '' '' @ k @ s"] by simp
    show "first ws ('' '' @ k @ s) = Some (k @ s, [])"
      using first_blank [OF assms(1)] by simp
  qed (simp_all only: first_lit first_all_Nil)
  from first_all_append [OF this assms(2)] show ?thesis by simp
qed

lemma extra_first:
  assumes "k \<in> set extra_names" "number_text n" "ends num_char r"
  shows "first (optCache k) ('' + '' @ k @ '' * '' @ n @ r) = Some (r, [Some n])"
  unfolding optCache_eq
  by (rule first_opt, rule plus_first [OF extra_name_ends [OF assms(1)] factor_first [OF assms(2,3)]])

lemma lit_other:
  assumes "k \<in> set extra_names" "k' \<in> set extra_names" "k \<noteq> k'"
  shows "r_lit k (k' @ CHR '' '' # s) = [] \<or> (\<exists>c t. r_lit k (k' @ CHR '' '' # s) = [(c # t, [])] \<and> c \<in> set ''1_'')"
proof -
  have k: "k = ''cr'' \<or> k = ''cc'' \<or> k = ''cc1h'' \<or> k = ''img'' \<or> k = ''img_o'' \<or> k = ''ai'' \<or> k = ''ao''"
    and k': "k' = ''cr'' \<or> k' = ''cc'' \<or> k' = ''cc1h'' \<or> k' = ''img'' \<or> k' = ''img_o'' \<or> k' = ''ai'' \<or> k' = ''ao''"
    using assms(1,2) by simp_all
  show ?thesis
    using k
    by (elim disjE; insert k' assms(3); elim disjE; simp)
qed

lemma extra_fails:
  assumes "k \<in> set extra_names" "k' \<in> set extra_names" "k \<noteq> k'"
  shows "r_all (extra_rx k) ('' + '' @ k' @ CHR '' '' # s) = []"
proof -
  have b: "r_lit k (CHR '' '' # t) = []" for t using assms(1) by auto
  have w: "ws (k' @ CHR '' '' # s) = [(k' @ CHR '' '' # s, [])]" using assms(2) by (auto simp: is_ws_def)
  have "r_seq (r_lit k) (r_all factor_rx) (k' @ CHR '' '' # s) = []"
    using lit_other [OF assms, of s]
  proof
    assume "\<exists>c t. r_lit k (k' @ CHR '' '' # s) = [(c # t, [])] \<and> c \<in> set ''1_''"
    then obtain c t where c: "r_lit k (k' @ CHR '' '' # s) = [(c # t, [])]" "c = CHR ''1'' \<or> c = CHR ''_''" by auto
    then have "r_all factor_rx (c # t) = []" by (intro factor_fails) (auto simp: is_ws_def)
    then show ?thesis using c(1) by (simp add: r_seq_def)
  qed (simp add: seq_fails)
  then have "r_all (r_lit k # factor_rx) (k' @ CHR '' '' # s) = []" by (simp add: r_all.simps)
  then have "r_all (ws # r_lit k # factor_rx) (CHR '' '' # k' @ CHR '' '' # s) = []"
    using b w by (simp add: r_all.simps(2) [of ws] r_seq_def r_all.simps(2) [of "r_lit k"])
  then show ?thesis
    by (simp add: r_all.simps(2) [of ws "r_lit ''+'' # _"] r_all.simps(2) [of "r_lit ''+''"] r_seq_def)
qed

lemma extra_fails_end: "r_all (extra_rx k) (CHR '')'' # s) = []"
  by (simp add: r_all.simps r_seq_def)

text \<open>The text of the extra prices and the groups they give.\<close>

definition extra_text :: "(string \<times> rat) list \<Rightarrow> string" where
  "extra_text kvs = concat (map (\<lambda>kv. '' + '' @ price_text kv) (filter (\<lambda>kv. snd kv \<noteq> 0) kvs))"

definition extra_groups :: "(string \<times> rat) list \<Rightarrow> string option list" where
  "extra_groups kvs = map (\<lambda>kv. if snd kv = 0 then None else Some (show_num (snd kv))) kvs"

lemma extra_text_cases:
  "extra_text kvs = [] \<or> (\<exists>k s. k \<in> set (map fst kvs) \<and> extra_text kvs = '' + '' @ k @ CHR '' '' # s)"
proof (cases "filter (\<lambda>kv. snd kv \<noteq> 0) kvs")
  case (Cons kv xs)
  then have "kv \<in> set kvs" by (metis filter_is_subset list.set_intros(1) subsetD)
  then show ?thesis unfolding extra_text_def Cons by auto
qed (simp add: extra_text_def)

lemma extra_skipped:
  assumes "k \<in> set extra_names" "set (map fst kvs) \<subseteq> set extra_names" "k \<notin> set (map fst kvs)"
  shows "r_all (extra_rx k) (extra_text kvs @ CHR '')'' # r) = []"
proof -
  consider "extra_text kvs = []" | k' s where "k' \<in> set (map fst kvs)" "extra_text kvs = '' + '' @ k' @ CHR '' '' # s"
    using extra_text_cases by blast
  then show ?thesis
  proof cases
    case 1
    then show ?thesis using extra_fails_end by simp
  next
    case 2
    then show ?thesis using extra_fails [of k k' "s @ CHR '')'' # r"] assms by auto
  qed
qed

lemma extra_all_first:
  assumes "distinct (map fst kvs)" "set (map fst kvs) \<subseteq> set extra_names" "list_all (\<lambda>kv. decimal (snd kv)) kvs"
  shows "first (r_all (map (\<lambda>kv. optCache (fst kv)) kvs)) (extra_text kvs @ CHR '')'' # r) = Some (CHR '')'' # r, extra_groups kvs)"
  using assms
proof (induction kvs)
  case Nil
  then show ?case by (simp add: extra_text_def extra_groups_def)
next
  case (Cons kv kvs)
  let ?r = "extra_text kvs @ CHR '')'' # r"
  have ih: "first (r_all (map (\<lambda>kv. optCache (fst kv)) kvs)) ?r = Some (CHR '')'' # r, extra_groups kvs)"
    using Cons by simp
  have k: "fst kv \<in> set extra_names" "fst kv \<notin> set (map fst kvs)" "set (map fst kvs) \<subseteq> set extra_names"
    using Cons.prems by simp_all
  show ?case
  proof (cases "snd kv = 0")
    case True
    have "first (optCache (fst kv)) ?r = Some (?r, replicate 1 None)"
      unfolding optCache_eq by (rule first_opt_none) (rule extra_skipped [OF k(1,3,2)])
    from first_all_Cons [OF this ih] show ?thesis
      using True by (simp add: extra_text_def extra_groups_def)
  next
    case False
    have n: "number_text (show_num (snd kv))" using Cons.prems(3) show_decimal(2) by simp
    have e: "ends num_char ?r" using extra_text_cases [of kvs] by auto
    from first_all_Cons [OF extra_first [OF k(1) n e] ih] show ?thesis
      using False by (simp add: extra_text_def extra_groups_def)
  qed
qed

lemma bodyPat_eq:
  "bodyPat = [r_lit ''p''] @ factor_rx @ ([ws, r_lit ''+'', ws, r_lit ''c''] @ factor_rx) @
     map (\<lambda>kv. optCache (fst kv)) (extra_prices tier)"
  by (simp add: bodyPat_def cache_vars extra_prices_def)

lemma body_text_parts:
  "buildTierBodyExpr tier = ''p'' @ '' * '' @ show_num (or_zero (vt_input_unit_cost tier)) @ '' + '' @ ''c'' @ '' * '' @
     show_num (or_zero (vt_output_unit_cost tier)) @ extra_text (extra_prices tier)"
proof -
  have e: "tier_prices tier = (''p'', or_zero (vt_input_unit_cost tier)) # (''c'', or_zero (vt_output_unit_cost tier)) #
      filter (\<lambda>kv. snd kv \<noteq> 0) (extra_prices tier)"
    by (simp add: tier_prices_def)
  show ?thesis unfolding body_text e join_head extra_text_def by simp
qed

lemma printable_costs:
  assumes "printable_tier tier"
  shows "decimal (or_zero (vt_input_unit_cost tier))" "decimal (or_zero (vt_output_unit_cost tier))"
    "list_all (\<lambda>kv. decimal (snd kv)) (extra_prices tier)"
proof -
  have z: "decimal 0" by (simp add: decimal_def)
  show "decimal (or_zero (vt_input_unit_cost tier))" "decimal (or_zero (vt_output_unit_cost tier))"
    using assms unfolding printable_tier_def tier_prices_def by simp_all
  have "decimal (snd kv)" if "kv \<in> set (extra_prices tier)" for kv
    using assms that z unfolding printable_tier_def tier_prices_def list_all_iff by (cases kv; cases "snd kv = 0") auto
  then show "list_all (\<lambda>kv. decimal (snd kv)) (extra_prices tier)" by (simp add: list_all_iff)
qed

abbreviation cost_groups :: "VisualTier \<Rightarrow> string option list" where
  "cost_groups tier \<equiv> [Some (show_num (or_zero (vt_input_unit_cost tier))), Some (show_num (or_zero (vt_output_unit_cost tier)))] @
     extra_groups (extra_prices tier)"

lemma bodyPat_first:
  assumes "printable_tier tier"
  shows "first (r_all (bodyPat @ [r_lit '')''])) (buildTierBodyExpr tier @ CHR '')'' # r) = Some (r, cost_groups tier)"
proof -
  let ?x = "extra_text (extra_prices tier) @ CHR '')'' # r" and ?o = "map (\<lambda>kv. optCache (fst kv)) (extra_prices tier)"
  let ?c = "show_num (or_zero (vt_output_unit_cost tier))" and ?p = "show_num (or_zero (vt_input_unit_cost tier))"
  note d = printable_costs [OF assms]
  have "first (r_all ?o) ?x = Some (CHR '')'' # r, extra_groups (extra_prices tier))"
    using d(3) by (intro extra_all_first) (simp_all add: extra_keys)
  moreover have "first (r_all [r_lit '')'']) (CHR '')'' # r) = Some (r, [] @ [])"
    using first_lit [of "'')''" r] by (intro first_all_Cons) simp_all
  ultimately have x: "first (r_all (?o @ [r_lit '')''])) ?x = Some (r, extra_groups (extra_prices tier) @ [] @ [])"
    by (rule first_all_append)
  have ex: "ends num_char ?x" using extra_text_cases [of "extra_prices tier"] by auto
  have "first (r_all (factor_rx @ ?o @ [r_lit '')''])) ('' * '' @ ?c @ ?x) = Some (r, [Some ?c] @ extra_groups (extra_prices tier) @ [] @ [])"
    by (rule first_all_append [OF factor_first [OF show_decimal(2) [OF d(2)] ex] x])
  then have c: "first (r_all ([ws, r_lit ''+'', ws, r_lit ''c''] @ factor_rx @ ?o @ [r_lit '')''])) ('' + '' @ ''c'' @ '' * '' @ ?c @ ?x) =
      Some (r, [Some ?c] @ extra_groups (extra_prices tier) @ [] @ [])"
    by (intro plus_first) (simp_all add: is_ws_def)
  have "first (r_all factor_rx) ('' * '' @ ?p @ '' + '' @ ''c'' @ '' * '' @ ?c @ ?x) = Some ('' + '' @ ''c'' @ '' * '' @ ?c @ ?x, [Some ?p])"
    by (rule factor_first [OF show_decimal(2) [OF d(1)]]) simp
  from first_all_Cons [OF first_lit [of "''p''"] first_all_append [OF this c]]
  show ?thesis unfolding bodyPat_eq [of tier] body_text_parts by simp
qed

text \<open>The tier that the groups give.\<close>

definition read_tier :: "string \<Rightarrow> TierCondition list \<Rightarrow> VisualTier \<Rightarrow> VisualTier" where
  "read_tier label cs tier =
     tier\<lparr>vt_label := label, vt_conditions := cs,
          vt_input_unit_cost := Some (or_zero (vt_input_unit_cost tier)),
          vt_output_unit_cost := Some (or_zero (vt_output_unit_cost tier)),
          vt_cache_mode := (if 0 < vt_cache_create_1h_unit_cost tier then CACHE_MODE_TIMED else CACHE_MODE_GENERIC)\<rparr>"

lemma read_extra_cost:
  assumes "length fvs = length kvs" "distinct (map fst fvs)" "list_all (\<lambda>kv. decimal (snd kv)) kvs"
  shows "or_zero (map_of (List.map_filter (\<lambda>((fld, v), g). map_option (\<lambda>s. (fld, or_zero (js_Number s))) g)
      (zip fvs (extra_groups kvs))) f) = or_zero (map_of (zip (map fst fvs) (map snd kvs)) f)"
  using assms
proof (induction fvs kvs rule: list_induct2)
  case (Cons fv fvs kv kvs)
  let ?l = "List.map_filter (\<lambda>((fld, v), g). map_option (\<lambda>s. (fld, or_zero (js_Number s))) g) (zip fvs (extra_groups kvs))"
  have "fst ` set ?l \<subseteq> set (map fst fvs)"
    by (auto simp: set_map_filter dest!: set_zip_leftD intro: rev_image_eqI)
  then have n: "map_of ?l f = None" if "f = fst fv"
    using Cons.prems(1) that by (auto simp: map_of_eq_None_iff)
  have j: "js_Number (show_num (snd kv)) = Some (snd kv)" using Cons.prems(2) show_decimal(1) by simp
  show ?case
    using Cons n j by (cases fv) (auto simp: extra_groups_def List.map_filter_simps nullish_def)
qed (simp add: extra_groups_def List.map_filter_simps)

lemma read_extra_fields:
  assumes "list_all (\<lambda>kv. decimal (snd kv)) (extra_prices tier)"
  shows "or_zero (map_of (read_extra (extra_groups (extra_prices tier))) f) = or_zero (map_of (tier_fields tier) f)"
proof -
  have "or_zero (map_of (read_extra (extra_groups (extra_prices tier))) f) =
      or_zero (map_of (zip (map fst BILLING_CACHE_VAR_MAP) (map snd (extra_prices tier))) f)"
    unfolding read_extra_def using assms
    by (intro read_extra_cost) (simp_all add: cache_vars extra_prices_def)
  also have "zip (map fst BILLING_CACHE_VAR_MAP) (map snd (extra_prices tier)) = tier_fields tier"
    by (simp add: cache_vars extra_prices_def tier_fields_def)
  finally show ?thesis .
qed

lemma visual_tier_read:
  assumes "printable_tier tier"
  shows "visual_tier label cs (cost_groups tier) = read_tier label cs tier"
proof -
  note d = printable_costs [OF assms]
  have e: "extra_cost \<lparr>pr_label = a, pr_conditions = b, pr_input_unit_cost = x, pr_output_unit_cost = y, pr_cache_mode = z,
      pr_extra = read_extra (extra_groups (extra_prices tier))\<rparr> f = or_zero (map_of (tier_fields tier) f)" for a b x y z f
    using read_extra_fields [OF d(3)] by (simp add: extra_cost_def)
  have "visual_tier label cs (cost_groups tier) = normalizeVisualTier
      \<lparr>pr_label = Some label, pr_conditions = Some cs, pr_input_unit_cost = Some (Some (or_zero (vt_input_unit_cost tier))),
       pr_output_unit_cost = Some (Some (or_zero (vt_output_unit_cost tier))), pr_cache_mode = None,
       pr_extra = read_extra (extra_groups (extra_prices tier))\<rparr>"
    using show_decimal(1) [OF d(1)] show_decimal(1) [OF d(2)] by (simp add: visual_tier_def nullish_def)
  then show ?thesis
    by (simp add: normalizeVisualTier_def getTierCacheMode_def e read_tier_def tier_fields_def nullish_def)
qed

lemma normalize_tier_id: "normalizeVisualTier (as_partial_tier tier) = tier"
  by (simp add: normalizeVisualTier_def as_partial_tier_def extra_cost_def tier_fields_def nullish_def)

lemma normalize_config_id: "tiers \<noteq> [] \<Longrightarrow> normalizeVisualConfig (Some tiers) = tiers"
  by (simp add: normalizeVisualConfig_def normalize_tier_id comp_def)

lemma visualTierRe_first:
  assumes "CHR 0x22 \<notin> set label" "list_all numeric_condition cs" "printable_tier tier"
  shows "first (visualTierRe prev) (tier_text label cs tier @ r) = Some (r, tier_groups label cs @ cost_groups tier)"
  unfolding visualTierRe_def by (rule tier_text_first [OF assms bodyPat_first [OF assms(3)]])

lemma visualTierRe_none: "c \<in> set '' :'' \<Longrightarrow> visualTierRe prev (c # s) = []"
  unfolding visualTierRe_def by (rule tier_fails) auto

lemma visualTierRe_end: "exec_all visualTierRe prev '' : p * 0 + c * 0'' = []"
  by code_simp

lemma singleRe_first:
  assumes "CHR 0x22 \<notin> set label" "printable_tier tier"
  shows "full_match singleRe (tier_call label tier) = Some (Some label # cost_groups tier)"
proof -
  have "first singleRe (call_head label (buildTierBodyExpr tier @ '')'')) = Some ([], [Some label] @ cost_groups tier)"
    unfolding singleRe_def
    using first_all_append [OF call_first [OF assms(1) body_facts(1) [OF assms(2), of "'')''"]] bodyPat_first [OF assms(2), of "[]"]]
    by simp
  then show ?thesis by (auto simp: tier_call_def full_match_def first_Some)
qed

lemma singleRe_none: "list_all numeric_condition cs \<Longrightarrow> cs \<noteq> [] \<Longrightarrow> singleRe (conditions_str cs @ s) = []"
proof (cases cs)
  case (Cons c ds)
  assume "list_all numeric_condition cs"
  then have "numeric_condition c" using Cons by simp
  then have "r_lit (''tier('' @ dq) (condition_text c @ t) = []" for t
    using condition_facts(1) [of c] by auto
  then show ?thesis
    unfolding Cons join_head singleRe_def by (simp add: r_all.simps(2) seq_fails)
qed simp

text \<open>The tiers read from a printed configuration.\<close>

definition read_printed :: "nat \<Rightarrow> nat \<times> VisualTier \<Rightarrow> VisualTier" where
  "read_printed n it = read_tier (printed_label n it) (printed_conds n it) (snd it)"

lemma enumerate_map: "List.enumerate k (map f (List.enumerate k xs)) = map (\<lambda>it. (fst it, f it)) (List.enumerate k xs)"
  by (intro nth_equalityI) (simp_all add: nth_enumerate_eq)

lemma printed_label_nonempty: "printed_label n it \<noteq> []"
  by (simp add: printed_label_def str_or_def)

lemma same_prices: "tier_prices (read_tier l cs tier) = tier_prices tier"
  by (simp add: tier_prices_def extra_prices_def read_tier_def nullish_def)

lemma same_tier_text: "tier_text l cs (read_tier l' cs' tier) = tier_text l cs tier"
  by (simp add: tier_text_def tier_call_def body_text same_prices)

lemma regenerated_text:
  assumes "list_all printable_tier tiers" "tiers \<noteq> []"
  shows "generateExprFromVisualConfig (Some (map (read_printed (length tiers)) (List.enumerate 0 tiers))) =
    generateExprFromVisualConfig (Some tiers)"
proof -
  let ?n = "length tiers" and ?its = "List.enumerate 0 tiers"
  let ?ts = "map (read_printed ?n) ?its"
  note f = printed_facts [OF assms(1)]
  have p: "list_all printable_tier ?ts"
    using f by (auto simp: list_all_iff read_printed_def printable_tier_def same_prices) (auto simp: read_tier_def)
  have ne: "?ts \<noteq> []" using assms(2) by (cases tiers) simp_all
  have "printed_tier ?n (fst it, read_printed ?n it) = printed_tier ?n it" for it
  proof -
    have "printed_label ?n (fst it, read_printed ?n it) = printed_label ?n it"
      using printed_label_nonempty [of ?n it] by (subst printed_label_def) (simp add: read_printed_def read_tier_def str_or_def)
    moreover have "printed_conds ?n (fst it, read_printed ?n it) = printed_conds ?n it"
      by (simp add: printed_conds_def read_printed_def read_tier_def)
    ultimately show ?thesis by (simp add: read_printed_def same_tier_text)
  qed
  then have "map (printed_tier ?n) (List.enumerate 0 ?ts) = map (printed_tier ?n) ?its"
    by (simp add: enumerate_map)
  moreover have "end_of ?ts = end_of tiers"
    by (cases tiers) (simp_all add: end_of_def read_printed_def read_tier_def printed_conds_def)
  ultimately show ?thesis
    unfolding generated_text [OF p ne] generated_text [OF assms] by simp
qed

text \<open>C30: the visual editor reads what it printed. For every configuration with decimal prices and numeric
  conditions in which every tier but the last has a condition, reading the printed expression gives the same tiers: the
  labels and conditions that were printed, the same prices, and the cache mode that the prices imply.\<close>

theorem visual_config_roundtrip:
  assumes "list_all printable_tier tiers" "tiers \<noteq> []" "list_all (\<lambda>t. vt_conditions t \<noteq> []) (butlast tiers)"
  shows "tryParseVisualConfig (Some (generateExprFromVisualConfig (Some tiers))) =
    Some (map (read_printed (length tiers)) (List.enumerate 0 tiers))"
proof (cases "length tiers = 1 \<and> vt_conditions (hd tiers) = []")
  case True
  then obtain t where t: "tiers = [t]" "vt_conditions t = []" by (auto simp: length_Suc_conv)
  let ?l = "printed_label 1 (0, t)"
  have g: "generateExprFromVisualConfig (Some tiers) = tier_call ?l t"
    using generated_text [OF assms(1,2)] t by (simp add: end_of_def tier_text_def printed_conds_def)
  have "full_match singleRe (tier_call ?l t) = Some (Some ?l # cost_groups t)"
    using printed_facts [OF assms(1), of "(0, t)"] t by (intro singleRe_first) simp_all
  then have "tryParseVisualConfig (Some (tier_call ?l t)) = Some [visual_tier ?l [] (cost_groups t)]"
    using version_none [OF assms(1,2)] normalize_config_id unfolding g
    by (simp add: tryParseVisualConfig_def nullish_def Let_def)
  moreover have "printable_tier t" using assms(1) t by simp
  ultimately show ?thesis
    using t g visual_tier_read by (simp add: read_printed_def printed_conds_def)
next
  case False
  let ?n = "length tiers" and ?its = "List.enumerate 0 tiers" and ?e = "generateExprFromVisualConfig (Some tiers)"
  let ?g = "\<lambda>it. tier_groups (printed_label ?n it) (printed_conds ?n it) @ cost_groups (snd it)"
  note f = printed_facts [OF assms(1)]
  have ne: "?its \<noteq> []" using assms(2) by (cases tiers) simp_all
  have x: "exec_all visualTierRe None ?e = map ?g ?its"
    unfolding generated_text [OF assms(1,2)]
  proof (rule exec_tiers)
    show "first (visualTierRe prev) (printed_tier ?n it @ r) = Some (r, ?g it)" if "it \<in> set ?its" for prev it r
      using f [OF that] by (intro visualTierRe_first)
    show "exec_all visualTierRe prev (end_of tiers) = []" for prev
      using visualTierRe_end [of prev] by (simp add: end_of_def)
  qed (simp_all only: tier_text_nonempty visualTierRe_none not_False_eq_True ne)
  have r: "map (\<lambda>m. visual_tier (grp m 1) (read_conditions (grp m 0)) (drop 2 m)) (map ?g ?its) = map (read_printed ?n) ?its"
    using f groups_read visual_tier_read by (simp add: read_printed_def tier_groups_def nullish_def)
  obtain t ts where t: "tiers = t # ts" using assms(2) by (cases tiers) auto
  have "printed_conds ?n (0, t) \<noteq> []"
    using False assms(3) t by (cases ts) (auto simp: printed_conds_def)
  then have "singleRe (printed_tier ?n (0, t) @ s) = []" for s
    using singleRe_none [of "printed_conds ?n (0, t)"] f(2) [of "(0, t)"] t by (simp add: tier_text_def)
  moreover have "?its = (0, t) # List.enumerate (Suc 0) ts" using t by simp
  ultimately have "full_match singleRe ?e = None"
    unfolding generated_text [OF assms(1,2)] by (simp only: join_head append_assoc) (simp add: full_match_def)
  moreover have t: "map (read_printed ?n) ?its \<noteq> []" using ne by simp
  ultimately show ?thesis
    using version_none [OF assms(1,2)]
    by (simp only: tryParseVisualConfig_def Let_def option.case x r normalize_config_id [OF t] regenerated_text [OF assms(1,2)]
        if_False if_True not_True_eq_False refl)
qed

text \<open>Two tiers: short requests are cheaper.\<close>

definition sample_tiers :: "VisualTier list" where
  "sample_tiers =
     [normalizeVisualTier
        \<lparr>pr_label = Some ''short'',
         pr_conditions = Some [\<lparr>tn_var = ''len'', tn_op = ''<='', tn_value = NumValue (Some 9)\<rparr>],
         pr_input_unit_cost = Some (Some (5 / 2)), pr_output_unit_cost = Some (Some 3), pr_cache_mode = None,
         pr_extra = [(''cache_create_1h_unit_cost'', 1 / 2)]\<rparr>,
      normalizeVisualTier
        \<lparr>pr_label = None, pr_conditions = None, pr_input_unit_cost = Some (Some 4), pr_output_unit_cost = Some (Some 5),
         pr_cache_mode = None, pr_extra = []\<rparr>]"

lemma sample_tiers_facts:
  "list_all printable_tier sample_tiers" "sample_tiers \<noteq> []" "list_all (\<lambda>t. vt_conditions t \<noteq> []) (butlast sample_tiers)"
  by code_simp+

lemma sample_length: "length sample_tiers = 2"
  by (simp add: sample_tiers_def)

theorem visual_config_roundtrip_witness:
  "tryParseVisualConfig (Some (generateExprFromVisualConfig (Some sample_tiers))) =
     Some (map (read_printed 2) (List.enumerate 0 sample_tiers))"
  using visual_config_roundtrip [OF sample_tiers_facts] by (simp only: sample_length)

theorem printed_tiers_read_witness:
  "map pt_label (parseTiersFromExpr (generateExprFromVisualConfig (Some sample_tiers))) = [''short'', ''tier_2'']"
proof -
  have "parseTiersFromExpr (generateExprFromVisualConfig (Some sample_tiers)) =
      map (\<lambda>it. \<lparr>pt_label = printed_label 2 it, pt_conditions = printed_conds 2 it, pt_prices = price_list (snd it)\<rparr>)
        (List.enumerate 0 sample_tiers)"
    using printed_tiers_read [OF sample_tiers_facts(1,2)] by (simp only: sample_length)
  moreover have "map (printed_label 2) (List.enumerate 0 sample_tiers) = [''short'', ''tier_2'']"
    by code_simp
  ultimately show ?thesis by (simp add: comp_def)
qed

end
