(* ===== verification/PricingDisplay.thy ===== *)
theory PricingDisplay
  imports Catalog TierRoundtrip
begin

text \<open>
  What the price display reads from a stored billing expression: the printed tiers stay one factor when the rules are split
  off, with and without rules, and the entries of the display are the positive prices of the first tier.
\<close>

section \<open>Printed tiers as factors\<close>

lemma clear_no_star:
  "CHR ''*'' \<notin> set s \<Longrightarrow> s = [] \<or> last s \<noteq> CHR '' '' \<Longrightarrow> clear '' * '' d s f"
proof (induction s arbitrary: d)
  case (Cons c s)
  have "\<not> startsWith (c # s @ f) '' * ''"
    using Cons.prems by (cases s) (auto simp: startsWith_def)
  moreover have "clear '' * '' (bump d c) s f" using Cons by (cases s) simp_all
  ultimately show ?case by simp
qed simp

text \<open>A text that the factor splitter leaves whole: its parentheses match, no factor sign stands outside them, and it starts
  with a letter.\<close>

definition one_factor :: "string \<Rightarrow> bool" where
  "one_factor s \<longleftrightarrow> nested s \<and> (\<forall>f. clear '' * '' 0 s f) \<and> s \<noteq> [] \<and> hd s \<in> set ''tpcl''"

lemma one_factor_call:
  assumes "no_parens a" "CHR ''*'' \<notin> set a" "a \<noteq> []" "last a \<noteq> CHR '' ''" "hd a \<in> set ''tpcl''" "no_parens b"
  shows "one_factor (a @ ''('' @ b @ '')'')"
proof -
  have n: "nested a" "nested b" using assms by (simp_all only: nested_plain)
  then have "depth_after 0 a = 0" by (simp add: nested_def)
  then have "clear '' * '' 0 (a @ ''('' @ b @ '')'') f" for f
    using clear_no_star [OF assms(2)] clear_parens [OF n(2)] assms(4) by (simp only: clear_append) simp
  then show ?thesis
    using nested_append [OF n(1) nested_parens [OF n(2)]] assms(3,5) by (simp add: one_factor_def)
qed

lemma one_factor_colon:
  assumes "one_factor s" "one_factor t"
  shows "one_factor (s @ '' : '' @ t)"
proof -
  have n: "nested s" "nested t" and ne: "s \<noteq> []" "hd s \<in> set ''tpcl''" using assms by (simp_all add: one_factor_def)
  obtain c u where t: "t = c # u" "c \<noteq> CHR ''*''" using assms(2) by (cases t) (auto simp: one_factor_def)
  have "clear '' * '' 0 ('' : '' @ t) f" for f
    using assms(2) t by (auto simp: one_factor_def startsWith_def)
  moreover have "depth_after 0 s = 0" using n(1) by (simp add: nested_def)
  ultimately have "clear '' * '' 0 (s @ '' : '' @ t) f" for f
    using assms(1) unfolding one_factor_def by (simp only: clear_append [of _ _ s])
  moreover have "nested (s @ '' : '' @ t)" using n by (intro nested_append nested_plain [of "'' : ''"]) simp_all
  ultimately show ?thesis using ne by (simp add: one_factor_def)
qed

lemma one_factor_join: "xs \<noteq> [] \<Longrightarrow> list_all one_factor xs \<Longrightarrow> one_factor (join '' : '' xs)"
proof (induction xs)
  case (Cons x xs)
  then show ?case using one_factor_colon [of x "join '' : '' xs"] by (cases "xs = []") (simp_all add: join_Cons)
qed simp

lemma number_no_sign: "number_text n \<Longrightarrow> no_parens n \<and> CHR ''*'' \<notin> set n"
  by (auto simp: number_text_def list_all_iff is_digit_def)

lemma condition_plain:
  assumes "numeric_condition c"
  shows "no_parens (condition_text c) \<and> CHR ''*'' \<notin> set (condition_text c) \<and> hd (condition_text c) \<in> set ''pcl''"
proof -
  note f = condition_facts [OF assms]
  have v: "tn_var c = ''p'' \<or> tn_var c = ''c'' \<or> tn_var c = ''len''" using f(1) by simp
  have o: "tn_op c = ''<'' \<or> tn_op c = ''<='' \<or> tn_op c = ''>'' \<or> tn_op c = ''>=''" using f(2) by simp
  show ?thesis
    using number_no_sign [OF f(3)] v o by (elim disjE) simp_all
qed

lemma join_plain:
  "no_parens sep \<Longrightarrow> CHR ''*'' \<notin> set sep \<Longrightarrow> list_all (\<lambda>x. no_parens x \<and> CHR ''*'' \<notin> set x) xs \<Longrightarrow>
   no_parens (join sep xs) \<and> CHR ''*'' \<notin> set (join sep xs)"
  by (induction sep xs rule: join.induct) auto

lemma conditions_plain:
  assumes "list_all numeric_condition cs"
  shows "no_parens (conditions_str cs)" "CHR ''*'' \<notin> set (conditions_str cs)" "cs \<noteq> [] \<Longrightarrow> hd (conditions_str cs) \<in> set ''pcl''"
proof -
  have "list_all (\<lambda>x. no_parens x \<and> CHR ''*'' \<notin> set x) (map condition_text cs)"
    using assms condition_plain by (auto simp only: list_all_iff set_map)
  from join_plain [OF _ _ this, of "'' && ''"]
  show "no_parens (conditions_str cs)" "CHR ''*'' \<notin> set (conditions_str cs)" by simp_all
  assume "cs \<noteq> []"
  then obtain c ds where cs: "cs = c # ds" by (cases cs) auto
  then have "hd (condition_text c) \<in> set ''pcl''" using condition_plain [of c] assms by simp
  moreover have "condition_text c \<noteq> []" by simp
  ultimately show "hd (conditions_str cs) \<in> set ''pcl''" unfolding cs join_head by (subst hd_append2) assumption+
qed

lemma body_plain:
  assumes "printable_tier tier"
  shows "no_parens (buildTierBodyExpr tier)"
proof -
  have "no_parens (price_text kv)" if "priced kv" for kv
  proof -
    have "number_text (show_num (snd kv))" "fst kv \<in> set price_keys" using show_decimal(2) that by (simp_all add: priced_def)
    then show ?thesis using number_no_sign by auto
  qed
  then have "list_all no_parens (map price_text (tier_prices tier))"
    using prices_priced [OF assms] by (auto simp only: list_all_iff set_map)
  moreover have "list_all no_parens xs \<Longrightarrow> no_parens (join '' + '' xs)" for xs
    by (induction "'' + ''" xs rule: join.induct) auto
  ultimately show ?thesis unfolding body_text by blast
qed

lemma tier_text_factor:
  assumes "list_all numeric_condition cs" "printable_tier tier" "no_parens label"
  shows "one_factor (tier_text label cs tier)"
proof -
  let ?a = "(if cs = [] then [] else conditions_str cs @ '' ? '') @ ''tier''"
  have e: "tier_text label cs tier = ?a @ ''('' @ (dq @ label @ dq @ '', '' @ buildTierBodyExpr tier) @ '')''"
    by (simp add: tier_text_def tier_call_def)
  show ?thesis
    unfolding e
  proof (rule one_factor_call)
    show "no_parens ?a" "CHR ''*'' \<notin> set ?a" "hd ?a \<in> set ''tpcl''"
      using conditions_plain [OF assms(1)] by (auto simp: hd_append)
    show "no_parens (dq @ label @ dq @ '', '' @ buildTierBodyExpr tier)" using assms(3) body_plain [OF assms(2)] by simp
  qed simp_all
qed

lemma printed_factor:
  assumes "list_all printable_tier tiers" "tiers \<noteq> []" "list_all (\<lambda>t. no_parens (vt_label t)) tiers"
  shows "one_factor (join '' : '' (map (printed_tier (length tiers)) (List.enumerate 0 tiers)))"
proof (rule one_factor_join)
  show "map (printed_tier (length tiers)) (List.enumerate 0 tiers) \<noteq> []" using assms(2) by (cases tiers) simp_all
  have "one_factor (printed_tier (length tiers) it)" if it: "it \<in> set (List.enumerate 0 tiers)" for it
  proof (rule tier_text_factor [OF printed_facts(2,3) [OF assms(1) it]])
    have "snd it \<in> set tiers" using it by (metis in_set_enumerate_eq add_0_right diff_zero nth_mem)
    moreover have "no_parens (show_nat k)" for k
      using show_nat_digits [of k] by (auto simp: list_all_iff is_digit_def)
    ultimately show "no_parens (printed_label (length tiers) it)"
      using assms(3) by (auto simp: printed_label_def str_or_def list_all_iff [of "\<lambda>t. no_parens (vt_label t)"])
  qed
  then show "list_all one_factor (map (printed_tier (length tiers)) (List.enumerate 0 tiers))"
    by (auto simp only: list_all_iff set_map)
qed

section \<open>Splitting printed tiers\<close>

lemma factor_unread_end:
  assumes "last part \<noteq> CHR '')'' \<or> (\<exists>x c. part = x @ [c, CHR '')''] \<and> c \<noteq> CHR ''1'')" "part \<noteq> []"
  shows "tryParseRuleGroupFactor part = Some None"
proof -
  have "strip_prefix (rev '' : 1)'') (rev part) = None"
    using assms(1)
  proof
    assume "last part \<noteq> CHR '')''"
    then show ?thesis using assms(2) by (cases part rule: rev_cases) (simp_all add: strip_prefix_Cons)
  qed (auto simp: strip_prefix_Cons)
  then show ?thesis by (simp add: tryParseRuleGroupFactor_def m_factor_def)
qed

lemma part_unread:
  assumes "whole_part '' * '' part" "last part \<noteq> CHR '')'' \<or> (\<exists>x c. part = x @ [c, CHR '')''] \<and> c \<noteq> CHR ''1'')"
  shows "tryParseRequestRuleExpr part = Some None"
proof -
  have "splitTopLevelMultiply part = [part]" "trim part = part" "part \<noteq> []"
    using factors.split_join [of "[part]"] assms(1) by (simp_all add: whole_part_def)
  then show ?thesis using factor_unread_end [OF assms(2)] by (simp add: tryParseRequestRuleExpr_def)
qed

lemma factor_whole_part: "one_factor s \<Longrightarrow> \<not> is_ws (last s) \<Longrightarrow> whole_part '' * '' s"
  by (auto simp: one_factor_def whole_part_def nested_def is_ws_def intro!: trim_edges)

lemma tier_text_last: "\<exists>x. tier_text label cs tier = x @ '')''"
  by (simp add: tier_text_def tier_call_def)

lemma join_last: "xs \<noteq> [] \<Longrightarrow> \<exists>x. join sep xs = x @ last xs"
  by (induction sep xs rule: join.induct) auto

lemma printed_last:
  assumes "tiers \<noteq> []"
  shows "\<exists>x. join '' : '' (map (printed_tier (length tiers)) (List.enumerate 0 tiers)) = x @ '')''"
proof -
  let ?xs = "map (printed_tier (length tiers)) (List.enumerate 0 tiers)"
  have ne: "?xs \<noteq> []" "List.enumerate 0 tiers \<noteq> []" using assms by (cases tiers; simp)+
  obtain x where "join '' : '' ?xs = x @ last ?xs" using join_last [OF ne(1)] by blast
  moreover obtain y where "last ?xs = y @ '')''"
    using tier_text_last unfolding last_map [OF ne(2)] by blast
  ultimately show ?thesis by simp
qed

text \<open>The printed expression: the tiers as one factor, and for a single tier with a condition the price 0 of other requests.\<close>

abbreviation printed_expr :: "VisualTier list \<Rightarrow> string" where
  "printed_expr tiers \<equiv> generateExprFromVisualConfig (Some tiers)"

lemma printed_expr_facts:
  assumes "list_all printable_tier tiers" "tiers \<noteq> []" "list_all (\<lambda>t. no_parens (vt_label t)) tiers"
  shows "nested (printed_expr tiers)" "trim (printed_expr tiers) = printed_expr tiers" "printed_expr tiers \<noteq> []"
    "\<exists>x c. printed_expr tiers = x @ [c] \<and> c \<noteq> CHR ''1''" "\<not> hasFullOuterParens (printed_expr tiers)"
proof -
  let ?j = "join '' : '' (map (printed_tier (length tiers)) (List.enumerate 0 tiers))"
  have e: "printed_expr tiers = ?j @ end_of tiers" by (rule generated_text [OF assms(1,2)])
  have j: "nested ?j" "?j \<noteq> []" "hd ?j \<in> set ''tpcl''" using printed_factor [OF assms] by (simp_all add: one_factor_def)
  obtain x where x: "?j = x @ '')''" using printed_last [OF assms(2)] by blast
  have end_cases: "end_of tiers = [] \<or> end_of tiers = '' : p * 0 + c * '' @ ''0''" by (simp add: end_of_def)
  show n: "nested (printed_expr tiers)"
    unfolding e using j(1) end_cases by (intro nested_append) (auto intro: nested_plain)
  show l: "\<exists>x c. printed_expr tiers = x @ [c] \<and> c \<noteq> CHR ''1''"
    unfolding e using end_cases
  proof
    assume "end_of tiers = '' : p * 0 + c * '' @ ''0''"
    then show "\<exists>x c. ?j @ end_of tiers = x @ [c] \<and> c \<noteq> CHR ''1''"
      by (intro exI [of _ "?j @ '' : p * 0 + c * ''"] exI [of _ "CHR ''0''"]) simp
  qed (use x in auto)
  show ne: "printed_expr tiers \<noteq> []" unfolding e using j(2) by simp
  have h: "hd (printed_expr tiers) \<in> set ''tpcl''" unfolding e hd_append2 [OF j(2)] by (rule j(3))
  then have "\<not> is_ws (hd (printed_expr tiers))" by (auto simp: is_ws_def)
  moreover have "\<not> is_ws (last (printed_expr tiers))"
    unfolding e using end_cases x by (auto simp: is_ws_def)
  ultimately show "trim (printed_expr tiers) = printed_expr tiers" using ne by (intro trim_edges)
  show "\<not> hasFullOuterParens (printed_expr tiers)"
    using h ne by (cases "printed_expr tiers") (auto simp: hasFullOuterParens_def startsWith_def)
qed

lemma split_printed:
  assumes "list_all printable_tier tiers" "tiers \<noteq> []" "list_all (\<lambda>t. no_parens (vt_label t)) tiers"
  shows "splitBillingExprAndRequestRules (printed_expr tiers) = Some \<lparr>se_billingExpr = printed_expr tiers, se_requestRuleExpr = []\<rparr>"
proof -
  let ?j = "join '' : '' (map (printed_tier (length tiers)) (List.enumerate 0 tiers))"
  note f = printed_expr_facts [OF assms] and e = generated_text [OF assms(1,2)] and j = printed_factor [OF assms]
  show ?thesis
  proof (cases "end_of tiers = []")
    case True
    then have "whole_part '' * '' (printed_expr tiers)"
      using factor_whole_part [OF j] printed_last [OF assms(2)] by (auto simp: e)
    then have "splitTopLevelMultiply (printed_expr tiers) = [printed_expr tiers]"
      using factors.split_join [of "[printed_expr tiers]"] by simp
    then show ?thesis using f(2,3) by (simp add: splitBillingExprAndRequestRules_def)
  next
    case False
    let ?ps = "[?j @ '' : '' @ ''p'', ''0 + c'', ''0'']"
    have p: "one_factor ''p''" by (simp add: one_factor_def nested_plain startsWith_def)
    have w: "whole_part '' * '' (?j @ '' : '' @ ''p'')" "whole_part '' * '' ''0 + c''" "whole_part '' * '' ''0''"
      using factor_whole_part [OF one_factor_colon [OF j p]]
      by (simp_all add: is_ws_def whole_part_def startsWith_def trim_def trimEnd_def)
    have "printed_expr tiers = join '' * '' ?ps" using False by (simp add: e end_of_def split: if_splits)
    then have "splitTopLevelMultiply (printed_expr tiers) = ?ps"
      using factors.split_join [of ?ps] w by simp
    moreover have "sort_parts ?ps = Some ([], ?ps)"
      using part_unread [OF w(1)] part_unread [OF w(2)] part_unread [OF w(3)] by simp
    ultimately show ?thesis using f(2,3) by (simp add: splitBillingExprAndRequestRules_def)
  qed
qed

lemma split_combined_tiers:
  assumes "list_all printable_tier tiers" "tiers \<noteq> []" "list_all (\<lambda>t. no_parens (vt_label t)) tiers" "list_all readable_group rules"
  shows "splitBillingExprAndRequestRules (combineBillingExpr (printed_expr tiers) (buildRequestRuleExpr rules)) =
    Some \<lparr>se_billingExpr = printed_expr tiers, se_requestRuleExpr = buildRequestRuleExpr rules\<rparr>"
proof (cases "rules = []")
  case True
  then show ?thesis
    using split_printed [OF assms(1-3)] printed_expr_facts(2,3) [OF assms(1-3)]
    by (simp add: combineBillingExpr_def buildRequestRuleExpr_def)
next
  case False
  note f = printed_expr_facts [OF assms(1-3)]
  let ?b = "''('' @ printed_expr tiers @ '')''"
  obtain x c where x: "printed_expr tiers = x @ [c]" "c \<noteq> CHR ''1''" using f(4) by blast
  have "tryParseRequestRuleExpr ?b = Some None"
    using part_unread [OF whole_parens [OF f(1)]] x by (metis append.assoc append_Cons append_Nil)
  then have "splitBillingExprAndRequestRules (combineBillingExpr (printed_expr tiers) (buildRequestRuleExpr rules)) =
      Some \<lparr>se_billingExpr = unwrapOuterParens (printed_expr tiers), se_requestRuleExpr = buildRequestRuleExpr rules\<rparr>"
    using f(1-3) by (intro combined_splits [OF assms(4) False]) simp_all
  moreover have "unwrapOuterParens (printed_expr tiers) = printed_expr tiers"
    using f(2,5) by (simp add: unwrapOuterParens_def unwrap_loop.simps)
  ultimately show ?thesis by simp
qed

section \<open>The entries of the first tier\<close>

lemma pricing_fields: "map bv_field BILLING_PRICING_VARS = map Some (map fst (price_list tier))"
  by (simp add: BILLING_PRICING_VARS_def BILLING_VARS_def billing_var_def price_list_def)

lemma price_list_distinct: "distinct (map fst (price_list tier))"
  by (simp add: price_list_def)

lemma entry_prices:
  assumes "pt_prices t = price_list tier"
  shows "(\<lambda>e. (de_field e, de_value e)) ` set (getDynamicPriceEntries intl config (Some t) options) =
    {fp \<in> set (price_list tier). 0 < snd fp}"
proof -
  have f: "(\<exists>v \<in> set BILLING_PRICING_VARS. bv_field v = Some fld) \<longleftrightarrow> fld \<in> fst ` set (price_list tier)" for fld
  proof -
    have "Some fld \<in> set (map bv_field BILLING_PRICING_VARS) \<longleftrightarrow> Some fld \<in> set (map Some (map fst (price_list tier)))"
      unfolding pricing_fields [of tier] ..
    then show ?thesis by (auto simp: image_iff eq_commute)
  qed
  have m: "map_of (price_list tier) fld = Some p \<longleftrightarrow> (fld, p) \<in> set (price_list tier)" for fld p
    by (rule map_of_eq_Some_iff [OF price_list_distinct])
  show ?thesis
  proof (intro equalityI subsetI)
    fix fp assume "fp \<in> (\<lambda>e. (de_field e, de_value e)) ` set (getDynamicPriceEntries intl config (Some t) options)"
    then obtain e where e: "e \<in> set (getDynamicPriceEntries intl config (Some t) options)" "fp = (de_field e, de_value e)"
      by blast
    then obtain fld p where "map_of (pt_prices t) fld = Some p" "0 < p" "fp = (fld, p)" unfolding entry_values by auto
    then show "fp \<in> {fp \<in> set (price_list tier). 0 < snd fp}" using m assms by simp
  next
    fix fp assume fp: "fp \<in> {fp \<in> set (price_list tier). 0 < snd fp}"
    then have "fst fp \<in> fst ` set (price_list tier)" by simp
    then obtain v where v: "v \<in> set BILLING_PRICING_VARS" "bv_field v = Some (fst fp)" using f by blast
    let ?e = "\<lparr>de_key = bv_key v, de_field = fst fp, de_label = bv_label v, de_shortLabel = bv_shortLabel v, de_value = snd fp,
      de_formatted = formatDynamicUnitPrice intl config (snd fp) options, de_variable = v\<rparr>"
    have "map_of (pt_prices t) (fst fp) = Some (snd fp)" "0 < snd fp" using fp m assms by simp_all
    then have "?e \<in> set (getDynamicPriceEntries intl config (Some t) options)" unfolding entry_values using v by blast
    then show "fp \<in> (\<lambda>e. (de_field e, de_value e)) ` set (getDynamicPriceEntries intl config (Some t) options)"
      by (intro image_eqI [of _ _ ?e]) simp_all
  qed
qed

lemma summary_of_tiers:
  assumes "isDynamicPricingModel model" "getDynamicPricingTiers model = Some (t # ts)" "hasDynamicRequestRules model = Some r"
  shows "\<exists>s. getDynamicPricingSummary intl config model options = Some (Some s) \<and> ds_tiers s = t # ts \<and>
    ds_hasRequestRules s = r \<and> \<not> ds_isSpecialExpression s \<and>
    ds_entries s = getDynamicPriceEntries intl config (Some t) options \<and>
    ds_entries s = ds_primaryEntries s @ ds_secondaryEntries s"
  using assms entries_partition [OF refl, of intl config "Some t" options]
  by (simp add: getDynamicPricingSummary_def Let_def)

end
