(* ===== verification/TierEval.thy ===== *)
theory TierEval
  imports TierPricing
begin

text \<open>
  The cost estimator of \<open>features/pricing/lib/tier-expr.ts\<close>. It hands the expression to \<open>new Function\<close>, so the language itself
  is modelled here, for the fragment of expressions with numbers, the names of the environment, string arguments, sums, products, comparisons,
  conjunctions, conditionals and the functions of the environment. The behaviour of any other text is a parameter, the
  result of running it or the message of the error it throws.
\<close>

section \<open>Tokens\<close>

datatype tok = TNum rat | TId string | TStr string | TQuest | TColon | TAnd | TRel string | TPlus | TStar | TOpen | TClose | TComma

definition id_start :: "char \<Rightarrow> bool" where
  "id_start c \<longleftrightarrow> is_word c \<and> \<not> is_digit c \<or> c = CHR ''$''"

definition id_char :: "char \<Rightarrow> bool" where
  "id_char c \<longleftrightarrow> is_word c \<or> c = CHR ''$''"

text \<open>A numeral: digits without a leading zero, perhaps a point and digits; what follows must not continue it.\<close>

definition lex_number :: "string \<Rightarrow> (rat \<times> string) option" where
  "lex_number s =
     (let whole = takeWhile is_digit s; r = dropWhile is_digit s;
          frac = (if startsWith r ''.'' then takeWhile is_digit (drop 1 r) else []);
          q = (if startsWith r ''.'' then dropWhile is_digit (drop 1 r) else r) in
      if whole = [] \<or> (1 < length whole \<and> hd whole = CHR ''0'') \<or> (q \<noteq> [] \<and> (id_char (hd q) \<or> hd q = CHR ''.'')) then None
      else Some (of_nat (read_nat (whole @ frac)) / 10 ^ length frac, q))"

text \<open>The characters that may continue an operator.\<close>

definition op_char :: "char \<Rightarrow> bool" where
  "op_char c \<longleftrightarrow> c \<in> set ''<>=&*+?.!-|/''"

definition lex_op :: "string \<Rightarrow> (tok \<times> string) option" where
  "lex_op s =
     (case s of
        [] \<Rightarrow> None
      | c # r \<Rightarrow>
          if c = CHR ''('' then Some (TOpen, r)
          else if c = CHR '')'' then Some (TClose, r)
          else if c = CHR '','' then Some (TComma, r)
          else if c = CHR '':'' then Some (TColon, r)
          else
            (let t = (if startsWith s ''&&'' then Some (TAnd, drop 1 r)
                      else if startsWith s ''<='' then Some (TRel ''<='', drop 1 r)
                      else if startsWith s ''>='' then Some (TRel ''>='', drop 1 r)
                      else if c = CHR ''<'' then Some (TRel ''<'', r)
                      else if c = CHR ''>'' then Some (TRel ''>'', r)
                      else if c = CHR ''+'' then Some (TPlus, r)
                      else if c = CHR ''*'' then Some (TStar, r)
                      else if c = CHR ''?'' then Some (TQuest, r)
                      else None) in
             case t of None \<Rightarrow> None | Some (o', q) \<Rightarrow> if q \<noteq> [] \<and> op_char (hd q) then None else Some (o', q)))"

definition lex_string :: "string \<Rightarrow> (string \<times> string) option" where
  "lex_string s =
     (let t = takeWhile (\<lambda>c. c \<noteq> CHR 0x22) s; r = dropWhile (\<lambda>c. c \<noteq> CHR 0x22) s in
      if r = [] \<or> list_ex (\<lambda>c. c \<in> set [CHR 0x5C, CHR 0x0A, CHR 0x0D]) t then None else Some (t, drop 1 r))"

text \<open>The names of the environment; any other word is left to the parameter, keywords among them.\<close>

definition env_names :: "string list" where
  "env_names =
     [''p'', ''c'', ''len'', ''tier'', ''max'', ''min'', ''abs'', ''ceil'', ''floor'',
      ''cr'', ''cc'', ''cc1h'', ''img'', ''img_o'', ''ai'', ''ao'']"

definition lex_token :: "string \<Rightarrow> (tok \<times> string) option" where
  "lex_token s =
     (case s of
        [] \<Rightarrow> None
      | c # r \<Rightarrow>
          if is_digit c then map_option (\<lambda>(n, q). (TNum n, q)) (lex_number s)
          else if id_start c then
            if takeWhile id_char s \<in> set env_names then Some (TId (takeWhile id_char s), dropWhile id_char s) else None
          else if c = CHR 0x22 then map_option (\<lambda>(t, q). (TStr t, q)) (lex_string r)
          else lex_op s)"

lemma drop_shorter: "s \<noteq> [] \<Longrightarrow> P (hd s) \<Longrightarrow> length (dropWhile P s) < length s"
  using length_dropWhile_le [of P "tl s"] by (cases s) simp_all

lemma lex_number_shorter: "lex_number s = Some (n, q) \<Longrightarrow> length q < length s"
proof -
  assume a: "lex_number s = Some (n, q)"
  let ?r = "dropWhile is_digit s"
  have "takeWhile is_digit s \<noteq> []" using a by (auto simp: lex_number_def Let_def split: if_splits)
  then have "s \<noteq> [] \<and> is_digit (hd s)" by (cases s) (auto split: if_splits)
  then have r: "length ?r < length s" by (intro drop_shorter) simp_all
  have "length (dropWhile is_digit (drop 1 ?r)) \<le> length ?r"
    using length_dropWhile_le [of is_digit "drop 1 ?r"] by simp
  moreover have "q = ?r \<or> q = dropWhile is_digit (drop 1 ?r)"
    using a by (auto simp: lex_number_def Let_def split: if_splits)
  ultimately show ?thesis using r by auto
qed

lemma lex_token_shorter: "lex_token s = Some (t, q) \<Longrightarrow> length q < length s"
proof (cases s)
  case (Cons c r)
  assume a: "lex_token s = Some (t, q)"
  have st: "length q' < length s" if "lex_string r = Some (t', q')" for t' q'
    using that Cons length_dropWhile_le [of "\<lambda>c. c \<noteq> CHR 0x22" r]
    by (auto simp: lex_string_def Let_def split: if_splits)
  have op: "length q' < length s" if "lex_op s = Some (t', q')" for t' q'
    using that Cons by (auto simp: lex_op_def Let_def split: if_splits)
  have "id_start c \<Longrightarrow> id_char c" by (auto simp: id_start_def id_char_def)
  then have "id_start c \<Longrightarrow> length (dropWhile id_char s) < length s" using Cons by (intro drop_shorter) simp_all
  then show ?thesis
    using a Cons st op lex_number_shorter [of s] by (auto simp: lex_token_def split: if_splits)
qed (simp add: lex_token_def)

function lex_all :: "string \<Rightarrow> tok list option" where
  "lex_all s =
     (case dropWhile is_ws s of
        [] \<Rightarrow> Some []
      | c # r \<Rightarrow>
          (case lex_token (c # r) of
             None \<Rightarrow> None
           | Some (t, q) \<Rightarrow> map_option (\<lambda>ts. t # ts) (lex_all q)))"
  by pat_completeness auto
termination
proof (relation "measure length")
  fix s c r x t q assume "dropWhile is_ws s = c # r" "lex_token (c # r) = Some x" "(t, q) = x"
  then have "length q < length (dropWhile is_ws s)" using lex_token_shorter [of "c # r" t q] by auto
  then show "(q, s) \<in> measure length" using length_dropWhile_le [of is_ws s] by simp
qed simp

declare lex_all.simps [simp del]

section \<open>Expressions\<close>

datatype ex =
    ENum rat | EVar string | EStr string | ECall string "ex list" | EMul ex ex | EAdd ex ex | ERel string ex ex | EAnd ex ex
  | ECond ex ex ex

text \<open>The grammar by precedence, each level from the parser of the level below. The fuel bounds the nesting and the length of the
  chains; a text that exhausts it is left to the parameter.\<close>

type_synonym 'a parser = "tok list \<Rightarrow> ('a \<times> tok list) option"

primrec p_args :: "nat \<Rightarrow> ex parser \<Rightarrow> ex list parser" where
  "p_args 0 pc ts = None"
| "p_args (Suc n) pc ts =
     (case pc ts of
        Some (a, TComma # r) \<Rightarrow> (case p_args n pc r of Some (as, q) \<Rightarrow> Some (a # as, q) | None \<Rightarrow> None)
      | Some (a, TClose # r) \<Rightarrow> Some ([a], r)
      | _ \<Rightarrow> None)"

definition p_prim :: "ex parser \<Rightarrow> ex list parser \<Rightarrow> ex parser" where
  "p_prim pc pa ts =
     (case ts of
        TNum r # q \<Rightarrow> Some (ENum r, q)
      | TStr s # q \<Rightarrow> Some (EStr s, q)
      | TId f # TOpen # q \<Rightarrow> map_option (\<lambda>(as, q). (ECall f as, q)) (pa q)
      | TId x # q \<Rightarrow> Some (EVar x, q)
      | TOpen # q \<Rightarrow> (case pc q of Some (a, TClose # r) \<Rightarrow> Some (a, r) | _ \<Rightarrow> None)
      | _ \<Rightarrow> None)"

text \<open>A chain of operands with the operator \<open>sep\<close>, from the left.\<close>

primrec p_chain :: "nat \<Rightarrow> tok \<Rightarrow> (ex \<Rightarrow> ex \<Rightarrow> ex) \<Rightarrow> ex parser \<Rightarrow> ex \<Rightarrow> ex parser" where
  "p_chain 0 sep f p a ts = None"
| "p_chain (Suc n) sep f p a ts =
     (case ts of
        [] \<Rightarrow> Some (a, [])
      | t # r \<Rightarrow>
          if t = sep then (case p r of Some (b, q) \<Rightarrow> p_chain n sep f p (f a b) q | None \<Rightarrow> None) else Some (a, ts))"

definition p_level :: "nat \<Rightarrow> tok \<Rightarrow> (ex \<Rightarrow> ex \<Rightarrow> ex) \<Rightarrow> ex parser \<Rightarrow> ex parser" where
  "p_level n sep f p ts = (case p ts of Some (a, r) \<Rightarrow> p_chain n sep f p a r | None \<Rightarrow> None)"

definition p_sum :: "nat \<Rightarrow> ex parser \<Rightarrow> ex parser" where
  "p_sum n prim = p_level n TPlus EAdd (p_level n TStar EMul prim)"

definition p_rel :: "nat \<Rightarrow> ex parser \<Rightarrow> ex parser" where
  "p_rel n prim ts =
     (case p_sum n prim ts of
        Some (a, TRel o' # r) \<Rightarrow>
          (case p_sum n prim r of
             Some (b, TRel _ # _) \<Rightarrow> None
           | Some (b, q) \<Rightarrow> Some (ERel o' a b, q)
           | None \<Rightarrow> None)
      | res \<Rightarrow> res)"

primrec p_cond :: "nat \<Rightarrow> ex parser" where
  "p_cond 0 = (\<lambda>ts. None)"
| "p_cond (Suc n) = (\<lambda>ts.
     (case p_level n TAnd EAnd (p_rel n (p_prim (p_cond n) (p_args n (p_cond n)))) ts of
        Some (a, TQuest # r) \<Rightarrow>
          (case p_cond n r of
             Some (b, TColon # q) \<Rightarrow> map_option (\<lambda>(c, q). (ECond a b c, q)) (p_cond n q)
           | _ \<Rightarrow> None)
      | res \<Rightarrow> res))"

definition parse_expr :: "string \<Rightarrow> ex option" where
  "parse_expr s =
     (case lex_all s of
        None \<Rightarrow> None
      | Some ts \<Rightarrow>
          (case p_cond (10 * (length ts + 1)) ts of Some (e, []) \<Rightarrow> Some e | _ \<Rightarrow> None))"

section \<open>Evaluation\<close>

datatype jval = VNum rat | VBool bool | VStr string

text \<open>What running a function body gives: the message of an error, or a value and the name of the last tier it called.\<close>

type_synonym js_run = "string + js_number \<times> string"

definition value_truthy :: "jval \<Rightarrow> bool" where
  "value_truthy v = (case v of VNum r \<Rightarrow> r \<noteq> 0 | VBool b \<Rightarrow> b | VStr s \<Rightarrow> s \<noteq> [])"

definition compare_num :: "string \<Rightarrow> rat \<Rightarrow> rat \<Rightarrow> bool" where
  "compare_num o' a b =
     (if o' = ''<'' then a < b else if o' = ''<='' then a \<le> b else if o' = ''>'' then b < a else b \<le> a)"

definition apply_math :: "string \<Rightarrow> rat list \<Rightarrow> rat option" where
  "apply_math f as =
     (case as of
        [] \<Rightarrow> None
      | a # bs \<Rightarrow>
          if f = ''max'' then Some (foldl max a bs)
          else if f = ''min'' then Some (foldl min a bs)
          else if f = ''abs'' \<and> bs = [] then Some \<bar>a\<bar>
          else if f = ''ceil'' \<and> bs = [] then Some (of_int \<lceil>a\<rceil>)
          else if f = ''floor'' \<and> bs = [] then Some (of_int \<lfloor>a\<rfloor>)
          else None)"

text \<open>Evaluation threads the variable \<open>matchedTier\<close>; \<open>None\<close> leaves the fragment.\<close>

fun eval :: "(string \<times> rat) list \<Rightarrow> ex \<Rightarrow> string \<Rightarrow> (jval \<times> string) option"
  and eval_args :: "(string \<times> rat) list \<Rightarrow> ex list \<Rightarrow> string \<Rightarrow> (jval list \<times> string) option" where
  "eval env (ENum r) m = Some (VNum r, m)"
| "eval env (EVar x) m = map_option (\<lambda>r. (VNum r, m)) (map_of env x)"
| "eval env (EStr s) m = Some (VStr s, m)"
| "eval env (EMul a b) m = do {
     (x, m) \<leftarrow> eval env a m; (y, m) \<leftarrow> eval env b m;
     (case (x, y) of (VNum p, VNum q) \<Rightarrow> Some (VNum (p * q), m) | _ \<Rightarrow> None) }"
| "eval env (EAdd a b) m = do {
     (x, m) \<leftarrow> eval env a m; (y, m) \<leftarrow> eval env b m;
     (case (x, y) of (VNum p, VNum q) \<Rightarrow> Some (VNum (p + q), m) | _ \<Rightarrow> None) }"
| "eval env (ERel o' a b) m = do {
     (x, m) \<leftarrow> eval env a m; (y, m) \<leftarrow> eval env b m;
     (case (x, y) of (VNum p, VNum q) \<Rightarrow> Some (VBool (compare_num o' p q), m) | _ \<Rightarrow> None) }"
| "eval env (EAnd a b) m = do { (x, m) \<leftarrow> eval env a m; (if value_truthy x then eval env b m else Some (x, m)) }"
| "eval env (ECond a b c) m = do { (x, m) \<leftarrow> eval env a m; (if value_truthy x then eval env b m else eval env c m) }"
| "eval env (ECall f as) m = do {
     (vs, m) \<leftarrow> eval_args env as m;
     (if f = ''tier'' then (case vs of [VStr name, v] \<Rightarrow> Some (v, name) | _ \<Rightarrow> None)
      else do {
        ns \<leftarrow> those (map (\<lambda>v. case v of VNum r \<Rightarrow> Some r | _ \<Rightarrow> None) vs);
        r \<leftarrow> apply_math f ns;
        Some (VNum r, m) }) }"
| "eval_args env [] m = Some ([], m)"
| "eval_args env (a # as) m = do { (v, m) \<leftarrow> eval env a m; (vs, m) \<leftarrow> eval_args env as m; Some (v # vs, m) }"

record ExtraTokenValues =
  xt_cacheReadTokens :: rat
  xt_cacheCreateTokens :: rat
  xt_cacheCreate1hTokens :: rat
  xt_imageTokens :: rat
  xt_imageOutputTokens :: rat
  xt_audioInputTokens :: rat
  xt_audioOutputTokens :: rat

record EvalResult =
  er_cost :: js_number
  er_matchedTier :: string
  er_error :: "string option"

definition estimator_env :: "rat \<Rightarrow> rat \<Rightarrow> ExtraTokenValues \<Rightarrow> (string \<times> rat) list" where
  "estimator_env promptTokens completionTokens x =
     [(''p'', promptTokens), (''c'', completionTokens),
      (''len'', promptTokens + xt_cacheReadTokens x + xt_cacheCreateTokens x + xt_cacheCreate1hTokens x),
      (''cr'', xt_cacheReadTokens x), (''cc'', xt_cacheCreateTokens x), (''cc1h'', xt_cacheCreate1hTokens x),
      (''img'', xt_imageTokens x), (''img_o'', xt_imageOutputTokens x), (''ai'', xt_audioInputTokens x),
      (''ao'', xt_audioOutputTokens x)]"

text \<open>\<open>Number(value)\<close> of a value of the fragment; a text is left to the parameter.\<close>

definition run_fragment :: "(string \<times> rat) list \<Rightarrow> string \<Rightarrow> (js_number \<times> string) option" where
  "run_fragment env exprStr = do {
     e \<leftarrow> parse_expr exprStr;
     (v, m) \<leftarrow> eval env e [];
     (case v of
        VNum r \<Rightarrow> Some (Fin r, m)
      | VBool b \<Rightarrow> Some (Fin (if b then 1 else 0), m)
      | VStr s \<Rightarrow> None) }"

definition evalExprLocally ::
    "((string \<times> rat) list \<Rightarrow> string \<Rightarrow> js_run) \<Rightarrow> string \<Rightarrow> rat \<Rightarrow> rat \<Rightarrow> ExtraTokenValues \<Rightarrow> EvalResult" where
  "evalExprLocally other exprStr promptTokens completionTokens extraTokenValues =
     (if trim exprStr = [] then \<lparr>er_cost = Fin 0, er_matchedTier = [], er_error = None\<rparr>
      else
        (let env = estimator_env promptTokens completionTokens extraTokenValues in
         case (case run_fragment env exprStr of Some r \<Rightarrow> Inr r | None \<Rightarrow> other env exprStr) of
           Inl message \<Rightarrow> \<lparr>er_cost = Fin 0, er_matchedTier = [], er_error = Some message\<rparr>
         | Inr (v, matchedTier) \<Rightarrow>
             \<lparr>er_cost = (if v = NaN then Fin 0 else v), er_matchedTier = matchedTier, er_error = None\<rparr>))"

end
