(* ===== verification/EvalRoundtrip.thy ===== *)
theory EvalRoundtrip
  imports TierEval TierRoundtrip
begin

text \<open>The cost estimator on printed expressions: the text that
  \<^const>\<open>generateExprFromVisualConfig\<close> prints is read back by the tokenizer and the parser of
  \<open>TierEval\<close> with the fuel that is given to them, and its value is the cost of the first tier whose conditions hold.
  The first section gives the tokens of a text piece by piece (\<open>lexes\<close>), the next ones the tokens of a
  printed tier, their parse tree and its value.\<close>

section \<open>Lexing printed text\<close>

definition sep_start :: "string \<Rightarrow> bool" where
  "sep_start s \<longleftrightarrow> s = [] \<or> hd s \<in> set (CHR 0x22 # '' (),'')"

text \<open>A text that gives these tokens in front of any text that starts with a separator.\<close>

definition lexes :: "string \<Rightarrow> tok list \<Rightarrow> bool" where
  "lexes s ts \<longleftrightarrow> (\<forall>r. sep_start r \<longrightarrow> lex_all (s @ r) = map_option (\<lambda>us. ts @ us) (lex_all r))"

lemma lex_blank: "lex_all (CHR '' '' # s) = lex_all s"
  by (simp add: lex_all.simps [of "CHR '' '' # s"] lex_all.simps [of s] is_ws_def)

lemma lex_cons: "lex_token s = Some (t, q) \<Longrightarrow> s \<noteq> [] \<Longrightarrow> \<not> is_ws (hd s) \<Longrightarrow> lex_all s = map_option (\<lambda>us. t # us) (lex_all q)"
  by (cases s) (simp_all add: lex_all.simps [of "_ # _"])

lemma sep_cases:
  assumes "sep_start r"
  shows "r = [] \<or> (\<exists>c q. r = c # q \<and> (c = CHR '' '' \<or> c = CHR ''('' \<or> c = CHR '')'' \<or> c = CHR '','' \<or> c = CHR 0x22))"
  using assms by (cases r) (auto simp: sep_start_def)

lemma sep_not:
  assumes "sep_start (c # q)"
  shows "\<not> id_char c" "\<not> is_digit c" "\<not> op_char c" "c \<noteq> CHR ''.''" "c \<noteq> CHR ''=''" "c \<noteq> CHR ''&''"
proof -
  have c: "c = CHR '' '' \<or> c = CHR ''('' \<or> c = CHR '')'' \<or> c = CHR '','' \<or> c = CHR 0x22" using sep_cases [OF assms] by simp
  show "\<not> id_char c" "\<not> is_digit c" "\<not> op_char c" "c \<noteq> CHR ''.''" "c \<noteq> CHR ''=''" "c \<noteq> CHR ''&''"
    using c by (auto simp: id_char_def is_word_def is_digit_def op_char_def)
qed

lemma lexes_append:
  assumes "lexes a ts" "lexes b us" "b = [] \<or> sep_start b"
  shows "lexes (a @ b) (ts @ us)"
  unfolding lexes_def
proof (intro allI impI)
  fix r assume r: "sep_start r"
  then have "sep_start (b @ r)" using assms(3) by (cases b) (auto simp: sep_start_def)
  then have "lex_all (a @ b @ r) = map_option (\<lambda>us. ts @ us) (lex_all (b @ r))" using assms(1) by (simp add: lexes_def)
  also have "lex_all (b @ r) = map_option (\<lambda>vs. us @ vs) (lex_all r)" using assms(2) r by (simp add: lexes_def)
  finally show "lex_all ((a @ b) @ r) = map_option (\<lambda>vs. (ts @ us) @ vs) (lex_all r)"
    by (simp add: option.map_comp comp_def)
qed

lemma lexes_blank: "lexes s ts \<Longrightarrow> lexes (CHR '' '' # s) ts"
  by (simp add: lexes_def lex_blank)

lemma lexes_Nil: "lexes [] []"
  by (simp add: lexes_def option.map_ident)

lemma lexesI:
  assumes "\<And>r. sep_start r \<Longrightarrow> lex_token (s @ r) = Some (t, r)" "s \<noteq> []" "\<not> is_ws (hd s)"
  shows "lexes s [t]"
  using assms lex_cons [of "s @ _" t] by (simp add: lexes_def)

lemma lexes_ops:
  "lexes ''('' [TOpen]" "lexes '')'' [TClose]" "lexes '','' [TComma]" "lexes '':'' [TColon]" "lexes ''?'' [TQuest]"
  "lexes ''+'' [TPlus]" "lexes ''*'' [TStar]" "lexes ''&&'' [TAnd]" "lexes ''<'' [TRel ''<'']" "lexes ''>'' [TRel ''>'']"
  "lexes ''<='' [TRel ''<='']" "lexes ''>='' [TRel ''>='']"
proof -
  have "list_all (\<lambda>c. \<not> is_digit c \<and> \<not> id_start c \<and> c \<noteq> CHR 0x22 \<and> \<not> is_ws c) ''(),:?+*&<>''" by code_simp
  then have c: "\<not> is_digit c \<and> \<not> id_start c \<and> c \<noteq> CHR 0x22 \<and> \<not> is_ws c" if "c \<in> set ''(),:?+*&<>''" for c
    using that unfolding list_all_iff by blast
  then have t: "lex_token (c # r) = lex_op (c # r)" if "c \<in> set ''(),:?+*&<>''" for c r
    using that by (simp add: lex_token_def)
  show "lexes ''('' [TOpen]" "lexes '')'' [TClose]" "lexes '','' [TComma]" "lexes '':'' [TColon]"
    by (rule lexesI; simp add: t lex_op_def is_ws_def)+
  have op: "lexes s [o']" if "\<And>d q. \<not> op_char d \<Longrightarrow> d \<noteq> CHR ''='' \<Longrightarrow> d \<noteq> CHR ''&'' \<Longrightarrow> lex_op (s @ d # q) = Some (o', d # q)"
      "lex_op s = Some (o', [])" "s \<noteq> []" "hd s \<in> set ''(),:?+*&<>''" for s o'
  proof (rule lexesI)
    fix r assume r: "sep_start r"
    have "lex_op (s @ r) = Some (o', r)"
      using that(1,2) sep_not [of "hd r" "tl r"] r by (cases r) simp_all
    then show "lex_token (s @ r) = Some (o', r)" using t [of "hd s" "tl s @ r"] that(3,4) by (cases s) simp_all
  next
    show "s \<noteq> []" by (rule that(3))
    show "\<not> is_ws (hd s)" using c [OF that(4)] by blast
  qed
  show "lexes ''?'' [TQuest]" "lexes ''+'' [TPlus]" "lexes ''*'' [TStar]" "lexes ''&&'' [TAnd]" "lexes ''<'' [TRel ''<'']"
    "lexes ''>'' [TRel ''>'']" "lexes ''<='' [TRel ''<='']" "lexes ''>='' [TRel ''>='']"
    by (rule op; simp add: lex_op_def startsWith_def)+
qed

lemma lexes_id:
  assumes "list_all id_char n" "n \<noteq> []" "id_start (hd n)" "n \<in> set env_names"
  shows "lexes n [TId n]"
proof (rule lexesI)
  fix r assume r: "sep_start r"
  have "takeWhile id_char r = [] \<and> dropWhile id_char r = r" using sep_not(1) [of "hd r" "tl r"] r by (cases r) simp_all
  then have "takeWhile id_char (n @ r) = n" "dropWhile id_char (n @ r) = r"
    using assms(1) by (simp_all add: list_all_iff takeWhile_append2 dropWhile_append2)
  moreover have "\<not> is_digit (hd n)" using assms(3) by (auto simp: id_start_def is_digit_def)
  ultimately show "lex_token (n @ r) = Some (TId n, r)"
    using assms(2-4) by (cases n) (simp_all add: lex_token_def)
qed (use assms in \<open>auto simp: id_start_def is_word_def is_ws_def is_digit_def\<close>)

lemma lexes_string:
  assumes "list_all (\<lambda>c. c \<notin> set [CHR 0x22, CHR 0x5C, CHR 0x0A, CHR 0x0D]) l"
  shows "lexes (dq @ l @ dq) [TStr l]"
proof (rule lexesI)
  fix r assume "sep_start r"
  have "takeWhile (\<lambda>c. c \<noteq> CHR 0x22) (l @ CHR 0x22 # r) = l" "dropWhile (\<lambda>c. c \<noteq> CHR 0x22) (l @ CHR 0x22 # r) = CHR 0x22 # r"
    using assms by (simp_all add: list_all_iff takeWhile_append2 dropWhile_append2)
  moreover have "\<not> list_ex (\<lambda>c. c \<in> set [CHR 0x5C, CHR 0x0A, CHR 0x0D]) l"
    using assms by (auto simp: list_all_iff list_ex_iff)
  ultimately have "lex_string (l @ CHR 0x22 # r) = Some (l, r)" by (simp add: lex_string_def Let_def)
  then show "lex_token ((dq @ l @ dq) @ r) = Some (TStr l, r)"
    by (simp add: lex_token_def is_digit_def id_start_def is_word_def)
qed (simp_all add: is_ws_def)

text \<open>Printed decimal numbers.\<close>

lemma show_num_form:
  assumes "decimal r"
  shows "\<exists>f. show_num r = (if f = [] then show_nat (nat \<lfloor>r\<rfloor>) else show_nat (nat \<lfloor>r\<rfloor>) @ ''.'' @ f) \<and> list_all is_digit f"
proof (cases "r = of_int \<lfloor>r\<rfloor>")
  case True
  then show ?thesis using assms by (intro exI [of _ "[]"]) (simp add: show_num_def show_int_def decimal_def)
next
  case False
  let ?f = "frac_digits 17 (r - of_int \<lfloor>r\<rfloor>)"
  have r0: "0 \<le> r" using assms by (simp add: decimal_def)
  then have e: "show_num r = show_nat (nat \<lfloor>r\<rfloor>) @ ''.'' @ ?f" using False by (simp add: show_num_def Let_def)
  have d: "r * 10 ^ 6 = of_int \<lfloor>r * 10 ^ 6\<rfloor>" using assms by (simp add: decimal_def)
  then have "(r - of_int \<lfloor>r\<rfloor>) * 10 ^ 17 = of_int ((\<lfloor>r * 10 ^ 6\<rfloor> - \<lfloor>r\<rfloor> * 10 ^ 6) * 10 ^ 11)"
    by (simp add: algebra_simps)
  moreover have "0 \<le> r - of_int \<lfloor>r\<rfloor>" "r - of_int \<lfloor>r\<rfloor> < 1" by linarith+
  ultimately have "list_all is_digit ?f" using frac_digits_read by blast
  moreover have "?f \<noteq> []" using False by (simp add: numeral_eq_Suc)
  ultimately show ?thesis using e by (intro exI [of _ ?f]) simp
qed

lemma lexes_number:
  assumes "decimal r"
  shows "lexes (show_num r) [TNum r]"
proof -
  let ?w = "show_nat (nat \<lfloor>r\<rfloor>)"
  obtain f where f: "show_num r = (if f = [] then ?w else ?w @ ''.'' @ f)" "list_all is_digit f"
    using show_num_form [OF assms] by blast
  have w: "list_all is_digit ?w" "?w \<noteq> []" by (simp_all add: show_nat_digits)
  have z: "\<not> (1 < length ?w \<and> hd ?w = CHR ''0'')"
    using show_nat_leading_zero [of "nat \<lfloor>r\<rfloor>"] w(2) by (cases ?w) (auto simp: startsWith_def)
  have v: "of_nat (read_nat (?w @ f)) / 10 ^ length f = r"
    using read_plain [OF w] f show_decimal(1) [OF assms] by (simp split: if_splits)
  show ?thesis
  proof (rule lexesI)
    fix q assume q: "sep_start q"
    have s: "ends is_digit q" "\<not> startsWith q ''.''" "q = [] \<or> \<not> id_char (hd q) \<and> hd q \<noteq> CHR ''.''"
      using sep_not [of "hd q" "tl q"] q by (cases q; simp add: startsWith_def)+
    have "lex_number (show_num r @ q) = Some (r, q)"
    proof (cases "f = []")
      case True
      then show ?thesis
        using digits_stop [OF w(1) s(1)] s(2,3) z v w(2) f(1) by (auto simp: lex_number_def Let_def)
    next
      case False
      have e: "show_num r @ q = ?w @ CHR ''.'' # f @ q" using False f(1) by simp
      have "ends is_digit (CHR ''.'' # f @ q)" by simp
      then show ?thesis
        unfolding e using digits_stop [OF w(1), of "CHR ''.'' # f @ q"] digits_stop [OF f(2) s(1)] s(3) z v w(2)
        by (auto simp: lex_number_def Let_def startsWith_def)
    qed
    moreover obtain c t where "show_num r = c # t" "is_digit c"
      using w f(1) by (cases ?w) (auto split: if_splits)
    ultimately show "lex_token (show_num r @ q) = Some (TNum r, q)" by (simp add: lex_token_def)
  next
    show "show_num r \<noteq> []" using w(2) f(1) by (simp split: if_splits)
    show "\<not> is_ws (hd (show_num r))" using w f(1) digit_not_ws by (cases ?w) (auto split: if_splits)
  qed
qed

text \<open>Operands joined by an operator between blanks.\<close>

definition tok_join :: "tok \<Rightarrow> tok list list \<Rightarrow> tok list" where
  "tok_join t tss = (case tss of [] \<Rightarrow> [] | us # uss \<Rightarrow> us @ concat (map (\<lambda>us. t # us) uss))"

lemma sep_blank: "sep_start (CHR '' '' # s)"
  by (simp add: sep_start_def)

lemma lexes_spaced:
  assumes "lexes o' [t]" "lexes x us"
  shows "lexes (CHR '' '' # o' @ CHR '' '' # x) (t # us)"
  using lexes_blank [OF lexes_append [OF assms(1) lexes_blank [OF assms(2)]]] sep_blank by simp

lemma lexes_join:
  assumes "lexes o' [t]" "\<And>x. x \<in> set xs \<Longrightarrow> lexes (f x) (g x)"
  shows "lexes (join (CHR '' '' # o' @ '' '') (map f xs)) (tok_join t (map g xs))"
proof (cases xs)
  case (Cons x ys)
  have "lexes (concat (map (\<lambda>y. CHR '' '' # o' @ '' '' @ f y) ys)) (concat (map (\<lambda>us. t # us) (map g ys)))"
    if "\<And>y. y \<in> set ys \<Longrightarrow> lexes (f y) (g y)"
    using that
  proof (induction ys)
    case (Cons y ys)
    have y: "lexes (CHR '' '' # o' @ '' '' @ f y) (t # g y)" using lexes_spaced [OF assms(1) Cons.prems [of y]] by simp
    have "lexes (concat (map (\<lambda>y. CHR '' '' # o' @ '' '' @ f y) ys)) (concat (map (\<lambda>us. t # us) (map g ys)))"
      using Cons by simp
    moreover have "concat (map (\<lambda>y. CHR '' '' # o' @ '' '' @ f y) ys) = [] \<or>
        sep_start (concat (map (\<lambda>y. CHR '' '' # o' @ '' '' @ f y) ys))"
      by (cases ys) (simp_all add: sep_start_def)
    ultimately show ?case using lexes_append [OF y] by simp
  qed (simp add: lexes_Nil)
  then have c: "lexes (concat (map (\<lambda>y. CHR '' '' # o' @ '' '' @ f y) ys)) (concat (map (\<lambda>us. t # us) (map g ys)))"
    using assms(2) Cons by simp
  have "concat (map (\<lambda>y. CHR '' '' # o' @ '' '' @ f y) ys) = [] \<or> sep_start (concat (map (\<lambda>y. CHR '' '' # o' @ '' '' @ f y) ys))"
    by (cases ys) (simp_all add: sep_start_def)
  then have "lexes (f x @ concat (map (\<lambda>y. CHR '' '' # o' @ '' '' @ f y) ys)) (g x @ concat (map (\<lambda>us. t # us) (map g ys)))"
    using lexes_append [OF _ c] assms(2) Cons by simp
  then show ?thesis unfolding Cons join_head by (simp add: tok_join_def)
qed (simp add: lexes_Nil tok_join_def)

section \<open>Tokens of a printed tier\<close>

definition price_toks :: "string \<times> rat \<Rightarrow> tok list" where
  "price_toks kv = [TId (fst kv), TStar, TNum (snd kv)]"

definition cond_number :: "TierCondition \<Rightarrow> rat" where
  "cond_number c = (case tn_value c of NumValue (Some r) \<Rightarrow> r | _ \<Rightarrow> 0)"

definition cond_toks :: "TierCondition \<Rightarrow> tok list" where
  "cond_toks c = [TId (tn_var c), TRel (tn_op c), TNum (cond_number c)]"

definition body_toks :: "(string \<times> rat) list \<Rightarrow> tok list" where
  "body_toks kvs = tok_join TPlus (map price_toks kvs)"

definition call_toks :: "string \<Rightarrow> VisualTier \<Rightarrow> tok list" where
  "call_toks l tier = [TId ''tier'', TOpen, TStr l, TComma] @ body_toks (tier_prices tier) @ [TClose]"

definition plain_label :: "string \<Rightarrow> bool" where
  "plain_label l \<longleftrightarrow> list_all (\<lambda>c. c \<notin> set [CHR 0x22, CHR 0x5C, CHR 0x0A, CHR 0x0D]) l"

lemma lexes_names: "x \<in> set ([''len'', ''tier''] @ price_keys) \<Longrightarrow> lexes x [TId x]"
proof -
  have "list_all (\<lambda>x. list_all id_char x \<and> x \<noteq> [] \<and> id_start (hd x) \<and> x \<in> set env_names) ([''len'', ''tier''] @ price_keys)" by code_simp
  then show "x \<in> set ([''len'', ''tier''] @ price_keys) \<Longrightarrow> lexes x [TId x]"
    unfolding list_all_iff [of "\<lambda>x. list_all id_char x \<and> x \<noteq> [] \<and> id_start (hd x) \<and> x \<in> set env_names"] using lexes_id by blast
qed

lemma lexes_price: "priced kv \<Longrightarrow> lexes (price_text kv) (price_toks kv)"
proof -
  assume p: "priced kv"
  then have "lexes (fst kv) [TId (fst kv)]" "lexes (show_num (snd kv)) [TNum (snd kv)]"
    using lexes_names [of "fst kv"] lexes_number by (simp_all add: priced_def)
  from lexes_append [OF this(1) lexes_spaced [OF lexes_ops(7) this(2)]]
  show ?thesis by (simp add: price_toks_def sep_start_def)
qed

lemma lexes_prices: "list_all priced kvs \<Longrightarrow> lexes (join '' + '' (map price_text kvs)) (body_toks kvs)"
  using lexes_join [OF lexes_ops(6), of kvs price_text price_toks] lexes_price
  by (simp add: body_toks_def list_all_iff)

lemma lexes_condition: "numeric_condition c \<Longrightarrow> lexes (condition_text c) (cond_toks c)"
proof -
  assume c: "numeric_condition c"
  note f = condition_facts [OF c]
  have "tn_value c = NumValue (Some (cond_number c))" "decimal (cond_number c)"
    using c by (auto simp: numeric_condition_def cond_number_def split: tier_value.splits option.splits)
  then have n: "lexes (show_value (tn_value c)) [TNum (cond_number c)]" using lexes_number by (simp add: show_value_def)
  have "tn_op c = ''<'' \<or> tn_op c = ''<='' \<or> tn_op c = ''>'' \<or> tn_op c = ''>=''" using f(2) by simp
  then have o: "lexes (tn_op c) [TRel (tn_op c)]" using lexes_ops(9-12) by auto
  have "lexes (tn_var c) [TId (tn_var c)]" using f(1) by (intro lexes_names) auto
  from lexes_append [OF this lexes_spaced [OF o n]] show ?thesis by (simp add: cond_toks_def sep_start_def)
qed

lemma lexes_conditions: "list_all numeric_condition cs \<Longrightarrow> lexes (conditions_str cs) (tok_join TAnd (map cond_toks cs))"
  using lexes_join [OF lexes_ops(8), of cs condition_text cond_toks] lexes_condition by (simp add: list_all_iff)

lemma lexes_call:
  assumes "printable_tier tier" "plain_label l"
  shows "lexes (tier_call l tier) (call_toks l tier)"
proof -
  have b: "lexes (buildTierBodyExpr tier) (body_toks (tier_prices tier))"
    unfolding body_text by (rule lexes_prices [OF prices_priced [OF assms(1)]])
  have "lexes ('','' @ CHR '' '' # buildTierBodyExpr tier @ '')'') ([TComma] @ body_toks (tier_prices tier) @ [TClose])"
    by (rule lexes_append [OF lexes_ops(3) lexes_blank [OF lexes_append [OF b lexes_ops(2)]]]) (simp_all add: sep_start_def)
  from lexes_append [OF lexes_string this] assms(2)
  have "lexes ((dq @ l @ dq) @ '','' @ CHR '' '' # buildTierBodyExpr tier @ '')'')
      ([TStr l] @ [TComma] @ body_toks (tier_prices tier) @ [TClose])" by (simp add: plain_label_def sep_start_def)
  from lexes_append [OF lexes_ops(1) this]
  have "lexes (''('' @ (dq @ l @ dq) @ '','' @ CHR '' '' # buildTierBodyExpr tier @ '')'')
      ([TOpen] @ [TStr l] @ [TComma] @ body_toks (tier_prices tier) @ [TClose])" by (simp add: sep_start_def)
  from lexes_append [OF lexes_names [of "''tier''"] this]
  show ?thesis by (simp add: tier_call_def call_toks_def sep_start_def)
qed

section \<open>Parsing the tokens\<close>

definition ex_price :: "string \<times> rat \<Rightarrow> ex" where
  "ex_price kv = EMul (EVar (fst kv)) (ENum (snd kv))"

definition ex_condition :: "TierCondition \<Rightarrow> ex" where
  "ex_condition c = ERel (tn_op c) (EVar (tn_var c)) (ENum (cond_number c))"

definition ex_chain :: "(ex \<Rightarrow> ex \<Rightarrow> ex) \<Rightarrow> ex list \<Rightarrow> ex" where
  "ex_chain f es = foldl f (hd es) (tl es)"

text \<open>Tokens that end an operand.\<close>

definition quiet :: "tok list \<Rightarrow> bool" where
  "quiet r \<longleftrightarrow> r = [] \<or> hd r \<in> {TClose, TQuest, TColon, TComma}"

lemma chain_stop: "0 < n \<Longrightarrow> r = [] \<or> hd r \<noteq> sep \<Longrightarrow> p_chain n sep f p a r = Some (a, r)"
  by (cases n; cases r) auto

lemma chain_parses:
  assumes "\<And>x r. x \<in> set xs \<Longrightarrow> ok r \<Longrightarrow> p (g x @ r) = Some (e x, r)" "\<And>r. ok (sep # r)"
    and "ok r" "r = [] \<or> hd r \<noteq> sep" "length xs < n"
  shows "p_chain n sep f p a (concat (map (\<lambda>us. sep # us) (map g xs)) @ r) = Some (foldl f a (map e xs), r)"
  using assms(1,5)
proof (induction xs arbitrary: n a)
  case Nil
  then show ?case using chain_stop [OF _ assms(4)] by simp
next
  case (Cons x xs)
  let ?t = "concat (map (\<lambda>us. sep # us) (map g xs)) @ r"
  obtain m where n: "n = Suc m" "length xs < m" using Cons.prems(2) by (cases n) auto
  have "ok ?t" using assms(2,3) by (cases xs) simp_all
  then have "p (g x @ ?t) = Some (e x, ?t)" using Cons.prems(1) by simp
  then show ?case using Cons.IH [of m "f a (e x)"] Cons.prems(1) n by simp
qed

lemma level_parses:
  assumes "\<And>x r. x \<in> set xs \<Longrightarrow> ok r \<Longrightarrow> p (g x @ r) = Some (e x, r)" "\<And>r. ok (sep # r)"
    and "ok r" "r = [] \<or> hd r \<noteq> sep" "length xs \<le> n" "xs \<noteq> []"
  shows "p_level n sep f p (tok_join sep (map g xs) @ r) = Some (ex_chain f (map e xs), r)"
proof -
  obtain x ys where xs: "xs = x # ys" using assms(6) by (cases xs) auto
  let ?t = "concat (map (\<lambda>us. sep # us) (map g ys)) @ r"
  have "ok ?t" using assms(2,3) by (cases ys) simp_all
  then have x: "p (g x @ ?t) = Some (e x, ?t)" using assms(1) xs by simp
  have "p_chain n sep f p (e x) ?t = Some (foldl f (e x) (map e ys), r)"
    using xs assms(1,5) by (intro chain_parses [OF _ assms(2-4)]) simp_all
  then show ?thesis using x xs by (simp add: p_level_def tok_join_def ex_chain_def)
qed

lemma chain_more: "p r = Some (b, q) \<Longrightarrow> p_chain (Suc n) sep f p a (sep # r) = p_chain n sep f p (f a b) q"
  by simp

lemma prim_num: "p_prim pc pa (TNum x # q) = Some (ENum x, q)"
  by (simp add: p_prim_def)

lemma prim_str: "p_prim pc pa (TStr x # q) = Some (EStr x, q)"
  by (simp add: p_prim_def)

lemma prim_call: "p_prim pc pa (TId f # TOpen # q) = map_option (\<lambda>(as, q). (ECall f as, q)) (pa q)"
  by (simp add: p_prim_def)

lemma prim_var: "q = [] \<or> hd q \<noteq> TOpen \<Longrightarrow> p_prim pc pa (TId x # q) = Some (EVar x, q)"
  by (auto simp: p_prim_def split: list.splits tok.splits)

lemma price_parses:
  assumes "2 \<le> n" "r = [] \<or> hd r \<noteq> TStar"
  shows "p_level n TStar EMul (p_prim pc pa) (price_toks kv @ r) = Some (ex_price kv, r)"
proof -
  obtain m where n: "n = Suc m" "0 < m" using assms(1) by (cases n) auto
  let ?p = "p_prim pc pa"
  have "?p (price_toks kv @ r) = Some (EVar (fst kv), TStar # TNum (snd kv) # r)"
    unfolding price_toks_def by (simp add: prim_var)
  then have "p_level n TStar EMul ?p (price_toks kv @ r) = p_chain n TStar EMul ?p (EVar (fst kv)) (TStar # TNum (snd kv) # r)"
    by (simp only: p_level_def option.case prod.case)
  also have "\<dots> = p_chain m TStar EMul ?p (ex_price kv) r"
    unfolding n(1) ex_price_def by (rule chain_more, rule prim_num)
  also have "\<dots> = Some (ex_price kv, r)" by (rule chain_stop [OF n(2) assms(2)])
  finally show ?thesis .
qed

lemma sum_parses:
  assumes "kvs \<noteq> []" "length kvs \<le> n" "2 \<le> n" "r = [] \<or> hd r \<noteq> TStar \<and> hd r \<noteq> TPlus"
  shows "p_sum n (p_prim pc pa) (body_toks kvs @ r) = Some (ex_chain EAdd (map ex_price kvs), r)"
  unfolding p_sum_def body_toks_def
  using assms by (intro level_parses [where ok = "\<lambda>r. r = [] \<or> hd r \<noteq> TStar"] price_parses) auto

lemma operand_parses:
  assumes "0 < n" "r = [] \<or> hd r \<noteq> TStar \<and> hd r \<noteq> TPlus" "p_prim pc pa ts = Some (a, r)"
  shows "p_sum n (p_prim pc pa) ts = Some (a, r)"
proof -
  have "p_level n TStar EMul (p_prim pc pa) ts = Some (a, r)"
    using chain_stop [of n r TStar] assms by (auto simp: p_level_def)
  then show ?thesis using chain_stop [of n r TPlus] assms(1,2) by (auto simp: p_sum_def p_level_def [of n TPlus])
qed

lemma rel_parses:
  assumes "p_sum n prim ts = Some (a, r)" "quiet r \<or> hd r = TAnd"
  shows "p_rel n prim ts = Some (a, r)"
  using assms by (cases r) (auto simp: p_rel_def quiet_def)

lemma condition_parses:
  assumes "0 < n" "quiet r \<or> r \<noteq> [] \<and> hd r = TAnd"
  shows "p_rel n (p_prim pc pa) (cond_toks c @ r) = Some (ex_condition c, r)"
proof -
  have r: "r = [] \<or> hd r \<noteq> TStar \<and> hd r \<noteq> TPlus" using assms(2) by (auto simp: quiet_def)
  have "p_sum n (p_prim pc pa) (cond_toks c @ r) = Some (EVar (tn_var c), TRel (tn_op c) # TNum (cond_number c) # r)"
    by (rule operand_parses [OF assms(1)]) (simp_all add: prim_var cond_toks_def)
  moreover have "p_sum n (p_prim pc pa) (TNum (cond_number c) # r) = Some (ENum (cond_number c), r)"
    by (rule operand_parses [OF assms(1) r prim_num])
  ultimately show ?thesis
    using assms(2) by (cases r) (auto simp: p_rel_def ex_condition_def quiet_def)
qed

lemma cond_single:
  assumes "p_sum n (p_prim (p_cond n) (p_args n (p_cond n))) ts = Some (a, r)" "0 < n" "quiet r" "r = [] \<or> hd r \<noteq> TQuest"
  shows "p_cond (Suc n) ts = Some (a, r)"
proof -
  let ?p = "p_rel n (p_prim (p_cond n) (p_args n (p_cond n)))"
  have "?p ts = Some (a, r)" using assms(3) by (intro rel_parses [OF assms(1)]) simp
  moreover have "p_chain n TAnd EAnd ?p a r = Some (a, r)"
    using assms(3) by (intro chain_stop [OF assms(2)]) (auto simp: quiet_def)
  ultimately have "p_level n TAnd EAnd ?p ts = Some (a, r)" by (simp only: p_level_def option.case prod.case)
  then show ?thesis using assms(3,4) by (cases r) (auto simp: quiet_def)
qed

lemma cond_body:
  assumes "kvs \<noteq> []" "length kvs < n" "2 < n" "r = [] \<or> hd r = TClose"
  shows "p_cond n (body_toks kvs @ r) = Some (ex_chain EAdd (map ex_price kvs), r)"
proof -
  obtain m where m: "n = Suc m" using assms(3) by (cases n) auto
  show ?thesis
    unfolding m using assms m by (intro cond_single sum_parses) (auto simp: quiet_def)
qed

definition ex_call :: "string \<Rightarrow> VisualTier \<Rightarrow> ex" where
  "ex_call l tier = ECall ''tier'' [EStr l, ex_chain EAdd (map ex_price (tier_prices tier))]"

lemma tier_prices_nonempty [simp]: "tier_prices tier \<noteq> []"
  by (simp add: tier_prices_def)

lemma args_step:
  assumes "pc ts = Some (a, TComma # r)" "p_args n pc r = Some (as, q)"
  shows "p_args (Suc n) pc ts = Some (a # as, q)"
  using assms by simp

lemma args_last: "pc ts = Some (a, TClose # r) \<Longrightarrow> p_args (Suc n) pc ts = Some ([a], r)"
  by simp

lemma call_parses:
  assumes "length (tier_prices tier) + 4 \<le> n" "r = [] \<or> hd r = TColon"
  shows "p_cond n (call_toks l tier @ r) = Some (ex_call l tier, r)"
proof -
  define m where "m = n - 3"
  have m: "n = Suc (Suc (Suc m))" using assms(1) by (simp add: m_def)
  let ?pc = "p_cond (Suc (Suc m))" and ?b = "body_toks (tier_prices tier) @ TClose # r"
  have "0 < length (tier_prices tier)" by simp
  then have m1: "0 < m" "length (tier_prices tier) < Suc (Suc m)" "2 < Suc (Suc m)" using assms(1) m by linarith+
  have "?pc (TStr l # TComma # ?b) = Some (EStr l, TComma # ?b)"
    by (intro cond_single operand_parses) (simp_all add: prim_str quiet_def)
  moreover have "?pc ?b = Some (ex_chain EAdd (map ex_price (tier_prices tier)), TClose # r)"
    using m1 by (intro cond_body) simp_all
  ultimately have "p_args (Suc (Suc m)) ?pc (TStr l # TComma # ?b) =
      Some ([EStr l, ex_chain EAdd (map ex_price (tier_prices tier))], r)"
    by (intro args_step args_last)
  then have "p_prim ?pc (p_args (Suc (Suc m)) ?pc) (TId ''tier'' # TOpen # TStr l # TComma # ?b) = Some (ex_call l tier, r)"
    by (simp only: prim_call option.map prod.case ex_call_def)
  then have "p_prim ?pc (p_args (Suc (Suc m)) ?pc) (call_toks l tier @ r) = Some (ex_call l tier, r)"
    by (simp only: call_toks_def append_Cons append_Nil append_assoc)
  then show ?thesis
    unfolding m using assms(2) by (intro cond_single operand_parses) (auto simp: quiet_def)
qed

lemma conditions_parse:
  assumes "cs \<noteq> []" "length cs \<le> n"
  shows "p_level n TAnd EAnd (p_rel n (p_prim pc pa)) (tok_join TAnd (map cond_toks cs) @ TQuest # r) =
    Some (ex_chain EAnd (map ex_condition cs), TQuest # r)"
proof -
  have "0 < length cs" using assms(1) by simp
  then have "0 < n" using assms(2) by linarith
  then show ?thesis
    using assms by (intro level_parses [where ok = "\<lambda>r. quiet r \<or> r \<noteq> [] \<and> hd r = TAnd"] condition_parses) (auto simp: quiet_def)
qed

text \<open>The tiers that are tried in order, each with its label and its conditions, and what is left at the end.\<close>

type_synonym tier_item = "string \<times> TierCondition list \<times> VisualTier"

abbreviation item_toks :: "tier_item \<Rightarrow> tok list" where
  "item_toks it \<equiv>
     tok_join TAnd (map cond_toks (fst (snd it))) @ TQuest # call_toks (fst it) (snd (snd it)) @ [TColon]"

primrec ex_items :: "tier_item list \<Rightarrow> ex \<Rightarrow> ex" where
  "ex_items [] e = e"
| "ex_items (it # its) e =
     ECond (ex_chain EAnd (map ex_condition (fst (snd it)))) (ex_call (fst it) (snd (snd it))) (ex_items its e)"

lemma tok_join_length: "(\<And>x. x \<in> set xs \<Longrightarrow> g x \<noteq> []) \<Longrightarrow> length xs \<le> length (tok_join t (map g xs))"
proof (cases xs)
  case (Cons x ys)
  assume "\<And>x. x \<in> set xs \<Longrightarrow> g x \<noteq> []"
  then have "Suc 0 \<le> length (g x)" using Cons by (simp add: Suc_le_eq)
  moreover have "length ys \<le> length (concat (map (\<lambda>us. t # us) (map g ys)))" by (induction ys) simp_all
  ultimately have "Suc 0 + length ys \<le> length (g x) + length (concat (map (\<lambda>us. t # us) (map g ys)))" by (rule add_mono)
  then show ?thesis using Cons by (simp add: tok_join_def)
qed simp

lemma items_parse:
  assumes "list_all (\<lambda>it. fst (snd it) \<noteq> []) its" "\<And>n. length r \<le> n \<Longrightarrow> p_cond n r = Some (e, [])"
    and "length (concat (map item_toks its) @ r) \<le> n"
  shows "p_cond n (concat (map item_toks its) @ r) = Some (ex_items its e, [])"
  using assms(1,3)
proof (induction its arbitrary: n)
  case Nil
  then show ?case using assms(2) by simp
next
  case (Cons it its)
  obtain l cs tier where it: "it = (l, cs, tier)" by (cases it)
  let ?rest = "concat (map item_toks its) @ r"
  have cs: "length cs \<le> length (tok_join TAnd (map cond_toks cs))"
    by (rule tok_join_length) (simp add: cond_toks_def)
  have kv: "length (tier_prices tier) \<le> length (body_toks (tier_prices tier))"
    unfolding body_toks_def by (rule tok_join_length) (simp add: price_toks_def)
  have len: "length cs + length (tier_prices tier) + 6 + length ?rest \<le> n"
    using Cons.prems(2) cs kv by (simp add: it call_toks_def)
  then obtain m where m: "n = Suc m" by (cases n) auto
  have "p_level m TAnd EAnd (p_rel m (p_prim (p_cond m) (p_args m (p_cond m))))
      (tok_join TAnd (map cond_toks cs) @ TQuest # call_toks l tier @ TColon # ?rest) =
    Some (ex_chain EAnd (map ex_condition cs), TQuest # call_toks l tier @ TColon # ?rest)"
    using Cons.prems(1) len m by (intro conditions_parse) (simp_all add: it)
  moreover have "p_cond m (call_toks l tier @ TColon # ?rest) = Some (ex_call l tier, TColon # ?rest)"
    using len m by (intro call_parses) simp_all
  moreover have "p_cond m ?rest = Some (ex_items its e, [])"
    using Cons.prems(1) len m by (intro Cons.IH) simp_all
  moreover have "concat (map item_toks (it # its)) @ r =
      tok_join TAnd (map cond_toks cs) @ TQuest # call_toks l tier @ TColon # ?rest" by (simp add: it)
  ultimately show ?case
    unfolding m by (simp only: p_cond.simps option.case prod.case list.case tok.case option.map ex_items.simps it fst_conv snd_conv)
qed

section \<open>Evaluating the expression\<close>

definition usage :: "(string \<times> rat) list \<Rightarrow> string \<Rightarrow> rat" where
  "usage env k = (case map_of env k of Some n \<Rightarrow> n | None \<Rightarrow> 0)"

text \<open>The cost of a tier and the meaning of a condition, from the number of tokens of every kind.\<close>

definition tier_cost :: "(string \<Rightarrow> rat) \<Rightarrow> VisualTier \<Rightarrow> rat" where
  "tier_cost u tier =
     u ''p'' * or_zero (vt_input_unit_cost tier) + u ''c'' * or_zero (vt_output_unit_cost tier) +
     sum_list (map (\<lambda>(k, price). u k * price) (extra_prices tier))"

definition holds :: "(string \<Rightarrow> rat) \<Rightarrow> TierCondition \<Rightarrow> bool" where
  "holds u c = compare_num (tn_op c) (u (tn_var c)) (cond_number c)"

abbreviation knows :: "(string \<times> rat) list \<Rightarrow> bool" where
  "knows env \<equiv> list_all (\<lambda>k. map_of env k \<noteq> None) (''len'' # price_keys)"

lemma env_knows: "knows (estimator_env p c x)"
  by (simp add: estimator_env_def)

lemma usage_known: "knows env \<Longrightarrow> k \<in> set (''len'' # price_keys) \<Longrightarrow> map_of env k = Some (usage env k)"
  unfolding list_all_iff [of "\<lambda>k. map_of env k \<noteq> None"] usage_def by (cases "map_of env k") auto

lemma eval_price:
  "knows env \<Longrightarrow> fst kv \<in> set price_keys \<Longrightarrow> eval env (ex_price kv) m = Some (VNum (usage env (fst kv) * snd kv), m)"
  using usage_known [of env "fst kv"] by (simp add: ex_price_def)

lemma eval_sum:
  assumes "eval env a m = Some (VNum s, m)" "\<And>x. x \<in> set xs \<Longrightarrow> eval env (e x) m = Some (VNum (v x), m)"
  shows "eval env (foldl EAdd a (map e xs)) m = Some (VNum (s + sum_list (map v xs)), m)"
  using assms
proof (induction xs arbitrary: a s)
  case (Cons x xs)
  have "eval env (EAdd a (e x)) m = Some (VNum (s + v x), m)" using Cons.prems by simp
  then show ?case using Cons.IH [of "EAdd a (e x)" "s + v x"] Cons.prems(2) by (simp add: add.assoc)
qed simp

lemma eval_all:
  assumes "eval env a m = Some (VBool b, m)" "\<And>x. x \<in> set xs \<Longrightarrow> eval env (e x) m = Some (VBool (v x), m)"
  shows "eval env (foldl EAnd a (map e xs)) m = Some (VBool (b \<and> list_all v xs), m)"
  using assms
proof (induction xs arbitrary: a b)
  case (Cons x xs)
  have "eval env (EAnd a (e x)) m = Some (VBool (b \<and> v x), m)" using Cons.prems by (auto simp: value_truthy_def)
  then show ?case using Cons.IH [of "EAnd a (e x)" "b \<and> v x"] Cons.prems(2) by simp
qed simp

lemma sum_nonzero: "sum_list (map (\<lambda>kv. f (fst kv) * snd kv) (filter (\<lambda>kv. snd kv \<noteq> 0) kvs)) = sum_list (map (\<lambda>(k, v). f k * v) kvs)"
  for f :: "string \<Rightarrow> rat"
  by (induction kvs) auto

lemma eval_body:
  assumes "knows env"
  shows "eval env (ex_chain EAdd (map ex_price (tier_prices tier))) m = Some (VNum (tier_cost (usage env) tier), m)"
proof -
  let ?kvs = "tier_prices tier" and ?v = "\<lambda>kv. usage env (fst kv) * snd kv"
  have e: "eval env (ex_price kv) m = Some (VNum (?v kv), m)" if "kv \<in> set ?kvs" for kv
    by (rule eval_price [OF assms price_key [OF that]])
  have "eval env (foldl EAdd (ex_price (hd ?kvs)) (map ex_price (tl ?kvs))) m =
      Some (VNum (?v (hd ?kvs) + sum_list (map ?v (tl ?kvs))), m)"
    using e list.set_sel [of ?kvs] by (intro eval_sum) simp_all
  moreover have "?v (hd ?kvs) + sum_list (map ?v (tl ?kvs)) = tier_cost (usage env) tier"
    by (simp add: tier_prices_def tier_cost_def sum_nonzero)
  ultimately show ?thesis by (simp add: ex_chain_def hd_map map_tl)
qed

lemma eval_conditions:
  assumes "knows env" "list_all numeric_condition cs" "cs \<noteq> []"
  shows "eval env (ex_chain EAnd (map ex_condition cs)) m = Some (VBool (list_all (holds (usage env)) cs), m)"
proof -
  obtain c ds where cs: "cs = c # ds" using assms(3) by (cases cs) auto
  have e: "eval env (ex_condition d) m = Some (VBool (holds (usage env) d), m)" if "d \<in> set cs" for d
  proof -
    have "tn_var d \<in> set (''len'' # price_keys)"
      using assms(2) that condition_facts(1) [of d] by (auto simp: list_all_iff)
    then show ?thesis using usage_known [OF assms(1), of "tn_var d"] by (simp add: ex_condition_def holds_def)
  qed
  show ?thesis
    using eval_all [of env "ex_condition c" m "holds (usage env) c" ds ex_condition "holds (usage env)"] e by (simp add: cs ex_chain_def)
qed

definition charge :: "(string \<times> rat) list \<Rightarrow> tier_item list \<Rightarrow> jval \<times> string \<Rightarrow> jval \<times> string" where
  "charge env its d =
     (case find (\<lambda>it. list_all (holds (usage env)) (fst (snd it))) its of
        Some it \<Rightarrow> (VNum (tier_cost (usage env) (snd (snd it))), fst it)
      | None \<Rightarrow> d)"

lemma eval_call: "knows env \<Longrightarrow> eval env (ex_call l tier) m = Some (VNum (tier_cost (usage env) tier), l)"
  using eval_body [of env tier m] by (simp add: ex_call_def)

lemma eval_items:
  assumes "knows env" "eval env e m = Some d" "list_all (\<lambda>it. list_all numeric_condition (fst (snd it)) \<and> fst (snd it) \<noteq> []) its"
  shows "eval env (ex_items its e) m = Some (charge env its d)"
  using assms(3)
proof (induction its)
  case Nil
  then show ?case using assms(2) by (simp add: charge_def)
next
  case (Cons it its)
  then show ?case
    using eval_conditions [OF assms(1), of "fst (snd it)" m] eval_call [OF assms(1), of "fst it" "snd (snd it)" m]
    by (simp add: charge_def value_truthy_def)
qed

section \<open>The whole expression\<close>

abbreviation item_text :: "tier_item \<Rightarrow> string" where
  "item_text it \<equiv> tier_text (fst it) (fst (snd it)) (snd (snd it))"

definition good_item :: "tier_item \<Rightarrow> bool" where
  "good_item it \<longleftrightarrow>
     plain_label (fst it) \<and> list_all numeric_condition (fst (snd it)) \<and> printable_tier (snd (snd it))"

lemma lexes_items:
  assumes "list_all (\<lambda>it. good_item it \<and> fst (snd it) \<noteq> []) its" "lexes s us"
  shows "lexes (concat (map (\<lambda>it. item_text it @ '' : '') its) @ s) (concat (map item_toks its) @ us)"
  using assms(1)
proof (induction its)
  case Nil
  then show ?case using assms(2) by simp
next
  case (Cons it its)
  obtain l cs tier where it: "it = (l, cs, tier)" by (cases it)
  let ?s = "concat (map (\<lambda>it. item_text it @ '' : '') its) @ s" and ?us = "concat (map item_toks its) @ us"
  have g: "plain_label l" "list_all numeric_condition cs" "printable_tier tier" "cs \<noteq> []"
    using Cons.prems by (simp_all add: it good_item_def)
  have "lexes (CHR '' '' # '':'' @ CHR '' '' # ?s) (TColon # ?us)"
    using Cons by (intro lexes_spaced lexes_ops(4)) simp
  from lexes_append [OF lexes_call [OF g(3,1)] this]
  have "lexes (tier_call l tier @ CHR '' '' # '':'' @ CHR '' '' # ?s) (call_toks l tier @ TColon # ?us)"
    by (simp add: sep_start_def)
  from lexes_append [OF lexes_conditions [OF g(2)] lexes_spaced [OF lexes_ops(5) this]]
  show ?case using g(4) by (simp add: it tier_text_def sep_start_def)
qed

lemma lexes_whole: "lexes s ts \<Longrightarrow> lex_all s = Some ts"
proof -
  assume "lexes s ts"
  moreover have "sep_start []" by (simp add: sep_start_def)
  ultimately have "lex_all (s @ []) = map_option (\<lambda>us. ts @ us) (lex_all [])" unfolding lexes_def by blast
  then show ?thesis by (simp add: lex_all.simps [of "[]"])
qed

lemma parse_items:
  assumes "list_all (\<lambda>it. good_item it \<and> fst (snd it) \<noteq> []) its" "lexes s us"
    and "\<And>n. length us \<le> n \<Longrightarrow> p_cond n us = Some (e, [])"
  shows "parse_expr (concat (map (\<lambda>it. item_text it @ '' : '') its) @ s) = Some (ex_items its e)"
proof -
  let ?ts = "concat (map item_toks its) @ us"
  have l: "lex_all (concat (map (\<lambda>it. item_text it @ '' : '') its) @ s) = Some ?ts"
    by (rule lexes_whole [OF lexes_items [OF assms(1,2)]])
  have "p_cond (10 * (length ?ts + 1)) ?ts = Some (ex_items its e, [])"
    using assms(1,3) by (intro items_parse) (auto simp: list_all_iff)
  then show ?thesis using l by (simp only: parse_expr_def option.case prod.case list.case)
qed

lemma run_items:
  assumes "list_all (\<lambda>it. good_item it \<and> fst (snd it) \<noteq> []) its" "lexes s us"
    and "\<And>n. length us \<le> n \<Longrightarrow> p_cond n us = Some (e, [])" "knows env" "eval env e [] = Some (VNum r, l)"
  shows "run_fragment env (concat (map (\<lambda>it. item_text it @ '' : '') its) @ s) =
    (case find (\<lambda>it. list_all (holds (usage env)) (fst (snd it))) its of
       Some it \<Rightarrow> Some (Fin (tier_cost (usage env) (snd (snd it))), fst it)
     | None \<Rightarrow> Some (Fin r, l))"
proof -
  have "eval env (ex_items its e) [] = Some (charge env its (VNum r, l))"
    using assms(1) by (intro eval_items [OF assms(4,5)]) (simp add: list_all_iff good_item_def)
  moreover have "parse_expr (concat (map (\<lambda>it. item_text it @ '' : '') its) @ s) = Some (ex_items its e)"
    by (rule parse_items [OF assms(1,2)]) (rule assms(3))
  ultimately show ?thesis
    by (simp only: run_fragment_def bind.bind_lunit charge_def split: option.split) simp
qed

lemma call_last:
  assumes "good_item it" "fst (snd it) = []"
  shows "lexes (item_text it) (call_toks (fst it) (snd (snd it)))"
    "length (call_toks (fst it) (snd (snd it))) \<le> n \<Longrightarrow>
      p_cond n (call_toks (fst it) (snd (snd it))) = Some (ex_call (fst it) (snd (snd it)), [])"
proof -
  let ?t = "snd (snd it)"
  show "lexes (item_text it) (call_toks (fst it) ?t)"
    using assms lexes_call by (simp add: tier_text_def good_item_def)
  have "length (tier_prices ?t) \<le> length (body_toks (tier_prices ?t))"
    unfolding body_toks_def by (rule tok_join_length) (simp add: price_toks_def)
  then show "length (call_toks (fst it) ?t) \<le> n \<Longrightarrow> p_cond n (call_toks (fst it) ?t) = Some (ex_call (fst it) ?t, [])"
    using call_parses [of ?t n "[]" "fst it"] by (simp add: call_toks_def)
qed

lemma zero_last:
  "lexes ''p * 0 + c * 0'' (body_toks [(''p'', 0), (''c'', 0)])"
  "length (body_toks [(''p'', 0), (''c'', 0)]) \<le> n \<Longrightarrow>
    p_cond n (body_toks [(''p'', 0), (''c'', 0)]) = Some (ex_chain EAdd (map ex_price [(''p'', 0), (''c'', 0)]), [])"
  "knows env \<Longrightarrow> eval env (ex_chain EAdd (map ex_price [(''p'', 0), (''c'', 0)])) m = Some (VNum 0, m)"
proof -
  have "list_all priced [(''p'', 0), (''c'', 0)]" by code_simp
  moreover have "join '' + '' (map price_text [(''p'', 0), (''c'', 0)]) = ''p * 0 + c * 0''" by code_simp
  ultimately show "lexes ''p * 0 + c * 0'' (body_toks [(''p'', 0), (''c'', 0)])"
    using lexes_prices [of "[(''p'', 0), (''c'', 0)]"] by simp
  have "length (body_toks [(''p'', 0), (''c'', 0)]) = 7" by (simp add: body_toks_def tok_join_def price_toks_def)
  then show "length (body_toks [(''p'', 0), (''c'', 0)]) \<le> n \<Longrightarrow>
      p_cond n (body_toks [(''p'', 0), (''c'', 0)]) = Some (ex_chain EAdd (map ex_price [(''p'', 0), (''c'', 0)]), [])"
    using cond_body [of "[(''p'', 0), (''c'', 0)]" n "[]", unfolded append_Nil2] by fastforce
  assume "knows env"
  then have "eval env (ex_price (k, 0)) m = Some (VNum 0, m)" if "k \<in> set price_keys" for k
    using eval_price [of env "(k, 0)" m] that by simp
  then show "eval env (ex_chain EAdd (map ex_price [(''p'', 0), (''c'', 0)])) m = Some (VNum 0, m)"
    by (simp add: ex_chain_def)
qed

definition printed_item :: "nat \<Rightarrow> nat \<times> VisualTier \<Rightarrow> tier_item" where
  "printed_item n it = (printed_label n it, printed_conds n it, snd it)"

lemma join_snoc: "join sep (xs @ [y]) = concat (map (\<lambda>x. x @ sep) xs) @ y"
  by (induction xs) (auto simp: join_Cons)

lemma digits_plain: "plain_label (show_nat n)"
proof -
  have "list_all (\<lambda>c. \<not> is_digit c) [CHR 0x22, CHR 0x5C, CHR 0x0A, CHR 0x0D]" by code_simp
  then show ?thesis using show_nat_chars [of _ n] unfolding plain_label_def list_all_iff by blast
qed

lemma printed_label_plain: "plain_label (vt_label (snd it)) \<Longrightarrow> plain_label (printed_label n it)"
proof -
  have "plain_label ''default'' \<and> plain_label ''tier_''" by code_simp
  then show "plain_label (vt_label (snd it)) \<Longrightarrow> plain_label (printed_label n it)"
    using digits_plain [of "fst it + 1"] by (simp add: printed_label_def str_or_def plain_label_def)
qed

text \<open>The first tier whose conditions hold, and what the estimator answers with it.\<close>

definition estimate :: "(string \<Rightarrow> rat) \<Rightarrow> tier_item list \<Rightarrow> EvalResult" where
  "estimate u its =
     (case find (\<lambda>it. list_all (holds u) (fst (snd it))) its of
        Some it \<Rightarrow> \<lparr>er_cost = Fin (tier_cost u (snd (snd it))), er_matchedTier = fst it, er_error = None\<rparr>
      | None \<Rightarrow> \<lparr>er_cost = Fin 0, er_matchedTier = [], er_error = None\<rparr>)"

text \<open>The number of tokens of every kind; the length of a request counts the prompt with what is read from and written to
  the cache.\<close>

definition tokens_of :: "rat \<Rightarrow> rat \<Rightarrow> ExtraTokenValues \<Rightarrow> string \<Rightarrow> rat" where
  "tokens_of promptTokens completionTokens x k =
     (if k = ''p'' then promptTokens
      else if k = ''c'' then completionTokens
      else if k = ''len'' then promptTokens + (xt_cacheReadTokens x + xt_cacheCreateTokens x + xt_cacheCreate1hTokens x)
      else if k = ''cr'' then xt_cacheReadTokens x
      else if k = ''cc'' then xt_cacheCreateTokens x
      else if k = ''cc1h'' then xt_cacheCreate1hTokens x
      else if k = ''img'' then xt_imageTokens x
      else if k = ''img_o'' then xt_imageOutputTokens x
      else if k = ''ai'' then xt_audioInputTokens x
      else if k = ''ao'' then xt_audioOutputTokens x
      else 0)"

lemma env_tokens: "usage (estimator_env p c x) = tokens_of p c x"
  by (rule ext) (simp add: usage_def tokens_of_def estimator_env_def)

lemma find_snoc: "find P (xs @ [x]) = (case find P xs of Some y \<Rightarrow> Some y | None \<Rightarrow> if P x then Some x else None)"
  by (induction xs) auto

lemma generated_run:
  assumes "list_all (\<lambda>it. good_item it \<and> fst (snd it) \<noteq> []) its" "good_item it" "knows env"
  shows "fst (snd it) = [] \<Longrightarrow> run_fragment env (join '' : '' (map item_text (its @ [it]))) =
      Some (er_cost (estimate (usage env) (its @ [it])), er_matchedTier (estimate (usage env) (its @ [it])))"
    "fst (snd it) \<noteq> [] \<Longrightarrow> run_fragment env (item_text it @ '' : p * 0 + c * 0'') =
      Some (er_cost (estimate (usage env) [it]), er_matchedTier (estimate (usage env) [it]))"
proof -
  let ?l = "fst it" and ?t = "snd (snd it)"
  assume cs: "fst (snd it) = []"
  have "run_fragment env (concat (map (\<lambda>it. item_text it @ '' : '') its) @ item_text it) =
    (case find (\<lambda>it. list_all (holds (usage env)) (fst (snd it))) its of
       Some it \<Rightarrow> Some (Fin (tier_cost (usage env) (snd (snd it))), fst it)
     | None \<Rightarrow> Some (Fin (tier_cost (usage env) ?t), ?l))"
    by (rule run_items [OF assms(1) call_last(1) [OF assms(2) cs]])
      (rule call_last(2) [OF assms(2) cs], assumption, rule assms(3), rule eval_call [OF assms(3)])
  then show "run_fragment env (join '' : '' (map item_text (its @ [it]))) =
      Some (er_cost (estimate (usage env) (its @ [it])), er_matchedTier (estimate (usage env) (its @ [it])))"
    using cs by (simp add: join_snoc estimate_def find_snoc comp_def split: option.split)
next
  assume "fst (snd it) \<noteq> []"
  then have "list_all (\<lambda>it. good_item it \<and> fst (snd it) \<noteq> []) [it]" using assms(2) by simp
  from run_items [OF this zero_last(1) zero_last(2) assms(3) zero_last(3) [OF assms(3)]]
  show "run_fragment env (item_text it @ '' : p * 0 + c * 0'') =
      Some (er_cost (estimate (usage env) [it]), er_matchedTier (estimate (usage env) [it]))"
    by (simp add: estimate_def)
qed

text \<open>The items of a configuration: all but the last have conditions.\<close>

lemma config_items:
  assumes "list_all printable_tier tiers" "list_all (\<lambda>t. plain_label (vt_label t)) tiers" "tiers \<noteq> []"
    and "list_all (\<lambda>t. vt_conditions t \<noteq> []) (butlast tiers)"
  obtains its it where "map (printed_item (length tiers)) (List.enumerate 0 tiers) = its @ [it]"
    "list_all (\<lambda>it. good_item it \<and> fst (snd it) \<noteq> []) its" "good_item it"
    "fst (snd it) = (if length tiers = 1 then vt_conditions (hd tiers) else [])"
proof -
  let ?n = "length tiers"
  have good: "good_item (printed_item ?n it)" if "it \<in> set (List.enumerate 0 tiers)" for it
  proof -
    have "snd it \<in> set tiers" using that by (metis in_set_enumerate_eq add_0_right diff_zero nth_mem)
    then have "plain_label (printed_label ?n it)" using assms(2) by (intro printed_label_plain) (simp add: list_all_iff)
    then show ?thesis using printed_facts [OF assms(1) that] by (simp add: good_item_def printed_item_def)
  qed
  have e: "List.enumerate 0 tiers = List.enumerate 0 (butlast tiers) @ [(?n - 1, last tiers)]"
    using assms(3) enumerate_append_eq [of 0 "butlast tiers" "[last tiers]"] by simp
  have c: "printed_conds ?n it \<noteq> []" if "it \<in> set (List.enumerate 0 (butlast tiers))" for it
  proof -
    have i: "fst it < ?n - 1" "snd it = butlast tiers ! fst it" using that by (auto simp: in_set_enumerate_eq)
    then have "snd it \<in> set (butlast tiers)" by simp
    then show ?thesis using assms(4) i(1) by (simp add: printed_conds_def list_all_iff)
  qed
  let ?its = "map (printed_item ?n) (List.enumerate 0 (butlast tiers))" and ?it = "printed_item ?n (?n - 1, last tiers)"
  show thesis
  proof (rule that [of ?its ?it])
    show "map (printed_item ?n) (List.enumerate 0 tiers) = ?its @ [?it]" using e by simp
    show "list_all (\<lambda>it. good_item it \<and> fst (snd it) \<noteq> []) ?its"
      using good c e by (simp add: list_all_iff printed_item_def)
    show "good_item ?it" using good e by simp
    show "fst (snd ?it) = (if ?n = 1 then vt_conditions (hd tiers) else [])"
      by (cases tiers) (auto simp: printed_item_def printed_conds_def)
  qed
qed

lemma generated_items:
  assumes "list_all printable_tier tiers" "tiers \<noteq> []" "map (printed_item (length tiers)) (List.enumerate 0 tiers) = its @ [it]"
    and "fst (snd it) = (if length tiers = 1 then vt_conditions (hd tiers) else [])"
  shows "generateExprFromVisualConfig (Some tiers) =
    (if fst (snd it) = [] then join '' : '' (map item_text (its @ [it])) else item_text it @ '' : p * 0 + c * 0'')"
proof -
  have "map (printed_tier (length tiers)) (List.enumerate 0 tiers) = map item_text (its @ [it])"
    unfolding assms(3) [symmetric] by (simp add: printed_item_def)
  then have g: "generateExprFromVisualConfig (Some tiers) = join '' : '' (map item_text (its @ [it])) @ end_of tiers"
    using generated_text [OF assms(1,2)] by simp
  show ?thesis
  proof (cases "fst (snd it) = []")
    case True
    then have "end_of tiers = []" using assms(4) by (auto simp: end_of_def split: if_splits)
    then show ?thesis using g True by simp
  next
    case False
    then have n: "length tiers = 1" "vt_conditions (hd tiers) \<noteq> []" using assms(4) by (auto split: if_splits)
    have "length (its @ [it]) = length tiers" unfolding assms(3) [symmetric] by simp
    then have "its = []" using n(1) by simp
    then show ?thesis using g n False by (simp add: end_of_def)
  qed
qed

text \<open>C7: The cost estimator of the tiered pricing editor agrees with the prices of the tiers. For every visual configuration
  whose texts can be printed and whose tiers before the last have a condition, running the printed expression on a number of
  prompt, completion, cache, image and audio tokens gives the sum of the tokens times their prices in the first tier whose
  conditions hold, together with the label of that tier, and the cost 0 with no tier where none holds.\<close>

theorem estimated_tier_price:
  assumes "list_all printable_tier tiers" "list_all (\<lambda>t. plain_label (vt_label t)) tiers" "tiers \<noteq> []"
    and "list_all (\<lambda>t. vt_conditions t \<noteq> []) (butlast tiers)"
  shows "evalExprLocally other (generateExprFromVisualConfig (Some tiers)) promptTokens completionTokens extraTokenValues =
    estimate (tokens_of promptTokens completionTokens extraTokenValues)
      (map (printed_item (length tiers)) (List.enumerate 0 tiers))"
proof -
  let ?env = "estimator_env promptTokens completionTokens extraTokenValues"
    and ?u = "tokens_of promptTokens completionTokens extraTokenValues" and ?s = "generateExprFromVisualConfig (Some tiers)"
  obtain its it where i: "map (printed_item (length tiers)) (List.enumerate 0 tiers) = its @ [it]"
    "list_all (\<lambda>it. good_item it \<and> fst (snd it) \<noteq> []) its" "good_item it"
    "fst (snd it) = (if length tiers = 1 then vt_conditions (hd tiers) else [])"
    using config_items [OF assms] .
  note g = generated_items [OF assms(1,3) i(1,4)]
  have its: "fst (snd it) \<noteq> [] \<Longrightarrow> its = []"
  proof -
    assume "fst (snd it) \<noteq> []"
    moreover have "length (its @ [it]) = length tiers" unfolding i(1) [symmetric] by simp
    ultimately show ?thesis using i(4) by (simp split: if_splits)
  qed
  have r: "run_fragment ?env ?s = Some (er_cost (estimate ?u (its @ [it])), er_matchedTier (estimate ?u (its @ [it])))"
    using generated_run [OF i(2,3) env_knows] its unfolding g env_tokens by simp
  have "CHR ''('' \<in> set ?s"
    unfolding g by (auto simp: join_snoc tier_text_def tier_call_def)
  then have "trim ?s \<noteq> []" by (rule trim_nonblank) (simp add: is_ws_def)
  then show ?thesis
    unfolding i(1) using r by (simp add: evalExprLocally_def Let_def estimate_def split: option.split)
qed

theorem estimated_tier_price_witness:
  "evalExprLocally (\<lambda>env s. Inl []) (generateExprFromVisualConfig (Some sample_tiers)) 4 2
     \<lparr>xt_cacheReadTokens = 0, xt_cacheCreateTokens = 0, xt_cacheCreate1hTokens = 6, xt_imageTokens = 0, xt_imageOutputTokens = 0,
      xt_audioInputTokens = 0, xt_audioOutputTokens = 0\<rparr> = \<lparr>er_cost = Fin 26, er_matchedTier = ''tier_2'', er_error = None\<rparr>"
proof -
  have "list_all (\<lambda>t. plain_label (vt_label t)) sample_tiers" by code_simp
  note e = estimated_tier_price [OF sample_tiers_facts(1) this sample_tiers_facts(2,3)]
  show ?thesis unfolding e by code_simp
qed

text \<open>A tier without a condition in front of another text is printed as a call that a colon follows, which is not an
  expression.\<close>

lemma unconditional_tier_unreadable:
  assumes "good_item it" "fst (snd it) = []" "lexes s us"
  shows "parse_expr (item_text it @ '' : '' @ s) = None"
proof -
  let ?l = "fst it" and ?t = "snd (snd it)"
  have "lexes (item_text it @ CHR '' '' # '':'' @ CHR '' '' # s) (call_toks ?l ?t @ TColon # us)"
    using lexes_append [OF call_last(1) [OF assms(1,2)] lexes_spaced [OF lexes_ops(4) assms(3)]] by (simp add: sep_start_def)
  then have l: "lex_all (item_text it @ '' : '' @ s) = Some (call_toks ?l ?t @ TColon # us)"
    using lexes_whole by simp
  have "length (tier_prices ?t) \<le> length (body_toks (tier_prices ?t))"
    unfolding body_toks_def by (rule tok_join_length) (simp add: price_toks_def)
  then have "p_cond (10 * (length (call_toks ?l ?t @ TColon # us) + 1)) (call_toks ?l ?t @ TColon # us) =
      Some (ex_call ?l ?t, TColon # us)"
    by (intro call_parses) (simp_all add: call_toks_def)
  then show ?thesis using l by (simp only: parse_expr_def option.case prod.case list.case)
qed

end
