(* ===== verification/Spec2Isabelle.thy ===== *)
theory Spec2Isabelle
  imports StatusCodes StatusRisk ModelMapping ChatHandler PlaygroundState FlowLimits AdvancedEditor PricingDisplay EvalRoundtrip
begin

text \<open>
  \<^bold>\<open>A verification library for the web console.\<close> The console (\<open>src/web/default/src\<close>) is the front end of a gateway to
  language models. The library models its program logic: the chat playground, the storage of conversations, the routes
  and mappings of channels, the billing expressions with their editors, the price catalogue with its number formats, and
  the usage-flow graph of the dashboard. Every definition is a translation of a function, handler or table of the
  sources and keeps its name where that is possible.

  \<^bold>\<open>Parts and theories.\<close>

  \<^item> \<open>Prelude\<close>, \<open>Json\<close>, \<open>JsonIndent\<close>, \<open>Numbers\<close>, \<open>Accumulator\<close>: the part of the language and its library that the sources
    use (strings, sets, maps, stable sorting, \<open>JSON.parse\<close> and both forms of \<open>JSON.stringify\<close>, numerals,
    \<open>toFixed\<close>), and the interfaces that several components share.
  \<^item> \<open>Messages\<close>, \<open>Streaming\<close>, \<open>Conversation\<close> (\<open>features/playground/lib\<close>): one message, the life of an answer, the
    operations on a conversation. \<open>ChatHandler\<close> (\<open>hooks/use-chat-handler.ts\<close>, \<open>use-stream-request.ts\<close>,
    \<open>use-playground-conversation.ts\<close>) is the state machine that composes them; its steps \<open>chat_step\<close> are the actions of
    the user, the events of the stream, the timers and the answers of requests. \<open>Storage\<close> (\<open>lib/storage\<close>) and
    \<open>PlaygroundState\<close> (\<open>hooks/use-playground-state.ts\<close>) keep settings and messages in the browser storage.
  \<^item> \<open>StatusCodes\<close>, \<open>StatusRisk\<close>, \<open>ModelMapping\<close>: rules of status codes (\<open>lib/http-status-code-rules.ts\<close>), the guard
    of redirects and the model mapping of a channel (\<open>features/channels/lib\<close>). \<open>AdvancedCustom\<close> and \<open>AdvancedEditor\<close>: the
    routes of a channel (\<open>advanced-custom.ts\<close>) and the dialog that edits them, a state machine over \<open>editor_event\<close>.
  \<^item> \<open>RequestRules\<close> (\<open>features/pricing/lib/billing-expr.ts\<close>), \<open>TierPricing\<close> (\<open>billing-expr.ts\<close>, \<open>tier-expr.ts\<close>) and
    \<open>TierEval\<close> (\<open>evalExprLocally\<close>): printing, reading and running billing expressions. \<open>RuleRoundtrip\<close>, \<open>TierRoundtrip\<close>
    and \<open>EvalRoundtrip\<close> hold the proofs about them.
  \<^item> \<open>Currency\<close> (\<open>lib/currency.ts\<close>, \<open>stores/system-config-store.ts\<close>), \<open>Format\<close> (\<open>lib/format.ts\<close>) and \<open>Catalog\<close>
    (\<open>features/pricing/lib/filters.ts\<close>, \<open>price.ts\<close>, \<open>dynamic-price.ts\<close>, \<open>model-helpers.ts\<close> and the pricing hooks): amounts,
    numbers and the list of models with its filters and prices. \<open>PricingDisplay\<close> relates the catalogue to the editors.
  \<^item> \<open>Flow\<close> (\<open>features/dashboard/lib/flow.ts\<close>, \<open>flow-selection.ts\<close>): rows of usage become paths, nodes and links.
    \<open>FlowGraph\<close> and \<open>FlowLimits\<close> hold the proofs about the drawn graph.

  \<^bold>\<open>State and operations.\<close> Objects are records, unions are datatypes, and hooks are functions on a record of their state
  and refs; the interleavings of handlers, timers and events are the steps of an inductive relation. A text is the byte
  sequence of its UTF-8 encoding (the colour hash, which reads code units, takes 16-bit words). \<open>null\<close>
  and \<open>undefined\<close> are \<open>None\<close>, an outer \<open>None\<close> of a result is an exception, and a record with
  string keys is an association list. Numbers are exact rationals, with the infinities and \<open>NaN\<close> in the display code, and
  32-bit integers where the bitwise operators are used: rounding errors of binary fractions are not part of the model.
  Regular expressions are functions that give the list of their matches in the order in which the language tries them.

  \<^bold>\<open>Parameters.\<close> Code that is not part of the repository is an argument: the clock and the identifiers, translation,
  the schemas of \<open>zod\<close>, \<open>localeCompare\<close>, \<open>toLowerCase\<close>, \<open>Intl\<close>, \<open>dayjs\<close>, \<open>Date\<close> and \<open>URL\<close>. Where a
  statement relies on it the law is a named hypothesis, such as \<open>comparator\<close> for the comparison of names.

  \<^bold>\<open>What the lemmas show.\<close>

  \<^item> Chat: in every reachable state an answer is pending only while generation is shown, the text of an answer does not
    depend on how timers interleave with chunks, generation ends, and no event touches an earlier turn. Messages: reasoning
    is separated exactly, answers store what was displayed, and keys stay unique.
  \<^item> Storage: saving and loading are inverse on settled conversations within the limits, trimming keeps the longest suffix, and
    closing and opening the page refines one persistent cell.
  \<^item> Channels: parsed ranges cover exactly the codes that are written and survive printing; the validation of routes is
    exact, the route editor saves only valid configurations, and its visual edits never throw.
  \<^item> Billing: printed rules, combined expressions and visual configurations are read back; the estimator charges the first
    tier whose conditions hold; what the tier editor saves is what the price page shows (proved in this theory, since it
    spans the rule editor, the tier editor and the catalogue).
  \<^item> Catalogue and numbers: the page shows exactly the models that pass the filters, offered tags find models, the listed price
    is the best one, quota amounts survive the input field, and shown numbers are near their values.
  \<^item> Flow: usage is conserved at every node, stages add up to the summary, limits keep the largest nodes, masks hide
    labels, and filters select the rows they name.

  \<^bold>\<open>Interfaces.\<close> \<open>comparator\<close> (sorting), \<open>collation\<close> (three-way comparison, which gives a \<open>comparator\<close>), \<open>json_codec\<close>
  (text of values), \<open>accumulator\<close> (maps that add weights), \<open>message_updater\<close> (what an update of an answer keeps) and \<open>splitter\<close>
  (splitting at an operator outside parentheses) are locales, each interpreted on the definitions of the model.

  \<^bold>\<open>Bounds and fuel.\<close> Loops are structural or have a measure. The parser of the estimator takes fuel ten times the number of
  tokens plus ten; \<open>items_parse\<close> shows that the number of tokens is enough for every printed expression, and a text that
  exhausts it is left to the parameter that stands for the rest of the language. The loop of \<open>unwrapOuterParens\<close> is
  a recursive function, shown to end within half the length of the text. Decimal prices have at most six
  fractional digits, which is what the printed form of a number keeps exactly.

  \<^bold>\<open>Not modelled.\<close> Rendering, styling and translated labels of components; calls of the server and the query client; the form
  schemas of channels, models, users, keys and subscriptions, which are tables for \<open>zod\<close>; the channel drawer and the system
  settings pages, which wire such forms; chart specifications; the placeholder statistics of models; authentication,
  navigation and the other front ends; and the Go server, which is a separate program.
\<close>

text \<open>C6: What the tier editor saves is what the price page shows. When a model carries the expression combined from printed tiers
  with decimal prices and numeric conditions and from readable request rules, the page reads the tiers in order with their
  labels, printed conditions and exact prices, recognises whether there are rules, and lists exactly the positive prices of the
  first tier, input and output first.\<close>

theorem saved_tiers_displayed:
  assumes "list_all printable_tier tiers" "tiers \<noteq> []" "list_all (\<lambda>t. no_parens (vt_label t)) tiers"
    and "list_all readable_group rules" "pm_billing_mode model = Some ''tiered_expr''"
    and "pm_billing_expr model = Some (combineBillingExpr (generateExprFromVisualConfig (Some tiers)) (buildRequestRuleExpr rules))"
  shows "\<exists>s. getDynamicPricingSummary intl config model options = Some (Some s) \<and>
    ds_tiers s = map (\<lambda>it. \<lparr>pt_label = printed_label (length tiers) it, pt_conditions = printed_conds (length tiers) it,
        pt_prices = price_list (snd it)\<rparr>) (List.enumerate 0 tiers) \<and>
    ds_hasRequestRules s = (rules \<noteq> []) \<and> \<not> ds_isSpecialExpression s \<and>
    (\<lambda>e. (de_field e, de_value e)) ` set (ds_entries s) = {fp \<in> set (price_list (hd tiers)). 0 < snd fp} \<and>
    ds_entries s = ds_primaryEntries s @ ds_secondaryEntries s"
proof -
  let ?x = "combineBillingExpr (printed_expr tiers) (buildRequestRuleExpr rules)"
  let ?tiers = "map (\<lambda>it. \<lparr>pt_label = printed_label (length tiers) it, pt_conditions = printed_conds (length tiers) it,
      pt_prices = price_list (snd it)\<rparr>) (List.enumerate 0 tiers)"
  note f = printed_expr_facts [OF assms(1-3)]
  have x: "?x \<noteq> []" using f(2,3) by (simp add: combineBillingExpr_def Let_def)
  then have d: "isDynamicPricingModel model" "opt_str_or (pm_billing_expr model) [] = ?x"
    using assms(5,6) by (simp_all add: isDynamicPricingModel_def js_ops)
  note split = split_combined_tiers [OF assms(1-4)]
  have t: "getDynamicPricingTiers model = Some ?tiers"
    by (simp add: getDynamicPricingTiers_def d split tiers_read [OF assms(1,2)])
  have r: "hasDynamicRequestRules model = Some (rules \<noteq> [])"
    by (simp add: hasDynamicRequestRules_def d split rules_read [OF assms(4)] nullish_def)
  obtain t ts where ts: "?tiers = t # ts" "pt_prices t = price_list (hd tiers)"
    using assms(2) by (cases tiers) simp_all
  obtain s where s: "getDynamicPricingSummary intl config model options = Some (Some s)" "ds_tiers s = t # ts"
      "ds_hasRequestRules s = (rules \<noteq> [])" "\<not> ds_isSpecialExpression s"
      "ds_entries s = getDynamicPriceEntries intl config (Some t) options" "ds_entries s = ds_primaryEntries s @ ds_secondaryEntries s"
    using summary_of_tiers [OF d(1) t [unfolded ts(1)] r] by blast
  have "(\<lambda>e. (de_field e, de_value e)) ` set (ds_entries s) = {fp \<in> set (price_list (hd tiers)). 0 < snd fp}"
    unfolding s(5) by (rule entry_prices [OF ts(2)])
  then show ?thesis unfolding ts(1) using s(1-4,6) by blast
qed

definition sample_tiered_model :: PricingModel where
  "sample_tiered_model = (sample_model ''small'' 1)\<lparr>pm_billing_mode := Some ''tiered_expr'', pm_billing_expr :=
     Some (combineBillingExpr (generateExprFromVisualConfig (Some sample_tiers)) (buildRequestRuleExpr sample_rules))\<rparr>"

theorem saved_tiers_displayed_witness:
  "\<exists>s. getDynamicPricingSummary (\<lambda>o' n. []) dollar_config sample_tiered_model
       \<lparr>dp_tokenUnit = UnitM, dp_showRechargePrice = None, dp_priceRate = None, dp_usdExchangeRate = None,
        dp_groupRatioMultiplier = None\<rparr> = Some (Some s) \<and>
     length (ds_tiers s) = 2 \<and> ds_hasRequestRules s"
proof -
  have l: "list_all (\<lambda>t. no_parens (vt_label t)) sample_tiers" by code_simp
  have "pm_billing_mode sample_tiered_model = Some ''tiered_expr''" "pm_billing_expr sample_tiered_model =
      Some (combineBillingExpr (generateExprFromVisualConfig (Some sample_tiers)) (buildRequestRuleExpr sample_rules))"
    by (simp_all add: sample_tiered_model_def)
  from saved_tiers_displayed [OF sample_tiers_facts(1,2) l sample_rules_readable this]
  obtain s f where s: "getDynamicPricingSummary (\<lambda>o' n. []) dollar_config sample_tiered_model
       \<lparr>dp_tokenUnit = UnitM, dp_showRechargePrice = None, dp_priceRate = None, dp_usdExchangeRate = None,
        dp_groupRatioMultiplier = None\<rparr> = Some (Some s)"
      "ds_tiers s = map f (List.enumerate 0 sample_tiers)" "ds_hasRequestRules s = (sample_rules \<noteq> [])"
    by blast
  have "length (ds_tiers s) = 2" by (simp only: s(2) length_map length_enumerate sample_length)
  moreover have "ds_hasRequestRules s" using s(3) by (simp add: sample_rules_def)
  ultimately show ?thesis using s(1) by blast
qed

end
